(* ===== verification/Prelude.thy ===== *)
theory Prelude
  imports Main "HOL-Library.Word"
begin

text \<open>
  The shared vocabulary of the development: Go strings and their UTF-8 runes, 64-bit
  integers, UUIDs in byte order, Go error values with \<^verbatim>\<open>errors.Is\<close> and
  \<^verbatim>\<open>errors.As\<close>, and the generic facts on lists and sums that the components share.

  A Go string (and a \<^verbatim>\<open>[]byte\<close>) is a list of bytes; the type \<^typ>\<open>string\<close> of HOL has
  exactly the 256 byte values as characters.  A Go \<^verbatim>\<open>int64\<close> (and a PostgreSQL
  \<^verbatim>\<open>BIGINT\<close>) is an \<^typ>\<open>int\<close> inside \<open>in_int64\<close>: Go's operators wrap
  (\<open>wrap64\<close>), PostgreSQL's raise.
\<close>

named_theorems err_simps \<open>evaluation of \<open>errors.Is\<close> and \<open>errors.As\<close>\<close>
named_theorems table_simps \<open>lookups and updates on tables\<close>

section \<open>64-bit integers\<close>

definition in_int64 :: "int \<Rightarrow> bool" where
  "in_int64 x \<longleftrightarrow> - (2 ^ 63) \<le> x \<and> x < 2 ^ 63"

definition wrap64 :: "int \<Rightarrow> int" where
  "wrap64 x = (x + 2 ^ 63) mod 2 ^ 64 - 2 ^ 63"

section \<open>Strings and UTF-8\<close>

text \<open>Bytes as numbers, and the decoding of one rune at the head of a byte string as
  \<^verbatim>\<open>utf8.DecodeRuneInString\<close> does it: \<open>None\<close> for an invalid encoding, otherwise the
  rune and its width.\<close>

definition byte_of :: "char \<Rightarrow> nat" where
  "byte_of c = of_char c"

definition cont :: "nat \<Rightarrow> bool" where
  "cont b \<longleftrightarrow> 128 \<le> b \<and> b \<le> 191"

definition second_byte_ok :: "nat \<Rightarrow> nat \<Rightarrow> bool" where
  "second_byte_ok b0 b1 \<longleftrightarrow>
     (if b0 = 224 then 160 \<le> b1 \<and> b1 \<le> 191
      else if b0 = 237 then 128 \<le> b1 \<and> b1 \<le> 159
      else if b0 = 240 then 144 \<le> b1 \<and> b1 \<le> 191
      else if b0 = 244 then 128 \<le> b1 \<and> b1 \<le> 143
      else cont b1)"

fun decode_bytes :: "nat list \<Rightarrow> (nat \<times> nat) option" where
  "decode_bytes [] = None"
| "decode_bytes (b0 # bs) =
     (if b0 < 128 then Some (b0, 1)
      else if 194 \<le> b0 \<and> b0 \<le> 223 then
        (case bs of b1 # _ \<Rightarrow>
           if cont b1 then Some ((b0 - 192) * 64 + (b1 - 128), 2) else None
         | _ \<Rightarrow> None)
      else if 224 \<le> b0 \<and> b0 \<le> 239 then
        (case bs of b1 # b2 # _ \<Rightarrow>
           if second_byte_ok b0 b1 \<and> cont b2
           then Some ((b0 - 224) * 4096 + (b1 - 128) * 64 + (b2 - 128), 3) else None
         | _ \<Rightarrow> None)
      else if 240 \<le> b0 \<and> b0 \<le> 244 then
        (case bs of b1 # b2 # b3 # _ \<Rightarrow>
           if second_byte_ok b0 b1 \<and> cont b2 \<and> cont b3
           then Some ((b0 - 240) * 262144 + (b1 - 128) * 4096 + (b2 - 128) * 64 + (b3 - 128), 4)
           else None
         | _ \<Rightarrow> None)
      else None)"

text \<open>\<^verbatim>\<open>for _, r := range s\<close>: an invalid byte yields U+FFFD and advances by one.\<close>

function runes_of_bytes :: "nat list \<Rightarrow> nat list" where
  "runes_of_bytes [] = []"
| "runes_of_bytes (b # bs) =
     (case decode_bytes (b # bs) of
        None \<Rightarrow> 65533 # runes_of_bytes bs
      | Some (r, n) \<Rightarrow> r # runes_of_bytes (drop (n - 1) bs))"
  by pat_completeness auto
termination
  by (relation "measure length") auto

function valid_utf8_bytes :: "nat list \<Rightarrow> bool" where
  "valid_utf8_bytes [] = True"
| "valid_utf8_bytes (b # bs) =
     (case decode_bytes (b # bs) of
        None \<Rightarrow> False
      | Some (r, n) \<Rightarrow> valid_utf8_bytes (drop (n - 1) bs))"
  by pat_completeness auto
termination
  by (relation "measure length") auto

definition runes :: "string \<Rightarrow> nat list" where
  "runes s = runes_of_bytes (map byte_of s)"

definition valid_string :: "string \<Rightarrow> bool" where
  "valid_string s = valid_utf8_bytes (map byte_of s)"

section \<open>UUIDs\<close>

text \<open>\<^verbatim>\<open>uuid.UUID\<close> is an array of 16 bytes; the model keeps its 128-bit value and reads
  the bytes off it, most significant first.  \<open>bytes_compare\<close> is \<^verbatim>\<open>bytes.Compare\<close>.\<close>

type_synonym byte = "8 word"

datatype uuid = UUID (uuid_word: "128 word")

definition uuid_Nil :: uuid where
  "uuid_Nil = UUID 0"

fun be_bytes :: "nat \<Rightarrow> nat \<Rightarrow> byte list" where
  "be_bytes 0 x = []"
| "be_bytes (Suc n) x = be_bytes n (x div 256) @ [word_of_nat (x mod 256)]"

definition uuid_bytes :: "uuid \<Rightarrow> byte list" where
  "uuid_bytes u = be_bytes 16 (unat (uuid_word u))"

fun bytes_compare :: "byte list \<Rightarrow> byte list \<Rightarrow> int" where
  "bytes_compare [] [] = 0"
| "bytes_compare [] (b # bs) = -1"
| "bytes_compare (a # as) [] = 1"
| "bytes_compare (a # as) (b # bs) =
     (if a < b then -1 else if b < a then 1 else bytes_compare as bs)"

definition be_value :: "byte list \<Rightarrow> nat" where
  "be_value bs = foldl (\<lambda>acc b. acc * 256 + unat b) 0 bs"

section \<open>Errors\<close>

text \<open>The package-level sentinels of the program (named after their package) and the ones
  of the libraries it compares against.\<close>

datatype sentinel =
    money_ErrInvalidCurrency
  | account_ErrNotFound
  | transfer_ErrNotFound
  | transfer_ErrSourceAccountNotFound
  | transfer_ErrDestinationAccountNotFound
  | transfer_ErrSameAccount
  | transfer_ErrInvalidAmount
  | transfer_ErrCurrencyMismatch
  | transfer_ErrInsufficientFunds
  | transfer_ErrNotBalanced
  | transfer_ErrRetriesExhausted
  | transfer_ErrIdempotencyConflict
  | transfer_ErrIdempotencyInProgress
  | idempotency_ErrInvalidKey
  | idempotency_ErrConflict
  | idempotency_ErrInProgress
  | idempotency_ErrUnavailable
  | auth_ErrNoCredentials
  | auth_ErrMalformedCredentials
  | auth_ErrInvalidToken
  | auth_ErrMissingScope
  | grpcapi_ErrInvalidRequest
  | pgx_ErrNoRows
  | redis_Nil
  | context_Canceled
  | context_DeadlineExceeded
  | migrate_ErrNoChange
  | migrate_ErrNilVersion

datatype fmt_arg = AInt int | AStr string | AUuid uuid

text \<open>What a command prints: the format of each line and its arguments.\<close>

type_synonym printed = "(string \<times> fmt_arg list) list"

definition show_bool :: "bool \<Rightarrow> fmt_arg" where
  "show_bool b = AStr (if b then ''true'' else ''false'')"

text \<open>gRPC status codes the service uses.\<close>

datatype grpc_code = OK | Canceled | InvalidArgument | DeadlineExceeded | NotFound | AlreadyExists
  | PermissionDenied | FailedPrecondition | Aborted | Internal | Unavailable | Unauthenticated | Unknown

text \<open>
  A Go error value.  \<open>Errorf f as ws\<close> is \<^verbatim>\<open>fmt.Errorf(f, ...)\<close> with the plain
  arguments \<open>as\<close> and the wrapped errors \<open>ws\<close> (one per \<^verbatim>\<open>%w\<close>), and
  \<^verbatim>\<open>errors.Join\<close> with an empty format.  \<open>PgError c k\<close> is a
  \<^verbatim>\<open>*pgconn.PgError\<close> with SQLSTATE \<open>c\<close> and constraint name \<open>k\<close>.  \<open>StatusError\<close>
  is a gRPC status error; its message is either a fixed text or the text of an error.
  \<open>LibError\<close> stands for any other library error.
\<close>

datatype go_error =
    Sentinel sentinel
  | ErrorsNew string
  | PgError string string
  | LibError string
  | StatusError grpc_code status_msg
  | Errorf string "fmt_arg list" "go_error list"
and status_msg = FixedText string | ErrorText go_error

type_synonym 'a result = "go_error + 'a"

text \<open>A query that returns rows can fail when it is sent or while its rows are read.\<close>

datatype read_fault = NoReadFault | QueryFault go_error | ReadFault go_error

fun first_some :: "'a option list \<Rightarrow> 'a option" where
  "first_some [] = None"
| "first_some (None # xs) = first_some xs"
| "first_some (Some x # xs) = Some x"

text \<open>\<^verbatim>\<open>errors.Is\<close> against a sentinel, and \<^verbatim>\<open>errors.As\<close> for a
  \<^verbatim>\<open>*pgconn.PgError\<close> and for a gRPC status: depth first over the wrapped errors.\<close>

fun errors_is :: "go_error \<Rightarrow> sentinel \<Rightarrow> bool" where
  "errors_is (Sentinel s) t = (s = t)"
| "errors_is (Errorf f as ws) t = list_ex (\<lambda>e. errors_is e t) ws"
| "errors_is _ t = False"

fun errors_as_pg :: "go_error \<Rightarrow> (string \<times> string) option" where
  "errors_as_pg (PgError c k) = Some (c, k)"
| "errors_as_pg (Errorf f as ws) = first_some (map errors_as_pg ws)"
| "errors_as_pg _ = None"

fun errors_as_status :: "go_error \<Rightarrow> (grpc_code \<times> status_msg) option" where
  "errors_as_status (StatusError c m) = Some (c, m)"
| "errors_as_status (Errorf f as ws) = first_some (map errors_as_status ws)"
| "errors_as_status _ = None"

section \<open>Lemmas\<close>

subsection \<open>64-bit integers\<close>

lemma wrap64_id [simp]: "in_int64 x \<Longrightarrow> wrap64 x = x"
  by (simp add: wrap64_def in_int64_def)

lemma in_int64_wrap64 [simp]: "in_int64 (wrap64 x)"
  by (simp add: wrap64_def in_int64_def)

lemma wrap64_wrap64_add: "wrap64 (wrap64 x + y) = wrap64 (x + y)"
proof -
  have "(wrap64 x + y + 2 ^ 63) mod 2 ^ 64 = (x + y + 2 ^ 63) mod (2 ^ 64 :: int)"
    unfolding wrap64_def by (simp add: algebra_simps mod_simps)
  then show ?thesis by (simp add: wrap64_def)
qed

subsection \<open>Runes\<close>

lemma decode_bytes_ascii: "b < 128 \<Longrightarrow> decode_bytes (b # bs) = Some (b, 1)"
  by simp

lemma decode_bytes_multi:
  assumes "\<not> b < 128" and "decode_bytes (b # bs) = Some (r, n)"
  shows "128 \<le> r \<and> (\<forall>x \<in> set (take (n - 1) bs). 128 \<le> x)"
  using assms
  by (auto simp: cont_def second_byte_ok_def split: if_splits list.splits)

lemma set_drop_take: "set xs = set (take n xs) \<union> set (drop n xs)"
  by (metis append_take_drop_id set_append)

text \<open>The ASCII runes of a string are its ASCII bytes, and it has a non-ASCII rune exactly
  when it has a non-ASCII byte.\<close>

lemma runes_of_bytes_ascii:
  "x < 128 \<Longrightarrow> x \<in> set (runes_of_bytes bs) \<longleftrightarrow> x \<in> set bs"
proof (induction bs rule: runes_of_bytes.induct)
  case 1
  then show ?case by simp
next
  case (2 b bs)
  show ?case
  proof (cases "b < 128")
    case True
    then have "decode_bytes (b # bs) = Some (b, 1)" by simp
    with 2 have "x \<in> set (runes_of_bytes bs) \<longleftrightarrow> x \<in> set bs" by fastforce
    with True show ?thesis by auto
  next
    case False
    show ?thesis
    proof (cases "decode_bytes (b # bs)")
      case None
      with 2 False show ?thesis by auto
    next
      case (Some p)
      obtain r n where p: "p = (r, n)" by (cases p)
      have "128 \<le> r" and "\<forall>y \<in> set (take (n - 1) bs). 128 \<le> y"
        using decode_bytes_multi [OF False] Some p by auto
      moreover have "x \<in> set (runes_of_bytes (drop (n - 1) bs)) \<longleftrightarrow> x \<in> set (drop (n - 1) bs)"
        using 2 Some p by blast
      ultimately show ?thesis
        using Some p \<open>x < 128\<close> False set_drop_take [of bs "n - 1"] by fastforce
    qed
  qed
qed

lemma runes_of_bytes_all_ascii:
  "(\<forall>b \<in> set bs. b < 128) \<Longrightarrow> runes_of_bytes bs = bs"
  by (induction bs) (auto simp: decode_bytes_ascii)

lemma runes_of_bytes_non_ascii:
  "(\<exists>r \<in> set (runes_of_bytes bs). 128 \<le> r) \<longleftrightarrow> (\<exists>b \<in> set bs. 128 \<le> b)"
proof (induction bs rule: runes_of_bytes.induct)
  case 1
  then show ?case by simp
next
  case (2 b bs)
  show ?case
  proof (cases "b < 128")
    case True
    then have "decode_bytes (b # bs) = Some (b, 1)" by simp
    with 2 have "(\<exists>r \<in> set (runes_of_bytes bs). 128 \<le> r) \<longleftrightarrow> (\<exists>b \<in> set bs. 128 \<le> b)"
      by fastforce
    with True show ?thesis by auto
  next
    case False
    then show ?thesis
      using decode_bytes_multi [OF False, of bs] by (auto split: option.splits)
  qed
qed

lemma runes_all_iff:
  assumes "\<And>x. P x \<Longrightarrow> x < 128"
  shows "(\<forall>r \<in> set (runes s). P r) \<longleftrightarrow> (\<forall>c \<in> set s. P (byte_of c))"
proof -
  have "(\<forall>r \<in> set (runes_of_bytes bs). P r) \<longleftrightarrow> (\<forall>b \<in> set bs. P b)" for bs
    using runes_of_bytes_non_ascii [of bs] runes_of_bytes_all_ascii [of bs] assms
    by (metis not_le)
  then show ?thesis by (simp add: runes_def)
qed

lemma runes_ex_ascii_iff:
  assumes "\<And>x. P x \<Longrightarrow> x < 128"
  shows "(\<exists>r \<in> set (runes s). P r) \<longleftrightarrow> (\<exists>c \<in> set s. P (byte_of c))"
  using assms runes_of_bytes_ascii [of _ "map byte_of s"] by (auto simp: runes_def)

lemma byte_of_less [simp]: "byte_of c < 256"
  by (simp add: byte_of_def)

lemma byte_of_inject [simp]: "byte_of c = byte_of d \<longleftrightarrow> c = d"
  by (simp add: byte_of_def)

subsection \<open>UUID byte order\<close>

lemma length_be_bytes [simp]: "length (be_bytes n x) = n"
  by (induction n arbitrary: x) auto

lemma be_value_snoc: "be_value (bs @ [b]) = be_value bs * 256 + unat b"
  by (simp add: be_value_def)

lemma be_value_be_bytes: "be_value (be_bytes n x) = x mod 256 ^ n"
proof (induction n arbitrary: x)
  case 0
  then show ?case by (simp add: be_value_def)
next
  case (Suc n)
  have "unat (word_of_nat (x mod 256) :: byte) = x mod 256"
    by (simp add: unat_of_nat)
  moreover have "x mod 256 ^ Suc n = (x div 256) mod 256 ^ n * 256 + x mod 256"
    by (metis mod_mult2_eq mult.commute power_Suc)
  ultimately show ?case by (simp add: be_value_snoc Suc)
qed

lemma be_bytes_div: "be_bytes n x = map (\<lambda>i. word_of_nat (x div 256 ^ i)) (rev [0..<n])"
proof (induction n arbitrary: x)
  case 0
  then show ?case by simp
next
  case (Suc n)
  have "rev [0..<Suc n] = map Suc (rev [0..<n]) @ [0]"
    by (simp add: upt_conv_Cons rev_map flip: map_Suc_upt del: upt_Suc)
  moreover have "(word_of_nat (x mod 256) :: byte) = word_of_nat x"
    by (rule word_unat_eq_iff [THEN iffD2]) (simp add: unat_of_nat)
  ultimately show ?case by (simp add: Suc div_mult2_eq del: upt_Suc)
qed

text \<open>The bytes of a UUID by shifts, for evaluation.\<close>

lemma uuid_bytes_code [code]:
  "uuid_bytes u = map (\<lambda>i. ucast (drop_bit (8 * i) (uuid_word u))) (rev [0..<16])"
proof -
  have shift: "unat (drop_bit (8 * i) w) = unat w div 256 ^ i" for i and w :: "128 word"
    unfolding unat_drop_bit_eq by (simp add: drop_bit_eq_div power_mult)
  have "(word_of_nat (unat w div 256 ^ i) :: byte) = ucast (drop_bit (8 * i) w)" for i and w :: "128 word"
    by (rule word_unat_eq_iff [THEN iffD2])
      (simp only: unat_of_nat unsigned_ucast_eq shift take_bit_eq_mod)
  then show ?thesis by (simp add: uuid_bytes_def be_bytes_div)
qed

lemma be_value_uuid_bytes [simp]: "be_value (uuid_bytes u) = unat (uuid_word u)"
  using unsigned_less [where ?'a = nat, of "uuid_word u"]
  by (simp add: uuid_bytes_def be_value_be_bytes)

lemma be_value_foldl:
  "foldl (\<lambda>acc b. acc * 256 + unat b) a bs = a * 256 ^ length bs + be_value bs"
proof (induction bs rule: rev_induct)
  case Nil
  then show ?case by (simp add: be_value_def)
next
  case (snoc b bs)
  then show ?case by (simp add: be_value_snoc algebra_simps)
qed

lemma be_value_Cons: "be_value (b # bs) = unat b * 256 ^ length bs + be_value bs"
  using be_value_foldl [of "unat b" bs] by (simp add: be_value_def)

lemma be_value_less: "be_value bs < 256 ^ length bs"
proof (induction bs)
  case Nil
  then show ?case by (simp add: be_value_def)
next
  case (Cons b bs)
  have "unat b \<le> 255" using unsigned_less [where ?'a = nat, of b] by simp
  then have "unat b * 256 ^ length bs \<le> 255 * 256 ^ length bs" by simp
  with Cons have "be_value (b # bs) < 255 * 256 ^ length bs + 256 ^ length bs"
    by (simp only: be_value_Cons add_le_less_mono)
  then show ?case by simp
qed

lemma be_value_Cons_less:
  assumes "unat a < unat b" and "length as = length bs"
  shows "be_value (a # as) < be_value (b # bs)"
proof -
  have "be_value (a # as) < (unat a + 1) * 256 ^ length bs"
    using be_value_less [of as] assms(2) by (simp add: be_value_Cons)
  also have "\<dots> \<le> unat b * 256 ^ length bs"
    using assms(1) by (intro mult_right_mono) auto
  finally show ?thesis by (simp add: be_value_Cons)
qed

lemma bytes_compare_value:
  "length as = length bs \<Longrightarrow>
     bytes_compare as bs = (if be_value as < be_value bs then -1
                            else if be_value bs < be_value as then 1 else 0)"
proof (induction as bs rule: list_induct2)
  case Nil
  then show ?case by simp
next
  case (Cons a as b bs)
  then show ?case
    using be_value_Cons_less [of a b as bs] be_value_Cons_less [of b a bs as]
    by (auto simp: word_less_nat_alt be_value_Cons word_unat_eq_iff not_less
        intro: order_antisym)
qed

lemma length_uuid_bytes [simp]: "length (uuid_bytes u) = 16"
  by (simp add: uuid_bytes_def)

lemma bytes_compare_uuid:
  "bytes_compare (uuid_bytes a) (uuid_bytes b) =
     (if uuid_word a < uuid_word b then -1 else if uuid_word b < uuid_word a then 1 else 0)"
  by (simp add: bytes_compare_value word_less_nat_alt)

instantiation uuid :: linorder
begin

definition less_eq_uuid :: "uuid \<Rightarrow> uuid \<Rightarrow> bool" where
  "less_eq_uuid a b \<longleftrightarrow> bytes_compare (uuid_bytes a) (uuid_bytes b) \<le> 0"

definition less_uuid :: "uuid \<Rightarrow> uuid \<Rightarrow> bool" where
  "less_uuid a b \<longleftrightarrow> bytes_compare (uuid_bytes a) (uuid_bytes b) < 0"

instance
proof
qed (auto simp: less_eq_uuid_def less_uuid_def bytes_compare_uuid
    intro: uuid.expand split: if_splits)

end

lemma uuid_le_iff: "a \<le> b \<longleftrightarrow> uuid_word a \<le> uuid_word b"
  by (auto simp: less_eq_uuid_def bytes_compare_uuid)

subsection \<open>Errors\<close>

lemma first_some_None [simp]: "first_some xs = None \<longleftrightarrow> (\<forall>x \<in> set xs. x = None)"
  by (induction xs rule: first_some.induct) auto

lemma sort_key_Nil_iff [simp]: "sort_key f xs = [] \<longleftrightarrow> xs = []"
  by (metis length_0_conv length_sort)

lemma errors_as_pg_wrap [simp]: "errors_as_pg (Errorf f as [e]) = errors_as_pg e"
  by (cases "errors_as_pg e") auto

lemma errors_is_wrap [simp]: "errors_is (Errorf f as [e]) t = errors_is e t"
  by simp

subsection \<open>Lists and tables\<close>

lemma find_Some_iff_distinct:
  "distinct (map f xs) \<Longrightarrow> find (\<lambda>x. f x = k) xs = Some x \<longleftrightarrow> x \<in> set xs \<and> f x = k"
  by (induction xs) (auto simp: image_iff)

lemma find_SomeD: "find P xs = Some x \<Longrightarrow> x \<in> set xs \<and> P x"
  by (induction xs) (auto split: if_splits)

lemma find_append [simp]:
  "find P (xs @ ys) = (case find P xs of None \<Rightarrow> find P ys | Some x \<Rightarrow> Some x)"
  by (induction xs) auto

lemma filter_key_distinct:
  "distinct (map f xs) \<Longrightarrow> filter (\<lambda>x. f x = k) xs = (case find (\<lambda>x. f x = k) xs of None \<Rightarrow> [] | Some x \<Rightarrow> [x])"
  by (induction xs) (force simp: filter_empty_conv image_iff split: option.splits dest: find_SomeD)+

lemma find_map: "find P (map f xs) = map_option f (find (P \<circ> f) xs)"
  by (induction xs) auto

lemma sum_list_key:
  fixes v :: int
  shows "distinct (map f xs) \<Longrightarrow>
     sum_list (map (\<lambda>x. if f x = k then v else 0) xs) = (if k \<in> f ` set xs then v else 0)"
  by (induction xs) auto

end
