(* ===== verification/Money.thy ===== *)
theory Money
  imports Prelude
begin

text \<open>
  Package money (\<^verbatim>\<open>src/internal/money/money.go\<close>): currency codes.  \<open>Currency_Validate\<close>
  returns the error the method returns, \<open>None\<close> for nil.  The lemmas give the accepted
  strings in the form the CHECK constraints of the schema state them.
\<close>

type_synonym Currency = string

definition Currency_Validate :: "Currency \<Rightarrow> go_error option" where
  "Currency_Validate c =
     (if length c \<noteq> 3 then
        Some (Errorf ''%w: %q must be exactly 3 characters'' [AStr c] [Sentinel money_ErrInvalidCurrency])
      else if list_ex (\<lambda>r. r < 65 \<or> r > 90) (runes c) then
        Some (Errorf ''%w: %q must be upper-case ASCII letters'' [AStr c] [Sentinel money_ErrInvalidCurrency])
      else None)"

definition ParseCurrency :: "string \<Rightarrow> Currency result" where
  "ParseCurrency s =
     (case Currency_Validate s of Some err \<Rightarrow> Inl err | None \<Rightarrow> Inr s)"

definition Currency_String :: "Currency \<Rightarrow> string" where
  "Currency_String c = c"

text \<open>The constraint \<^verbatim>\<open>CHECK (currency ~ '^[A-Z]{3}$')\<close> of the three tables.\<close>

definition currency_format :: "string \<Rightarrow> bool" where
  "currency_format c \<longleftrightarrow> length c = 3 \<and> list_all (\<lambda>ch. byte_of CHR ''A'' \<le> byte_of ch \<and> byte_of ch \<le> byte_of CHR ''Z'') c"

lemma byte_of_A_Z [simp]: "byte_of CHR ''A'' = 65" "byte_of CHR ''Z'' = 90"
  by (simp_all add: byte_of_def)

lemma Currency_Validate_None: "Currency_Validate c = None \<longleftrightarrow> currency_format c"
proof -
  have "\<not> list_ex (\<lambda>r. r < 65 \<or> r > 90) (runes c) \<longleftrightarrow> (\<forall>r \<in> set (runes c). 65 \<le> r \<and> r \<le> 90)"
    by (auto simp: list_ex_iff not_less)
  also have "\<dots> \<longleftrightarrow> (\<forall>ch \<in> set c. 65 \<le> byte_of ch \<and> byte_of ch \<le> 90)"
    by (rule runes_all_iff) simp
  finally show ?thesis
    unfolding Currency_Validate_def currency_format_def
    by (auto simp: list_all_iff)
qed

lemma Currency_Validate_error:
  "Currency_Validate c = Some err \<Longrightarrow> errors_is err money_ErrInvalidCurrency \<and> errors_as_pg err = None"
  by (auto simp: Currency_Validate_def split: if_splits)

text \<open>C23: parsing accepts exactly the strings of the CHECK constraint and returns them
  unchanged; every rejection is an \<^verbatim>\<open>ErrInvalidCurrency\<close>.\<close>

theorem ParseCurrency_spec:
  "(case ParseCurrency s of
      Inr c \<Rightarrow> c = s \<and> currency_format s
    | Inl err \<Rightarrow> \<not> currency_format s \<and> errors_is err money_ErrInvalidCurrency)"
proof (cases "Currency_Validate s")
  case None
  then have "currency_format s" by (simp add: Currency_Validate_None)
  with None show ?thesis by (simp add: ParseCurrency_def)
next
  case (Some err)
  then have "\<not> currency_format s" using Currency_Validate_None [of s] by simp
  with Some Currency_Validate_error [OF Some] show ?thesis by (simp add: ParseCurrency_def)
qed

end
