(* ===== verification/Schema.thy ===== *)
theory Schema
  imports Money
begin

text \<open>
  The PostgreSQL side of the ledger: the rows of the three tables, with the Go structs that
  scan them, and the SQL statements of the program with the constraints and triggers of
  \<^verbatim>\<open>src/migrations\<close>.  A table is the list of its rows in insertion order.  A statement
  inside a transaction maps a transaction state to an error or a new state; a violated
  constraint is the \<^verbatim>\<open>PgError\<close> with the SQLSTATE and constraint name PostgreSQL reports.
  CHECK constraints are tested first (in alphabetical order of their names), then unique
  indexes, then foreign keys; the constraint triggers of migration 000004 are queued and run
  at COMMIT.  Arithmetic on \<^verbatim>\<open>BIGINT\<close> raises 22003 when it leaves the range.
\<close>

section \<open>Rows\<close>

record Account =
  a_ID :: uuid
  a_Currency :: Currency
  a_BalanceMinor :: int
  a_CreatedAt :: int
  a_UpdatedAt :: int

text \<open>The Go type \<^verbatim>\<open>Status\<close> is a string with three named values.\<close>

datatype Status = StatusPending | StatusCompleted | StatusFailed | StatusOther string

record Transfer =
  t_ID :: uuid
  t_SourceAccountID :: uuid
  t_DestinationAccountID :: uuid
  t_AmountMinor :: int
  t_Currency :: Currency
  t_Status :: Status
  t_CreatedAt :: int
  t_CompletedAt :: "int option"

text \<open>A row of the transfers table: the columns of the struct and the two of migration 000005.\<close>

record transfer_row = Transfer +
  t_idempotency_key :: "string option"
  t_request_fingerprint :: "byte list option"

record Entry =
  e_ID :: uuid
  e_TransferID :: uuid
  e_AccountID :: uuid
  e_AmountMinor :: int
  e_Currency :: Currency
  e_CreatedAt :: int

record db =
  accounts :: "Account list"
  transfers :: "transfer_row list"
  ledger_entries :: "Entry list"

definition empty_db :: db where
  "empty_db = \<lparr>accounts = [], transfers = [], ledger_entries = []\<rparr>"

text \<open>A queued deferred constraint trigger: the transfer it concerns and, for the trigger on
  transfers, the status of the row version that queued it.\<close>

datatype deferred = EntryInserted uuid | TransferWritten uuid Status

record tx =
  tx_db :: db
  tx_deferred :: "deferred list"

definition begin_tx :: "db \<Rightarrow> tx" where
  "begin_tx d = \<lparr>tx_db = d, tx_deferred = []\<rparr>"

text \<open>How a statement outside an explicit transaction, or a COMMIT, can end besides
  normally: it fails, or it takes effect and the client sees an error all the same because the
  connection broke before the acknowledgement arrived.\<close>

datatype fault = NoFault | Fault go_error | LostAck go_error

section \<open>Constraints\<close>

definition check_account :: "Account \<Rightarrow> go_error option" where
  "check_account a =
     (if a_BalanceMinor a < 0 then Some (PgError ''23514'' ''accounts_balance_non_negative'')
      else if \<not> currency_format (a_Currency a) then Some (PgError ''23514'' ''accounts_currency_format'')
      else None)"

definition check_transfer :: "transfer_row \<Rightarrow> go_error option" where
  "check_transfer t =
     (if t_AmountMinor t \<le> 0 then Some (PgError ''23514'' ''transfers_amount_positive'')
      else if (t_Status t = StatusCompleted) \<noteq> (t_CompletedAt t \<noteq> None) then
        Some (PgError ''23514'' ''transfers_completed_at_matches_status'')
      else if \<not> currency_format (t_Currency t) then
        Some (PgError ''23514'' ''transfers_currency_format'')
      else if t_SourceAccountID t = t_DestinationAccountID t then
        Some (PgError ''23514'' ''transfers_distinct_accounts'')
      else if (case t_idempotency_key t of None \<Rightarrow> False
               | Some k \<Rightarrow> length (runes k) < 1 \<or> 255 < length (runes k)) then
        Some (PgError ''23514'' ''transfers_idempotency_key_length'')
      else if (t_idempotency_key t = None) \<noteq> (t_request_fingerprint t = None) then
        Some (PgError ''23514'' ''transfers_idempotency_pairing'')
      else if (case t_request_fingerprint t of None \<Rightarrow> False | Some f \<Rightarrow> length f \<noteq> 32) then
        Some (PgError ''23514'' ''transfers_request_fingerprint_length'')
      else if t_Status t \<notin> {StatusPending, StatusCompleted, StatusFailed} then
        Some (PgError ''23514'' ''transfers_status_valid'')
      else None)"

definition check_entry :: "Entry \<Rightarrow> go_error option" where
  "check_entry e =
     (if e_AmountMinor e = 0 then Some (PgError ''23514'' ''ledger_entries_amount_non_zero'')
      else if \<not> currency_format (e_Currency e) then
        Some (PgError ''23514'' ''ledger_entries_currency_format'')
      else None)"

section \<open>Statements\<close>

definition sql_select_account :: "uuid \<Rightarrow> db \<Rightarrow> Account option" where
  "sql_select_account i d = find (\<lambda>a. a_ID a = i) (accounts d)"

definition sql_insert_account :: "Account \<Rightarrow> db \<Rightarrow> db result" where
  "sql_insert_account a d =
     (case check_account a of
        Some err \<Rightarrow> Inl err
      | None \<Rightarrow>
          if a_ID a \<in> set (map a_ID (accounts d)) then Inl (PgError ''23505'' ''accounts_pkey'')
          else Inr (d\<lparr>accounts := accounts d @ [a]\<rparr>))"

text \<open>\<^verbatim>\<open>UPDATE accounts SET balance_minor = balance_minor + delta WHERE P\<close>: the number
  of rows affected and the new state.  The trigger \<open>accounts_set_updated_at\<close> stamps the rows.\<close>

definition update_balance_row :: "int \<Rightarrow> int \<Rightarrow> Account \<Rightarrow> Account" where
  "update_balance_row delta now a =
     a\<lparr>a_BalanceMinor := a_BalanceMinor a + delta, a_UpdatedAt := now\<rparr>"

definition update_balance_error :: "int \<Rightarrow> int \<Rightarrow> Account \<Rightarrow> go_error option" where
  "update_balance_error delta now a =
     (if \<not> in_int64 (a_BalanceMinor a + delta) then Some (PgError ''22003'' '''')
      else check_account (update_balance_row delta now a))"

definition sql_update_balances ::
  "(Account \<Rightarrow> bool) \<Rightarrow> int \<Rightarrow> int \<Rightarrow> tx \<Rightarrow> (nat \<times> tx) result" where
  "sql_update_balances P delta now tx =
     (let rows = filter P (accounts (tx_db tx)) in
      case first_some (map (update_balance_error delta now) rows) of
        Some err \<Rightarrow> Inl err
      | None \<Rightarrow> Inr (length rows,
          tx\<lparr>tx_db := (tx_db tx)\<lparr>accounts :=
             map (\<lambda>a. if P a then update_balance_row delta now a else a) (accounts (tx_db tx))\<rparr>\<rparr>))"

definition sql_insert_transfer :: "transfer_row \<Rightarrow> tx \<Rightarrow> tx result" where
  "sql_insert_transfer t tx =
     (let d = tx_db tx; ids = map a_ID (accounts d) in
      case check_transfer t of
        Some err \<Rightarrow> Inl err
      | None \<Rightarrow>
          if t_ID t \<in> set (map t_ID (transfers d)) then
            Inl (PgError ''23505'' ''transfers_pkey'')
          else if t_idempotency_key t \<noteq> None
            \<and> t_idempotency_key t \<in> set (map t_idempotency_key (transfers d)) then
            Inl (PgError ''23505'' ''transfers_idempotency_key_unique'')
          else if t_SourceAccountID t \<notin> set ids then
            Inl (PgError ''23503'' ''transfers_source_account_id_fkey'')
          else if t_DestinationAccountID t \<notin> set ids then
            Inl (PgError ''23503'' ''transfers_destination_account_id_fkey'')
          else Inr \<lparr>tx_db = d\<lparr>transfers := transfers d @ [t]\<rparr>,
                    tx_deferred = tx_deferred tx @ [TransferWritten (t_ID t) (t_Status t)]\<rparr>)"

definition insert_entry_row :: "Entry \<Rightarrow> tx \<Rightarrow> tx result" where
  "insert_entry_row e tx =
     (let d = tx_db tx in
      case check_entry e of
        Some err \<Rightarrow> Inl err
      | None \<Rightarrow>
          if e_ID e \<in> set (map e_ID (ledger_entries d)) then
            Inl (PgError ''23505'' ''ledger_entries_pkey'')
          else if (e_TransferID e, e_AccountID e)
                    \<in> set (map (\<lambda>x. (e_TransferID x, e_AccountID x)) (ledger_entries d)) then
            Inl (PgError ''23505'' ''ledger_entries_one_leg_per_account'')
          else Inr \<lparr>tx_db = d\<lparr>ledger_entries := ledger_entries d @ [e]\<rparr>,
                    tx_deferred = tx_deferred tx @ [EntryInserted (e_TransferID e)]\<rparr>)"

fun insert_entry_rows :: "Entry list \<Rightarrow> tx \<Rightarrow> tx result" where
  "insert_entry_rows [] tx = Inr tx"
| "insert_entry_rows (e # es) tx =
     (case insert_entry_row e tx of Inl err \<Rightarrow> Inl err | Inr tx' \<Rightarrow> insert_entry_rows es tx')"

definition entry_fk_error :: "db \<Rightarrow> Entry \<Rightarrow> go_error option" where
  "entry_fk_error d e =
     (if e_TransferID e \<notin> set (map t_ID (transfers d)) then
        Some (PgError ''23503'' ''ledger_entries_transfer_id_fkey'')
      else if e_AccountID e \<notin> set (map a_ID (accounts d)) then
        Some (PgError ''23503'' ''ledger_entries_account_id_fkey'')
      else None)"

text \<open>One INSERT of several rows: the foreign keys are checked when the statement ends.\<close>

definition sql_insert_entries :: "Entry list \<Rightarrow> tx \<Rightarrow> tx result" where
  "sql_insert_entries es tx =
     (case insert_entry_rows es tx of
        Inl err \<Rightarrow> Inl err
      | Inr tx' \<Rightarrow>
          (case first_some (map (entry_fk_error (tx_db tx')) es) of
             Some err \<Rightarrow> Inl err | None \<Rightarrow> Inr tx'))"

definition entries_of :: "uuid \<Rightarrow> db \<Rightarrow> Entry list" where
  "entries_of tid d = filter (\<lambda>e. e_TransferID e = tid) (ledger_entries d)"

definition sum_amounts :: "Entry list \<Rightarrow> int" where
  "sum_amounts es = sum_list (map e_AmountMinor es)"

text \<open>\<^verbatim>\<open>UPDATE transfers SET status = 'completed', completed_at = now() WHERE id = i AND
  status = 'pending' RETURNING status, completed_at\<close>.  The row trigger
  \<open>transfers_completed_are_immutable\<close> raises 23001 for a row that is already completed.\<close>

definition complete_row :: "int \<Rightarrow> transfer_row \<Rightarrow> transfer_row" where
  "complete_row now t = t\<lparr>t_Status := StatusCompleted, t_CompletedAt := Some now\<rparr>"

definition complete_error :: "int \<Rightarrow> transfer_row \<Rightarrow> go_error option" where
  "complete_error now t =
     (if t_Status t = StatusCompleted then Some (PgError ''23001'' '''')
      else check_transfer (complete_row now t))"

definition sql_complete_transfer :: "uuid \<Rightarrow> int \<Rightarrow> tx \<Rightarrow> ((Status \<times> int) \<times> tx) result" where
  "sql_complete_transfer i now tx =
     (let d = tx_db tx; P = (\<lambda>t. t_ID t = i \<and> t_Status t = StatusPending);
          rows = filter P (transfers d) in
      case first_some (map (complete_error now) rows) of
        Some err \<Rightarrow> Inl err
      | None \<Rightarrow>
          (case rows of
             [] \<Rightarrow> Inl (Sentinel pgx_ErrNoRows)
           | _ \<Rightarrow> Inr ((StatusCompleted, now),
               \<lparr>tx_db = d\<lparr>transfers := map (\<lambda>t. if P t then complete_row now t else t) (transfers d)\<rparr>,
                tx_deferred = tx_deferred tx @ map (\<lambda>t. TransferWritten (t_ID t) StatusCompleted) rows\<rparr>)))"

section \<open>Deferred triggers and COMMIT\<close>

definition assert_transfer_balanced :: "db \<Rightarrow> uuid \<Rightarrow> go_error option" where
  "assert_transfer_balanced d tid =
     (case find (\<lambda>t. t_ID t = tid) (transfers d) of
        None \<Rightarrow> None
      | Some t \<Rightarrow>
          let es = entries_of tid d;
              wrong = filter (\<lambda>e. e_Currency e \<noteq> t_Currency t) es in
          if \<not> in_int64 (sum_amounts es) then Some (PgError ''22003'' '''')
          else if t_Status t = StatusCompleted \<and> es = [] then Some (PgError ''23000'' '''')
          else if es = [] then None
          else if sum_amounts es \<noteq> 0 then Some (PgError ''23000'' '''')
          else if wrong \<noteq> [] then Some (PgError ''23000'' '''')
          else None)"

fun run_deferred :: "db \<Rightarrow> deferred \<Rightarrow> go_error option" where
  "run_deferred d (EntryInserted tid) = assert_transfer_balanced d tid"
| "run_deferred d (TransferWritten tid st) =
     (if st = StatusCompleted then assert_transfer_balanced d tid else None)"

definition commit_tx :: "tx \<Rightarrow> db result" where
  "commit_tx tx =
     (case first_some (map (run_deferred (tx_db tx)) (tx_deferred tx)) of
        Some err \<Rightarrow> Inl err
      | None \<Rightarrow> Inr (tx_db tx))"

end
