(* ===== verification/Retry.thy ===== *)
theory Retry
  imports Prelude
begin

text \<open>
  The bounded retry of \<^verbatim>\<open>src/internal/transfer/retry.go\<close> and the loop of
  \<^verbatim>\<open>postWithRetry\<close> in \<^verbatim>\<open>transfer.go\<close>.  Durations are nanoseconds in 64-bit
  arithmetic.  \<^verbatim>\<open>rand.Int64N\<close> is the argument \<open>int64N\<close>, and \<open>cancelled d\<close> is the
  error of a context that is done before \<open>d\<close> nanoseconds have passed.
\<close>

section \<open>Policy and backoff\<close>

record RetryPolicy =
  MaxAttempts :: int
  BaseDelay :: int
  MaxDelay :: int

definition DefaultRetryPolicy :: RetryPolicy where
  "DefaultRetryPolicy = \<lparr>MaxAttempts = 20, BaseDelay = 1000000, MaxDelay = 100 * 1000000\<rparr>"

text \<open>The doubling loop: \<^verbatim>\<open>for range attempt - 1\<close>.\<close>

fun delay_loop :: "int \<Rightarrow> nat \<Rightarrow> int \<Rightarrow> int" where
  "delay_loop max_delay 0 ceiling = ceiling"
| "delay_loop max_delay (Suc n) ceiling =
     (let c = wrap64 (ceiling * 2) in
      if c \<ge> max_delay then max_delay else delay_loop max_delay n c)"

definition delay_ceiling :: "RetryPolicy \<Rightarrow> int \<Rightarrow> int" where
  "delay_ceiling p attempt =
     (let attempt = (if attempt < 1 then 1 else attempt);
          ceiling = delay_loop (MaxDelay p) (nat (attempt - 1)) (BaseDelay p) in
      if ceiling > MaxDelay p then MaxDelay p else ceiling)"

definition delay :: "RetryPolicy \<Rightarrow> (int \<Rightarrow> int) \<Rightarrow> int \<Rightarrow> int" where
  "delay p int64N attempt =
     (let ceiling = delay_ceiling p attempt in
      if ceiling \<le> 0 then 0 else int64N (wrap64 (ceiling + 1)))"

text \<open>\<^verbatim>\<open>rand.Int64N(n)\<close> panics for \<open>n \<le> 0\<close>.\<close>

definition delay_panics :: "RetryPolicy \<Rightarrow> int \<Rightarrow> bool" where
  "delay_panics p attempt \<longleftrightarrow>
     delay_ceiling p attempt > 0 \<and> wrap64 (delay_ceiling p attempt + 1) \<le> 0"

definition wait :: "RetryPolicy \<Rightarrow> (int \<Rightarrow> int) \<Rightarrow> (int \<Rightarrow> go_error option) \<Rightarrow> int \<Rightarrow> go_error option" where
  "wait p int64N cancelled attempt =
     (let d = delay p int64N attempt in
      if d \<le> 0 then cancelled 0 else cancelled d)"

section \<open>Classification and counting\<close>

definition retryableCode :: "go_error \<Rightarrow> string \<times> bool" where
  "retryableCode err =
     (case errors_as_pg err of
        None \<Rightarrow> ('''', False)
      | Some (code, _) \<Rightarrow> (code, code = ''40001'' \<or> code = ''40P01''))"

record Attempts =
  at_Total :: int
  at_SerializationFailures :: int
  at_Deadlocks :: int

definition no_attempts :: Attempts where
  "no_attempts = \<lparr>at_Total = 0, at_SerializationFailures = 0, at_Deadlocks = 0\<rparr>"

definition Attempts_Retries :: "Attempts \<Rightarrow> int" where
  "Attempts_Retries a = (if at_Total a \<le> 1 then 0 else at_Total a - 1)"

definition Attempts_record :: "string \<Rightarrow> Attempts \<Rightarrow> Attempts" where
  "Attempts_record code a =
     (if code = ''40001'' then a\<lparr>at_SerializationFailures := at_SerializationFailures a + 1\<rparr>
      else if code = ''40P01'' then a\<lparr>at_Deadlocks := at_Deadlocks a + 1\<rparr>
      else a)"

section \<open>The loop\<close>

text \<open>\<open>once n s\<close> is attempt \<open>n\<close> from state \<open>s\<close>; \<open>wt n\<close> is what \<^verbatim>\<open>wait(ctx, n)\<close>
  returns.\<close>

function retry_loop ::
  "RetryPolicy \<Rightarrow> (int \<Rightarrow> 's \<Rightarrow> 'a result \<times> 's) \<Rightarrow> (int \<Rightarrow> go_error option) \<Rightarrow>
   int \<Rightarrow> Attempts \<Rightarrow> 's \<Rightarrow> 'a result \<times> Attempts \<times> 's" where
  "retry_loop p once wt attempt attempts s =
     (let a = attempts\<lparr>at_Total := attempt\<rparr> in
      case once attempt s of
        (Inr posted, s') \<Rightarrow> (Inr posted, a, s')
      | (Inl err, s') \<Rightarrow>
          (case retryableCode err of (code, retryable) \<Rightarrow>
             if \<not> retryable then (Inl err, a, s')
             else let a' = Attempts_record code a in
               if attempt \<ge> MaxAttempts p then
                 (Inl (Errorf ''%w after %d attempts (last SQLSTATE %s): %w''
                         [AInt attempt, AStr code]
                         [Sentinel transfer_ErrRetriesExhausted, err]), a', s')
               else (case wt attempt of
                       Some e \<Rightarrow>
                         (Inl (Errorf ''transfer: retry cancelled after %d attempts: %w''
                                 [AInt attempt] [e]), a', s')
                     | None \<Rightarrow> retry_loop p once wt (attempt + 1) a' s')))"
  by pat_completeness auto
termination
  by (relation "measure (\<lambda>(p, once, wt, attempt, attempts, s). nat (MaxAttempts p - attempt))") auto

declare retry_loop.simps [simp del]

section \<open>Facts about the backoff\<close>

lemma wrap64_double: "0 \<le> c \<Longrightarrow> c < 2 ^ 62 \<Longrightarrow> wrap64 (c * 2) = c * 2"
  by (rule wrap64_id) (simp add: in_int64_def)

lemma delay_loop_eq:
  "0 \<le> c \<Longrightarrow> c < 2 ^ 62 \<Longrightarrow> 0 \<le> m \<Longrightarrow> m \<le> 2 ^ 62 \<Longrightarrow>
     delay_loop m n c = (if n = 0 then c else min (c * 2 ^ n) m)"
proof (induction n arbitrary: c)
  case 0
  then show ?case by simp
next
  case (Suc n)
  show ?case
  proof (cases "m \<le> c * 2")
    case True
    have "c * 2 * 1 \<le> c * 2 * 2 ^ n"
      using Suc.prems(1) by (intro mult_left_mono) auto
    with True Suc.prems show ?thesis by (simp add: wrap64_double min_def)
  next
    case False
    with Suc show ?thesis by (auto simp: wrap64_double min_def Let_def)
  qed
qed

definition sane_policy :: "RetryPolicy \<Rightarrow> bool" where
  "sane_policy p \<longleftrightarrow> 0 \<le> BaseDelay p \<and> BaseDelay p < 2 ^ 62 \<and> 0 \<le> MaxDelay p \<and> MaxDelay p \<le> 2 ^ 62"

lemma delay_ceiling_eq:
  assumes "sane_policy p"
  shows "delay_ceiling p attempt = min (BaseDelay p * 2 ^ nat (attempt - 1)) (MaxDelay p)"
  using assms
  by (auto simp: sane_policy_def delay_ceiling_def delay_loop_eq min_def Let_def)

lemma delay_bounds:
  assumes "sane_policy p" and "\<And>n. 0 < n \<Longrightarrow> 0 \<le> int64N n \<and> int64N n < n"
  shows "0 \<le> delay p int64N attempt \<and> delay p int64N attempt \<le> delay_ceiling p attempt"
proof (cases "delay_ceiling p attempt \<le> 0")
  case True
  moreover have "0 \<le> delay_ceiling p attempt"
    using assms(1) by (simp add: delay_ceiling_eq sane_policy_def)
  ultimately show ?thesis by (simp add: delay_def)
next
  case False
  have "delay_ceiling p attempt \<le> 2 ^ 62"
    using assms(1) by (simp add: delay_ceiling_eq sane_policy_def min_def)
  then have "wrap64 (delay_ceiling p attempt + 1) = delay_ceiling p attempt + 1"
    using False by (intro wrap64_id) (simp add: in_int64_def)
  with False assms(2) [of "delay_ceiling p attempt + 1"] show ?thesis
    by (simp add: delay_def Let_def)
qed

lemma sane_policy_no_panic: "sane_policy p \<Longrightarrow> \<not> delay_panics p attempt"
proof -
  assume p: "sane_policy p"
  have "delay_ceiling p attempt \<le> 2 ^ 62"
    using p by (simp add: delay_ceiling_eq sane_policy_def min_def)
  moreover have "0 \<le> delay_ceiling p attempt"
    using p by (simp add: delay_ceiling_eq sane_policy_def)
  ultimately have "wrap64 (delay_ceiling p attempt + 1) = delay_ceiling p attempt + 1"
    by (intro wrap64_id) (simp add: in_int64_def)
  then show ?thesis by (simp add: delay_panics_def)
qed

section \<open>Facts about the loop\<close>

abbreviation retryable :: "go_error \<Rightarrow> bool" where
  "retryable err \<equiv> snd (retryableCode err)"

text \<open>One turn of the loop, by the outcome of the attempt.\<close>

lemma retry_loop_ok:
  "once n s = (Inr x, s') \<Longrightarrow> retry_loop p once wt n a s = (Inr x, a\<lparr>at_Total := n\<rparr>, s')"
  by (simp add: retry_loop.simps [of p once])

lemma retry_loop_reject:
  "once n s = (Inl err, s') \<Longrightarrow> \<not> retryable err \<Longrightarrow>
     retry_loop p once wt n a s = (Inl err, a\<lparr>at_Total := n\<rparr>, s')"
  by (simp add: retry_loop.simps [of p once wt n] split_beta Let_def)

lemma retry_loop_retry:
  "once n s = (Inl err, s') \<Longrightarrow> retryable err \<Longrightarrow>
     retry_loop p once wt n a s =
       (let code = fst (retryableCode err); a' = Attempts_record code (a\<lparr>at_Total := n\<rparr>) in
        if MaxAttempts p \<le> n then
          (Inl (Errorf ''%w after %d attempts (last SQLSTATE %s): %w'' [AInt n, AStr code]
                  [Sentinel transfer_ErrRetriesExhausted, err]), a', s')
        else (case wt n of
                Some e \<Rightarrow> (Inl (Errorf ''transfer: retry cancelled after %d attempts: %w''
                                  [AInt n] [e]), a', s')
              | None \<Rightarrow> retry_loop p once wt (n + 1) a' s'))"
  by (simp add: retry_loop.simps [of p once wt n] split_beta Let_def)

lemma retryable_as_pg: "retryable err \<Longrightarrow> errors_as_pg err = Some (fst (retryableCode err), snd (the (errors_as_pg err)))"
  by (auto simp: retryableCode_def split: option.splits)

text \<open>What the error of a loop says about the error of its last attempt.\<close>

definition loop_error_of :: "go_error \<Rightarrow> go_error \<Rightarrow> bool" where
  "loop_error_of err err0 \<longleftrightarrow>
     err = err0 \<and> \<not> retryable err0
     \<or> retryable err0 \<and> ((\<exists>n c. err = Errorf ''%w after %d attempts (last SQLSTATE %s): %w'' [AInt n, AStr c]
                              [Sentinel transfer_ErrRetriesExhausted, err0])
         \<or> (\<exists>n e. err = Errorf ''transfer: retry cancelled after %d attempts: %w'' [AInt n] [e]))"

fun last_attempt :: "'a result \<Rightarrow> 'a result \<Rightarrow> bool" where
  "last_attempt (Inr x) r0 = (r0 = Inr x)"
| "last_attempt (Inl err) r0 = (\<exists>err0. r0 = Inl err0 \<and> loop_error_of err err0)"

text \<open>
  The contract a retried operation has to keep: a retryable failure changes the state only in
  ways the relation \<open>R\<close> allows (for a transaction, what other sessions commit meanwhile).
  Then a whole loop does what its last attempt does, after allowed changes.
\<close>

locale retried =
  fixes once :: "int \<Rightarrow> 's \<Rightarrow> 'a result \<times> 's"
    and R :: "'s \<Rightarrow> 's \<Rightarrow> bool"
  assumes R_refl: "R s s"
    and R_trans: "R s t \<Longrightarrow> R t u \<Longrightarrow> R s u"
    and once_rolls_back: "once n s = (Inl err, s') \<Longrightarrow> retryable err \<Longrightarrow> R s s'"
begin

lemma loop_last:
  "retry_loop p once wt n a s = (r, a', s') \<Longrightarrow>
     \<exists>m s0 r0. n \<le> m \<and> R s s0 \<and> once m s0 = (r0, s') \<and> last_attempt r r0"
proof (induction "nat (MaxAttempts p - n)" arbitrary: n a s rule: less_induct)
  case less
  obtain r1 s1 where o: "once n s = (r1, s1)" by (cases "once n s")
  show ?case
  proof (cases r1)
    case (Inr x)
    with less.prems o show ?thesis by (auto simp: retry_loop_ok intro!: exI [of _ n] R_refl)
  next
    case (Inl err)
    with o have o: "once n s = (Inl err, s1)" by simp
    show ?thesis
    proof (cases "retryable err \<and> n < MaxAttempts p \<and> wt n = None")
      case True
      let ?a = "Attempts_record (fst (retryableCode err)) (a\<lparr>at_Total := n\<rparr>)"
      from True o less.prems have "retry_loop p once wt (n + 1) ?a s1 = (r, a', s')"
        by (simp add: retry_loop_retry Let_def)
      with less.hyps [of "n + 1"] True obtain m s0 r0
        where "n + 1 \<le> m" "R s1 s0" "once m s0 = (r0, s')" "last_attempt r r0" by force
      moreover have "R s s1" using True o by (auto intro: once_rolls_back)
      ultimately show ?thesis by (intro exI [of _ m] exI [of _ s0] exI [of _ r0]) (auto intro: R_trans)
    next
      case False
      with o less.prems have "s' = s1 \<and> last_attempt r (Inl err)"
        by (cases "retryable err")
          (auto simp: retry_loop_reject retry_loop_retry loop_error_of_def Let_def
            split: if_splits option.splits)
      with o show ?thesis by (auto intro!: exI [of _ n] R_refl)
    qed
  qed
qed

end

text \<open>The counters: a loop started at attempt 1 makes at least one and at most
  \<open>MaxAttempts\<close> attempts (one if that is less), and every attempt but possibly the last was
  lost to one of the two retryable conditions.\<close>

definition lost_attempts :: "Attempts \<Rightarrow> int" where
  "lost_attempts a = at_SerializationFailures a + at_Deadlocks a"

lemma Attempts_record_simps [simp]:
  "at_Total (Attempts_record code a) = at_Total a"
  "retryable err \<Longrightarrow> lost_attempts (Attempts_record (fst (retryableCode err)) a) = lost_attempts a + 1"
  by (auto simp: Attempts_record_def lost_attempts_def retryableCode_def split: option.splits)

lemma lost_attempts_total [simp]: "lost_attempts (a\<lparr>at_Total := n\<rparr>) = lost_attempts a"
  by (simp add: lost_attempts_def)

lemma retry_loop_attempts:
  "retry_loop p once wt n a s = (r, a', s') \<Longrightarrow> lost_attempts a = n - 1 \<Longrightarrow>
     n \<le> at_Total a' \<and> at_Total a' \<le> max n (MaxAttempts p)
     \<and> (lost_attempts a' = at_Total a' - 1 \<or> lost_attempts a' = at_Total a' \<and> (\<exists>err. r = Inl err))"
proof (induction "nat (MaxAttempts p - n)" arbitrary: n a s rule: less_induct)
  case less
  obtain r1 s1 where o: "once n s = (r1, s1)" by (cases "once n s")
  show ?case
  proof (cases r1)
    case (Inr x)
    with less.prems o show ?thesis by (auto simp: retry_loop_ok)
  next
    case (Inl err)
    with o have o: "once n s = (Inl err, s1)" by simp
    show ?thesis
    proof (cases "retryable err \<and> n < MaxAttempts p \<and> wt n = None")
      case True
      let ?a = "Attempts_record (fst (retryableCode err)) (a\<lparr>at_Total := n\<rparr>)"
      from True o less.prems have "retry_loop p once wt (n + 1) ?a s1 = (r, a', s')"
        by (simp add: retry_loop_retry Let_def)
      with less.hyps [of "n + 1" ?a s1] less.prems True show ?thesis by force
    next
      case False
      with o less.prems show ?thesis
        by (cases "retryable err")
          (auto simp: retry_loop_reject retry_loop_retry Let_def split: if_splits option.splits)
    qed
  qed
qed

text \<open>A loop whose first attempts are all lost to retryable errors reaches the attempt that succeeds, in the
  state the lost ones left: \<open>S n\<close> is the state attempt \<open>n\<close> starts from.\<close>

lemma retry_loop_eventually:
  "(\<And>n. m \<le> n \<Longrightarrow> n < k \<Longrightarrow> (\<exists>err. once n (S n) = (Inl err, S (n + 1)) \<and> retryable err) \<and> wt n = None) \<Longrightarrow>
     m \<le> k \<Longrightarrow> k \<le> MaxAttempts p \<Longrightarrow> once k (S k) = (Inr x, s') \<Longrightarrow>
     \<exists>a'. retry_loop p once wt m a (S m) = (Inr x, a', s') \<and> at_Total a' = k"
proof (induction "nat (k - m)" arbitrary: m a)
  case 0
  then have "m = k" by simp
  with 0 show ?case by (simp add: retry_loop_ok)
next
  case (Suc j)
  then have m: "m < k" by simp
  then obtain err where err: "once m (S m) = (Inl err, S (m + 1))" "retryable err" "wt m = None" using Suc.prems(1) [of m] by auto
  let ?a = "Attempts_record (fst (retryableCode err)) (a\<lparr>at_Total := m\<rparr>)"
  have "\<exists>a'. retry_loop p once wt (m + 1) ?a (S (m + 1)) = (Inr x, a', s') \<and> at_Total a' = k"
  proof (rule Suc.hyps(1))
    show "j = nat (k - (m + 1))" using Suc.hyps(2) by simp
  qed (use Suc.prems m in auto)
  with err m Suc.prems(3) show ?case by (simp add: retry_loop_retry Let_def)
qed

end
