(* ===== verification/Transfers.thy ===== *)
theory Transfers
  imports Schema Retry
begin

text \<open>
  The double-entry posting of \<^verbatim>\<open>src/internal/transfer/transfer.go\<close>: the command and its
  validation, the canonical lock order, the body of the SERIALIZABLE transaction statement by
  statement, one attempt from BEGIN to COMMIT, and the retried operation.

  What the environment decides is in \<open>attempt_env\<close>: the committed work of other sessions
  before the attempt takes its snapshot, the error (if any) each statement meets, how COMMIT
  ends, the ids drawn by \<^verbatim>\<open>uuid.New()\<close>, the transaction's \<^verbatim>\<open>now()\<close>, and what the backoff
  after the attempt returns.  A SERIALIZABLE transaction that commits behaves as if it ran
  alone, so an attempt is a function of the database it starts from.
\<close>

section \<open>Commands\<close>

record Command =
  c_SourceAccountID :: uuid
  c_DestinationAccountID :: uuid
  c_AmountMinor :: int
  c_Currency :: Currency

definition Command_Validate :: "Command \<Rightarrow> go_error option" where
  "Command_Validate c =
     (if c_AmountMinor c \<le> 0 then
        Some (Errorf ''%w: got %d'' [AInt (c_AmountMinor c)] [Sentinel transfer_ErrInvalidAmount])
      else case Currency_Validate (c_Currency c) of
        Some err \<Rightarrow> Some err
      | None \<Rightarrow>
          if c_SourceAccountID c = c_DestinationAccountID c then
            Some (Errorf ''%w: both are %s'' [AUuid (c_SourceAccountID c)]
                    [Sentinel transfer_ErrSameAccount])
          else if c_SourceAccountID c = uuid_Nil \<or> c_DestinationAccountID c = uuid_Nil then
            Some (Errorf ''%w: account id must not be the zero uuid'' []
                    [Sentinel transfer_ErrSourceAccountNotFound])
          else None)"

text \<open>The pair persisted to arm the UNIQUE constraint; \<open>None\<close> is the nil stamp.\<close>

record idempotencyStamp =
  st_key :: string
  st_fingerprint :: "byte list"

definition keyOrNil :: "idempotencyStamp option \<Rightarrow> string option" where
  "keyOrNil s = (case s of None \<Rightarrow> None | Some st \<Rightarrow> Some (st_key st))"

definition fingerprintOrNil :: "idempotencyStamp option \<Rightarrow> byte list option" where
  "fingerprintOrNil s = (case s of None \<Rightarrow> None | Some st \<Rightarrow> Some (st_fingerprint st))"

section \<open>The environment of an attempt\<close>

datatype stmt = StmtBegin | StmtLockFirst | StmtLockSecond | StmtInsertTransfer | StmtDebit
  | StmtCredit | StmtInsertEntries | StmtAssertBalanced | StmtComplete

record attempt_env =
  ae_others :: "db \<Rightarrow> db"
  ae_fault :: "stmt \<Rightarrow> go_error option"
  ae_commit :: fault
  ae_transferID :: uuid
  ae_debitID :: uuid
  ae_creditID :: uuid
  ae_now :: int
  ae_cancelled :: "int \<Rightarrow> go_error option"
  ae_int64N :: "int \<Rightarrow> int"

section \<open>Locking\<close>

definition lockOrder :: "uuid \<Rightarrow> uuid \<Rightarrow> uuid \<times> uuid" where
  "lockOrder a b =
     (if bytes_compare (uuid_bytes a) (uuid_bytes b) \<le> 0 then (a, b) else (b, a))"

record account =
  ac_id :: uuid
  ac_currency :: Currency
  ac_balanceMinor :: int

definition lockAccount :: "go_error option \<Rightarrow> uuid \<Rightarrow> tx \<Rightarrow> account result" where
  "lockAccount flt i tx =
     (let failed = (\<lambda>err. if errors_is err pgx_ErrNoRows then Inl err
                          else Inl (Errorf ''transfer: lock account %s: %w'' [AUuid i] [err])) in
      case flt of
        Some err \<Rightarrow> failed err
      | None \<Rightarrow>
          (case sql_select_account i (tx_db tx) of
             None \<Rightarrow> failed (Sentinel pgx_ErrNoRows)
           | Some a \<Rightarrow> Inr \<lparr>ac_id = a_ID a, ac_currency = a_Currency a,
                            ac_balanceMinor = a_BalanceMinor a\<rparr>))"

definition missingAccountError :: "go_error \<Rightarrow> uuid \<Rightarrow> uuid \<Rightarrow> go_error" where
  "missingAccountError err lockedID sourceID =
     (if \<not> errors_is err pgx_ErrNoRows then err
      else if lockedID = sourceID then
        Errorf ''%w: %s'' [AUuid lockedID] [Sentinel transfer_ErrSourceAccountNotFound]
      else Errorf ''%w: %s'' [AUuid lockedID] [Sentinel transfer_ErrDestinationAccountNotFound])"

definition lockAccounts ::
  "(stmt \<Rightarrow> go_error option) \<Rightarrow> uuid \<Rightarrow> uuid \<Rightarrow> tx \<Rightarrow> (account \<times> account) result" where
  "lockAccounts flt sourceID destinationID tx =
     (case lockOrder sourceID destinationID of (first, second) \<Rightarrow>
        case lockAccount (flt StmtLockFirst) first tx of
          Inl err \<Rightarrow> Inl (missingAccountError err first sourceID)
        | Inr lockedFirst \<Rightarrow>
            (case lockAccount (flt StmtLockSecond) second tx of
               Inl err \<Rightarrow> Inl (missingAccountError err second sourceID)
             | Inr lockedSecond \<Rightarrow>
                 if ac_id lockedFirst = sourceID then Inr (lockedFirst, lockedSecond)
                 else Inr (lockedSecond, lockedFirst)))"

section \<open>The posting transaction\<close>

definition assertBalanced :: "go_error option \<Rightarrow> uuid \<Rightarrow> tx \<Rightarrow> go_error option" where
  "assertBalanced flt tid tx =
     (let es = entries_of tid (tx_db tx);
          failed = (\<lambda>err. Some (Errorf ''transfer: verify invariant: %w'' [] [err])) in
      case flt of
        Some err \<Rightarrow> failed err
      | None \<Rightarrow>
          if \<not> in_int64 (sum_amounts es) then failed (LibError ''cannot scan numeric into *int64'')
          else if length es \<noteq> 2 then
            Some (Errorf ''%w: transfer %s has %d entries, want 2'' [AUuid tid, AInt (int (length es))]
                    [Sentinel transfer_ErrNotBalanced])
          else if sum_amounts es \<noteq> 0 then
            Some (Errorf ''%w: transfer %s entries sum to %d, want 0'' [AUuid tid, AInt (sum_amounts es)]
                    [Sentinel transfer_ErrNotBalanced])
          else None)"

text \<open>Runs a statement unless the environment makes it fail; the error is wrapped with the
  caller's format.\<close>

definition exec :: "go_error option \<Rightarrow> string \<Rightarrow> 'a result \<Rightarrow> 'a result" where
  "exec flt fmt r =
     (case flt of
        Some err \<Rightarrow> Inl (Errorf fmt [] [err])
      | None \<Rightarrow> (case r of Inl err \<Rightarrow> Inl (Errorf fmt [] [err]) | Inr x \<Rightarrow> Inr x))"

definition new_transfer_row ::
  "attempt_env \<Rightarrow> Command \<Rightarrow> idempotencyStamp option \<Rightarrow> transfer_row" where
  "new_transfer_row env cmd stamp =
     \<lparr>t_ID = ae_transferID env, t_SourceAccountID = c_SourceAccountID cmd,
      t_DestinationAccountID = c_DestinationAccountID cmd, t_AmountMinor = c_AmountMinor cmd,
      t_Currency = c_Currency cmd, t_Status = StatusPending, t_CreatedAt = ae_now env,
      t_CompletedAt = None,
      t_idempotency_key = keyOrNil stamp, t_request_fingerprint = fingerprintOrNil stamp\<rparr>"

definition new_entries :: "attempt_env \<Rightarrow> Command \<Rightarrow> Entry list" where
  "new_entries env cmd =
     [\<lparr>e_ID = ae_debitID env, e_TransferID = ae_transferID env,
       e_AccountID = c_SourceAccountID cmd, e_AmountMinor = wrap64 (- c_AmountMinor cmd),
       e_Currency = c_Currency cmd, e_CreatedAt = ae_now env\<rparr>,
      \<lparr>e_ID = ae_creditID env, e_TransferID = ae_transferID env,
       e_AccountID = c_DestinationAccountID cmd, e_AmountMinor = c_AmountMinor cmd,
       e_Currency = c_Currency cmd, e_CreatedAt = ae_now env\<rparr>]"

definition post ::
  "attempt_env \<Rightarrow> Command \<Rightarrow> idempotencyStamp option \<Rightarrow> tx \<Rightarrow> (Transfer \<times> tx) result" where
  "post env cmd stamp tx =
     (case lockAccounts (ae_fault env) (c_SourceAccountID cmd) (c_DestinationAccountID cmd) tx of
        Inl err \<Rightarrow> Inl err
      | Inr (source, destination) \<Rightarrow>
     if ac_currency source \<noteq> c_Currency cmd then
       Inl (Errorf ''%w: source account is %s, transfer is %s''
              [AStr (ac_currency source), AStr (c_Currency cmd)] [Sentinel transfer_ErrCurrencyMismatch])
     else if ac_currency destination \<noteq> c_Currency cmd then
       Inl (Errorf ''%w: destination account is %s, transfer is %s''
              [AStr (ac_currency destination), AStr (c_Currency cmd)]
              [Sentinel transfer_ErrCurrencyMismatch])
     else if ac_balanceMinor source < c_AmountMinor cmd then
       Inl (Errorf ''%w: account %s holds %d, needs %d''
              [AUuid (ac_id source), AInt (ac_balanceMinor source), AInt (c_AmountMinor cmd)]
              [Sentinel transfer_ErrInsufficientFunds])
     else
       (let row = new_transfer_row env cmd stamp in
        case exec (ae_fault env StmtInsertTransfer) ''transfer: insert: %w''
               (sql_insert_transfer row tx) of
          Inl err \<Rightarrow> Inl err
        | Inr tx1 \<Rightarrow>
        (case exec (ae_fault env StmtDebit) ''transfer: debit source: %w''
                (sql_update_balances
                   (\<lambda>a. a_ID a = c_SourceAccountID cmd \<and> a_BalanceMinor a \<ge> c_AmountMinor cmd)
                   (- c_AmountMinor cmd) (ae_now env) tx1) of
          Inl err \<Rightarrow> Inl err
        | Inr (affected, tx2) \<Rightarrow>
        if affected \<noteq> 1 then
          Inl (Errorf ''%w: account %s no longer holds %d''
                 [AUuid (c_SourceAccountID cmd), AInt (c_AmountMinor cmd)]
                 [Sentinel transfer_ErrInsufficientFunds])
        else
        (case exec (ae_fault env StmtCredit) ''transfer: credit destination: %w''
                (sql_update_balances (\<lambda>a. a_ID a = c_DestinationAccountID cmd)
                   (c_AmountMinor cmd) (ae_now env) tx2) of
          Inl err \<Rightarrow> Inl err
        | Inr (affected2, tx3) \<Rightarrow>
        if affected2 \<noteq> 1 then
          Inl (Errorf ''transfer: credit destination %s affected %d rows, want 1''
                 [AUuid (c_DestinationAccountID cmd), AInt (int affected2)] [])
        else
        (case exec (ae_fault env StmtInsertEntries) ''transfer: insert ledger entries: %w''
                (sql_insert_entries (new_entries env cmd) tx3) of
          Inl err \<Rightarrow> Inl err
        | Inr tx4 \<Rightarrow>
        (case assertBalanced (ae_fault env StmtAssertBalanced) (ae_transferID env) tx4 of
          Some err \<Rightarrow> Inl err
        | None \<Rightarrow>
        (case exec (ae_fault env StmtComplete) ''transfer: mark completed: %w''
                (sql_complete_transfer (ae_transferID env) (ae_now env) tx4) of
          Inl err \<Rightarrow> Inl err
        | Inr ((st, completedAt), tx5) \<Rightarrow>
            Inr ((Transfer.truncate row)\<lparr>t_Status := st, t_CompletedAt := Some completedAt\<rparr>,
                 tx5))))))))"

section \<open>One attempt, and the retried operation\<close>

definition postOnce ::
  "attempt_env \<Rightarrow> Command \<Rightarrow> idempotencyStamp option \<Rightarrow> db \<Rightarrow> Transfer result \<times> db" where
  "postOnce env cmd stamp d =
     (case ae_fault env StmtBegin of
        Some err \<Rightarrow> (Inl (Errorf ''transfer: begin: %w'' [] [err]), d)
      | None \<Rightarrow>
          (case post env cmd stamp (begin_tx d) of
             Inl err \<Rightarrow> (Inl err, d)
           | Inr (posted, tx) \<Rightarrow>
               let failed = (\<lambda>err. Inl (Errorf ''transfer: commit: %w'' [] [err])) in
               (case ae_commit env of
                  Fault err \<Rightarrow> (failed err, d)
                | LostAck err \<Rightarrow>
                    (failed err, (case commit_tx tx of Inl _ \<Rightarrow> d | Inr d' \<Rightarrow> d'))
                | NoFault \<Rightarrow>
                    (case commit_tx tx of
                       Inl err \<Rightarrow> (failed err, d)
                     | Inr d' \<Rightarrow> (Inr posted, d')))))"

text \<open>Attempt \<open>n\<close> of a retried posting: what other sessions committed, then the
  transaction.\<close>

definition attempt_once ::
  "(int \<Rightarrow> attempt_env) \<Rightarrow> Command \<Rightarrow> idempotencyStamp option \<Rightarrow> int \<Rightarrow> db \<Rightarrow> Transfer result \<times> db" where
  "attempt_once env cmd stamp n d = postOnce (env n) cmd stamp (ae_others (env n) d)"

definition postWithRetry ::
  "RetryPolicy \<Rightarrow> (int \<Rightarrow> attempt_env) \<Rightarrow> Command \<Rightarrow> idempotencyStamp option \<Rightarrow> db \<Rightarrow>
   Transfer result \<times> Attempts \<times> db" where
  "postWithRetry p env cmd stamp d =
     (case Command_Validate cmd of
        Some err \<Rightarrow> (Inl err, no_attempts, d)
      | None \<Rightarrow>
          retry_loop p (attempt_once env cmd stamp)
            (\<lambda>n. wait p (ae_int64N (env n)) (ae_cancelled (env n)) n) 1 no_attempts d)"

definition PostWithAttempts ::
  "RetryPolicy \<Rightarrow> (int \<Rightarrow> attempt_env) \<Rightarrow> Command \<Rightarrow> db \<Rightarrow> Transfer result \<times> Attempts \<times> db" where
  "PostWithAttempts p env cmd d = postWithRetry p env cmd None d"

definition Post ::
  "RetryPolicy \<Rightarrow> (int \<Rightarrow> attempt_env) \<Rightarrow> Command \<Rightarrow> db \<Rightarrow> Transfer result \<times> db" where
  "Post p env cmd d =
     (case PostWithAttempts p env cmd d of (posted, _, d') \<Rightarrow> (posted, d'))"

definition NewServiceWithPolicy :: "RetryPolicy \<Rightarrow> RetryPolicy" where
  "NewServiceWithPolicy policy =
     (if MaxAttempts policy < 1 then policy\<lparr>MaxAttempts := 1\<rparr> else policy)"

definition Transfer_Get :: "go_error option \<Rightarrow> uuid \<Rightarrow> db \<Rightarrow> Transfer result" where
  "Transfer_Get flt i d =
     (case flt of
        Some err \<Rightarrow>
          if errors_is err pgx_ErrNoRows
          then Inl (Errorf ''transfer %s: %w'' [AUuid i] [Sentinel transfer_ErrNotFound])
          else Inl (Errorf ''transfer: get %s: %w'' [AUuid i] [err])
      | None \<Rightarrow>
          (case find (\<lambda>t. t_ID t = i) (transfers d) of
             None \<Rightarrow> Inl (Errorf ''transfer %s: %w'' [AUuid i] [Sentinel transfer_ErrNotFound])
           | Some t \<Rightarrow> Inr (Transfer.truncate t)))"

end
