(* ===== verification/Invariant.thy ===== *)
theory Invariant
  imports Schema
begin

text \<open>
  What the committed database promises: \<open>schema_ok\<close> is what the constraints of
  \<^verbatim>\<open>src/migrations\<close> say about the rows, \<open>ledger_ok\<close> is the double-entry property (every
  transfer is completed and has exactly its debit and its credit), and \<open>unexplained\<close> is the
  part of a balance that no ledger entry accounts for.  The locale \<open>ledger_writer\<close> is the
  contract of everything that writes to the database; what it gives for sequences of writes
  is proved once here.
\<close>

section \<open>Invariants\<close>

definition accounts_ok :: "db \<Rightarrow> bool" where
  "accounts_ok d \<longleftrightarrow> distinct (map a_ID (accounts d)) \<and>
     (\<forall>a \<in> set (accounts d). check_account a = None \<and> in_int64 (a_BalanceMinor a))"

definition transfers_ok :: "db \<Rightarrow> bool" where
  "transfers_ok d \<longleftrightarrow> distinct (map t_ID (transfers d)) \<and>
     distinct (filter (\<lambda>k. k \<noteq> None) (map t_idempotency_key (transfers d))) \<and>
     (\<forall>t \<in> set (transfers d). check_transfer t = None
        \<and> t_SourceAccountID t \<in> a_ID ` set (accounts d)
        \<and> t_DestinationAccountID t \<in> a_ID ` set (accounts d))"

definition entries_ok :: "db \<Rightarrow> bool" where
  "entries_ok d \<longleftrightarrow> distinct (map e_ID (ledger_entries d)) \<and>
     distinct (map (\<lambda>e. (e_TransferID e, e_AccountID e)) (ledger_entries d)) \<and>
     (\<forall>e \<in> set (ledger_entries d). check_entry e = None
        \<and> e_TransferID e \<in> t_ID ` set (transfers d)
        \<and> e_AccountID e \<in> a_ID ` set (accounts d))"

definition schema_ok :: "db \<Rightarrow> bool" where
  "schema_ok d \<longleftrightarrow> accounts_ok d \<and> transfers_ok d \<and> entries_ok d"

fun posted_legs :: "transfer_row \<Rightarrow> Entry list \<Rightarrow> bool" where
  "posted_legs t [e1, e2] \<longleftrightarrow>
     e_AccountID e1 = t_SourceAccountID t \<and> e_AmountMinor e1 = - t_AmountMinor t
     \<and> e_Currency e1 = t_Currency t
     \<and> e_AccountID e2 = t_DestinationAccountID t \<and> e_AmountMinor e2 = t_AmountMinor t
     \<and> e_Currency e2 = t_Currency t"
| "posted_legs t _ \<longleftrightarrow> False"

definition ledger_ok :: "db \<Rightarrow> bool" where
  "ledger_ok d \<longleftrightarrow> (\<forall>t \<in> set (transfers d).
     t_Status t = StatusCompleted \<and> posted_legs t (entries_of (t_ID t) d))"

definition db_ok :: "db \<Rightarrow> bool" where
  "db_ok d \<longleftrightarrow> schema_ok d \<and> ledger_ok d"

definition account_ledger :: "db \<Rightarrow> uuid \<Rightarrow> int" where
  "account_ledger d i = sum_amounts (filter (\<lambda>e. e_AccountID e = i) (ledger_entries d))"

definition unexplained :: "db \<Rightarrow> uuid \<Rightarrow> int" where
  "unexplained d i =
     (case sql_select_account i d of None \<Rightarrow> 0 | Some a \<Rightarrow> a_BalanceMinor a - account_ledger d i)"

definition total_balance :: "db \<Rightarrow> int" where
  "total_balance d = sum_list (map a_BalanceMinor (accounts d))"

definition currency_total :: "Currency \<Rightarrow> db \<Rightarrow> int" where
  "currency_total c d =
     sum_list (map a_BalanceMinor (filter (\<lambda>a. a_Currency a = c) (accounts d)))"

text \<open>Every write appends: transfers and entries keep their rows, accounts keep their ids and
  currencies.\<close>

definition extends :: "db \<Rightarrow> db \<Rightarrow> bool" where
  "extends d d' \<longleftrightarrow>
     (\<exists>ts. transfers d' = transfers d @ ts) \<and> (\<exists>es. ledger_entries d' = ledger_entries d @ es)
     \<and> (\<exists>cs. map (\<lambda>a. (a_ID a, a_Currency a)) (accounts d') =
              map (\<lambda>a. (a_ID a, a_Currency a)) (accounts d) @ cs)"

section \<open>Basic facts\<close>

lemma extends_refl [simp]: "extends d d"
  by (simp add: extends_def)

lemma extends_trans: "extends d1 d2 \<Longrightarrow> extends d2 d3 \<Longrightarrow> extends d1 d3"
  by (force simp: extends_def)

lemma extends_transfers: "extends d d' \<Longrightarrow> t \<in> set (transfers d) \<Longrightarrow> t \<in> set (transfers d')"
  by (auto simp: extends_def)

lemma db_ok_empty [simp]: "db_ok empty_db"
  by (simp add: db_ok_def schema_ok_def ledger_ok_def accounts_ok_def transfers_ok_def entries_ok_def
      empty_db_def)

lemma db_ok_accounts: "db_ok d \<Longrightarrow> distinct (map a_ID (accounts d))"
  by (simp add: db_ok_def schema_ok_def accounts_ok_def)

lemma sql_select_account_iff:
  "db_ok d \<Longrightarrow> sql_select_account i d = Some a \<longleftrightarrow> a \<in> set (accounts d) \<and> a_ID a = i"
  by (simp add: sql_select_account_def find_Some_iff_distinct db_ok_accounts)

lemma sql_select_account_None: "sql_select_account i d = None \<longleftrightarrow> i \<notin> a_ID ` set (accounts d)"
  by (auto simp: sql_select_account_def find_None_iff)

lemma db_ok_nonneg:
  "db_ok d \<Longrightarrow> a \<in> set (accounts d) \<Longrightarrow> 0 \<le> a_BalanceMinor a"
  by (force simp: db_ok_def schema_ok_def accounts_ok_def check_account_def split: if_splits)

lemma distinct_filter_unique:
  "distinct (filter P (map f xs)) \<Longrightarrow> x \<in> set xs \<Longrightarrow> y \<in> set xs \<Longrightarrow> f x = f y \<Longrightarrow> P (f x) \<Longrightarrow> x = y"
  by (induction xs) (auto simp: image_iff split: if_splits)

text \<open>At most one transfer per idempotency key.\<close>

lemma db_ok_key_unique:
  assumes "db_ok d" and "t1 \<in> set (transfers d)" and "t2 \<in> set (transfers d)"
    and "t_idempotency_key t1 = Some k" and "t_idempotency_key t2 = Some k"
  shows "t1 = t2"
  using assms
  by (intro distinct_filter_unique [of "\<lambda>k. k \<noteq> None" t_idempotency_key "transfers d"])
    (auto simp: db_ok_def schema_ok_def transfers_ok_def)

section \<open>The contract of a writer\<close>

text \<open>A change of the committed database that keeps everything the ledger promises: the
  invariant, the history, the unexplained part of every balance and the totals per currency.\<close>

definition well_behaved :: "(db \<Rightarrow> db) \<Rightarrow> bool" where
  "well_behaved f \<longleftrightarrow> (\<forall>d. db_ok d \<longrightarrow> db_ok (f d) \<and> extends d (f d)
     \<and> unexplained (f d) = unexplained d \<and> (\<forall>c. currency_total c (f d) = currency_total c d))"

lemma well_behavedD:
  assumes "well_behaved f" and "db_ok d"
  shows "db_ok (f d)" "extends d (f d)" "unexplained (f d) = unexplained d"
    "currency_total c (f d) = currency_total c d"
  using assms by (simp_all add: well_behaved_def)

lemma well_behaved_id [simp]: "well_behaved (\<lambda>d. d)"
  by (simp add: well_behaved_def)

lemma well_behaved_comp: "well_behaved f \<Longrightarrow> well_behaved g \<Longrightarrow> well_behaved (\<lambda>d. g (f d))"
  unfolding well_behaved_def by (metis extends_trans)

fun run_ops :: "('i \<Rightarrow> db \<Rightarrow> 'o \<times> db) \<Rightarrow> 'i list \<Rightarrow> db \<Rightarrow> db" where
  "run_ops op [] d = d"
| "run_ops op (i # is) d = run_ops op is (snd (op i d))"

locale ledger_writer =
  fixes op :: "'i \<Rightarrow> db \<Rightarrow> 'o \<times> db" and allowed :: "'i \<Rightarrow> bool"
  assumes writes_well: "allowed i \<Longrightarrow> well_behaved (\<lambda>d. snd (op i d))"
begin

lemma run_well: "list_all allowed is \<Longrightarrow> well_behaved (run_ops op is)"
proof (induction "is")
  case Nil
  then show ?case by (simp add: well_behaved_def)
next
  case (Cons i "is")
  then have "well_behaved (\<lambda>d. snd (op i d))" and "well_behaved (run_ops op is)"
    by (auto intro: writes_well)
  from well_behaved_comp [OF this] show ?case by (simp add: well_behaved_def)
qed

end

end
