(* ===== verification/Posting.thy ===== *)
theory Posting
  imports Transfers Invariant
begin

text \<open>
  The posting transaction against its abstract specification: a posting either is refused and
  changes nothing, or replaces the database by \<open>posted_db\<close>, which moves the amount between the
  two balances and appends one completed transfer with its two entries.  From this come the
  double-entry invariants and the behaviour of the retried operation.
\<close>

section \<open>Specification\<close>

definition posted_row :: "attempt_env \<Rightarrow> Command \<Rightarrow> idempotencyStamp option \<Rightarrow> transfer_row" where
  "posted_row env cmd stamp = complete_row (ae_now env) (new_transfer_row env cmd stamp)"

definition moved :: "Command \<Rightarrow> int \<Rightarrow> Account \<Rightarrow> Account" where
  "moved cmd now a =
     (if a_ID a = c_SourceAccountID cmd then update_balance_row (- c_AmountMinor cmd) now a
      else if a_ID a = c_DestinationAccountID cmd then update_balance_row (c_AmountMinor cmd) now a
      else a)"

definition posted_db :: "attempt_env \<Rightarrow> Command \<Rightarrow> idempotencyStamp option \<Rightarrow> db \<Rightarrow> db" where
  "posted_db env cmd stamp d =
     \<lparr>accounts = map (moved cmd (ae_now env)) (accounts d),
      transfers = transfers d @ [posted_row env cmd stamp],
      ledger_entries = ledger_entries d @ new_entries env cmd\<rparr>"

text \<open>When the ledger lets a command through: both accounts exist in the command's currency,
  the source holds the amount, the credit stays in range, and the new rows satisfy the
  constraints.\<close>

definition can_post :: "attempt_env \<Rightarrow> Command \<Rightarrow> idempotencyStamp option \<Rightarrow> db \<Rightarrow> bool" where
  "can_post env cmd stamp d \<longleftrightarrow>
     (case (sql_select_account (c_SourceAccountID cmd) d, sql_select_account (c_DestinationAccountID cmd) d) of
        (Some s, Some t) \<Rightarrow>
          a_Currency s = c_Currency cmd \<and> a_Currency t = c_Currency cmd
          \<and> c_AmountMinor cmd \<le> a_BalanceMinor s
          \<and> in_int64 (a_BalanceMinor t + c_AmountMinor cmd)
      | _ \<Rightarrow> False)
     \<and> check_transfer (new_transfer_row env cmd stamp) = None
     \<and> ae_transferID env \<notin> t_ID ` set (transfers d)
     \<and> (keyOrNil stamp = None \<or> keyOrNil stamp \<notin> t_idempotency_key ` set (transfers d))
     \<and> ae_debitID env \<noteq> ae_creditID env
     \<and> ae_debitID env \<notin> e_ID ` set (ledger_entries d)
     \<and> ae_creditID env \<notin> e_ID ` set (ledger_entries d)"

definition valid_cmd :: "Command \<Rightarrow> bool" where
  "valid_cmd cmd \<longleftrightarrow> Command_Validate cmd = None \<and> c_AmountMinor cmd < 2 ^ 63"

section \<open>Statements\<close>

lemma exec_Inr [simp]: "exec flt fmt r = Inr x \<longleftrightarrow> flt = None \<and> r = Inr x"
  by (auto simp: exec_def split: option.splits sum.splits)

lemma valid_cmdD:
  assumes "valid_cmd cmd"
  shows "0 < c_AmountMinor cmd" "in_int64 (c_AmountMinor cmd)" "in_int64 (- c_AmountMinor cmd)"
    "currency_format (c_Currency cmd)" "c_SourceAccountID cmd \<noteq> c_DestinationAccountID cmd"
  using assms
  by (auto simp: valid_cmd_def Command_Validate_def in_int64_def Currency_Validate_None
      split: if_splits option.splits)

lemma sql_insert_transfer_Inr:
  "sql_insert_transfer t tx = Inr tx' \<longleftrightarrow>
     check_transfer t = None
     \<and> t_ID t \<notin> t_ID ` set (transfers (tx_db tx))
     \<and> (t_idempotency_key t = None \<or> t_idempotency_key t \<notin> t_idempotency_key ` set (transfers (tx_db tx)))
     \<and> t_SourceAccountID t \<in> a_ID ` set (accounts (tx_db tx))
     \<and> t_DestinationAccountID t \<in> a_ID ` set (accounts (tx_db tx))
     \<and> tx' = \<lparr>tx_db = (tx_db tx)\<lparr>transfers := transfers (tx_db tx) @ [t]\<rparr>,
              tx_deferred = tx_deferred tx @ [TransferWritten (t_ID t) (t_Status t)]\<rparr>"
  by (auto simp: sql_insert_transfer_def Let_def split: option.splits)

text \<open>An UPDATE that a key singles out touches at most the one row with that key.\<close>

lemma filter_key_one:
  assumes "distinct (map a_ID as)" and "a \<in> set as" and "P a"
  shows "filter (\<lambda>x. a_ID x = a_ID a \<and> P x) as = [a]"
proof -
  have "filter (\<lambda>x. a_ID x = a_ID a \<and> P x) as = filter P (filter (\<lambda>x. a_ID x = a_ID a) as)"
    by (simp add: conj_commute)
  also have "filter (\<lambda>x. a_ID x = a_ID a) as = [a]"
    using assms by (simp add: filter_key_distinct find_Some_iff_distinct [THEN iffD2])
  finally show ?thesis using assms(3) by simp
qed

lemma filter_key_length:
  assumes "distinct (map a_ID as)" and "length (filter (\<lambda>x. a_ID x = i \<and> P x) as) = 1"
  obtains a where "a \<in> set as" "a_ID a = i" "P a"
proof -
  from assms(2) have "filter (\<lambda>x. a_ID x = i \<and> P x) as \<noteq> []" by auto
  then show ?thesis using that by (auto simp: filter_empty_conv)
qed

lemma sql_update_balances_key:
  assumes ids: "distinct (map a_ID (accounts (tx_db tx)))"
    and a: "a \<in> set (accounts (tx_db tx))" "a_ID a = i" "P a"
  shows "sql_update_balances (\<lambda>x. a_ID x = i \<and> P x) delta now tx =
    (case update_balance_error delta now a of
       Some err \<Rightarrow> Inl err
     | None \<Rightarrow> Inr (Suc 0, tx\<lparr>tx_db := (tx_db tx)\<lparr>accounts :=
         map (\<lambda>x. if a_ID x = i then update_balance_row delta now x else x) (accounts (tx_db tx))\<rparr>\<rparr>))"
proof -
  let ?as = "accounts (tx_db tx)"
  have rows: "filter (\<lambda>x. a_ID x = i \<and> P x) ?as = [a]"
    using filter_key_one [OF ids, of a P] a by simp
  have "P x" if "x \<in> set ?as" "a_ID x = i" for x
    using that a ids by (metis distinct_map inj_onD)
  then have same: "map (\<lambda>x. if a_ID x = i \<and> P x then update_balance_row delta now x else x) ?as =
      map (\<lambda>x. if a_ID x = i then update_balance_row delta now x else x) ?as"
    by (intro map_cong) auto
  show ?thesis
    by (cases "update_balance_error delta now a")
      (simp_all add: sql_update_balances_def Let_def rows same)
qed

lemma sql_update_balances_one:
  assumes "distinct (map a_ID (accounts (tx_db tx)))"
    and "sql_update_balances (\<lambda>x. a_ID x = i \<and> P x) delta now tx = Inr (Suc 0, tx')"
  shows "(\<exists>a \<in> set (accounts (tx_db tx)). a_ID a = i \<and> P a \<and> update_balance_error delta now a = None)
    \<and> tx' = tx\<lparr>tx_db := (tx_db tx)\<lparr>accounts :=
       map (\<lambda>x. if a_ID x = i then update_balance_row delta now x else x) (accounts (tx_db tx))\<rparr>\<rparr>"
proof -
  have "length (filter (\<lambda>x. a_ID x = i \<and> P x) (accounts (tx_db tx))) = 1"
    using assms(2) by (auto simp: sql_update_balances_def Let_def split: option.splits)
  with assms(1) obtain a where a: "a \<in> set (accounts (tx_db tx))" "a_ID a = i" "P a"
    by (rule filter_key_length)
  with assms(2) show ?thesis
    by (auto simp: sql_update_balances_key [where P = P, OF assms(1) a] split: option.splits)
qed

lemma postE:
  assumes "post env cmd stamp tx = Inr (t, tx5)"
  obtains source destination tx1 tx2 tx3 tx4 st at where
    "lockAccounts (ae_fault env) (c_SourceAccountID cmd) (c_DestinationAccountID cmd) tx = Inr (source, destination)"
    "ac_currency source = c_Currency cmd" "ac_currency destination = c_Currency cmd"
    "c_AmountMinor cmd \<le> ac_balanceMinor source"
    "sql_insert_transfer (new_transfer_row env cmd stamp) tx = Inr tx1"
    "sql_update_balances (\<lambda>a. a_ID a = c_SourceAccountID cmd \<and> a_BalanceMinor a \<ge> c_AmountMinor cmd)
       (- c_AmountMinor cmd) (ae_now env) tx1 = Inr (Suc 0, tx2)"
    "sql_update_balances (\<lambda>a. a_ID a = c_DestinationAccountID cmd) (c_AmountMinor cmd) (ae_now env) tx2 = Inr (Suc 0, tx3)"
    "sql_insert_entries (new_entries env cmd) tx3 = Inr tx4"
    "assertBalanced (ae_fault env StmtAssertBalanced) (ae_transferID env) tx4 = None"
    "sql_complete_transfer (ae_transferID env) (ae_now env) tx4 = Inr ((st, at), tx5)"
    "t = (Transfer.truncate (new_transfer_row env cmd stamp))\<lparr>t_Status := st, t_CompletedAt := Some at\<rparr>"
proof (cases "lockAccounts (ae_fault env) (c_SourceAccountID cmd) (c_DestinationAccountID cmd) tx")
  case (Inl err)
  with assms show ?thesis by (simp add: post_def)
next
  case (Inr p)
  obtain source destination where p: "p = (source, destination)" by (cases p)
  show ?thesis
    using assms Inr p
    by (clarsimp simp: post_def Let_def not_less split: if_splits sum.splits option.splits)
      (rule that, (assumption | simp)+)
qed


definition as_account :: "Account \<Rightarrow> account" where
  "as_account a = \<lparr>ac_id = a_ID a, ac_currency = a_Currency a, ac_balanceMinor = a_BalanceMinor a\<rparr>"

lemma lockAccount_Inr:
  "lockAccount flt i tx = Inr x \<longleftrightarrow>
     flt = None \<and> (\<exists>a. sql_select_account i (tx_db tx) = Some a \<and> x = as_account a)"
  by (auto simp: lockAccount_def as_account_def Let_def split: option.splits if_splits)

lemma sql_select_account_ID: "sql_select_account i d = Some a \<Longrightarrow> a_ID a = i"
  by (auto simp: sql_select_account_def dest: find_SomeD)

lemma lockOrder_cases: "lockOrder a b = (a, b) \<or> lockOrder a b = (b, a)"
  by (simp add: lockOrder_def)

text \<open>Whatever the lock order, the two rows come back in their business roles.\<close>

lemma lockAccounts_Inr:
  assumes "lockAccounts flt i j tx = Inr (source, destination)" and "i \<noteq> j"
  obtains a b where "sql_select_account i (tx_db tx) = Some a" "sql_select_account j (tx_db tx) = Some b"
    "source = as_account a" "destination = as_account b" "flt StmtLockFirst = None" "flt StmtLockSecond = None"
  using assms lockOrder_cases [of i j]
  by (auto simp: lockAccounts_def lockAccount_Inr as_account_def split: sum.splits if_splits
      dest!: sql_select_account_ID intro: that)

lemma lockAccounts_roles:
  assumes "sql_select_account i (tx_db tx) = Some a" and "sql_select_account j (tx_db tx) = Some b"
    and "i \<noteq> j" and "flt StmtLockFirst = None" and "flt StmtLockSecond = None"
  shows "lockAccounts flt i j tx = Inr (as_account a, as_account b)"
  using assms lockOrder_cases [of i j] sql_select_account_ID [OF assms(1)] sql_select_account_ID [OF assms(2)]
  by (auto simp: lockAccounts_def lockAccount_def as_account_def)

lemma insert_entry_row_Inr:
  "insert_entry_row e tx = Inr tx' \<longleftrightarrow>
     check_entry e = None
     \<and> e_ID e \<notin> e_ID ` set (ledger_entries (tx_db tx))
     \<and> (e_TransferID e, e_AccountID e) \<notin> (\<lambda>x. (e_TransferID x, e_AccountID x)) ` set (ledger_entries (tx_db tx))
     \<and> tx' = \<lparr>tx_db = (tx_db tx)\<lparr>ledger_entries := ledger_entries (tx_db tx) @ [e]\<rparr>,
              tx_deferred = tx_deferred tx @ [EntryInserted (e_TransferID e)]\<rparr>"
  by (auto simp: insert_entry_row_def Let_def split: option.splits)

lemma entries_of_fresh:
  assumes "db_ok d" and "tid \<notin> t_ID ` set (transfers d)"
  shows "entries_of tid d = []"
  using assms by (auto simp: entries_of_def filter_empty_conv db_ok_def schema_ok_def entries_ok_def)

lemma sql_complete_transfer_new:
  assumes "t_ID t \<notin> t_ID ` set ts" and "t_Status t = StatusPending" and "check_transfer t = None"
    and "transfers (tx_db tx) = ts @ [t]"
  shows "sql_complete_transfer (t_ID t) now tx =
    Inr ((StatusCompleted, now),
      \<lparr>tx_db = (tx_db tx)\<lparr>transfers := ts @ [complete_row now t]\<rparr>,
       tx_deferred = tx_deferred tx @ [TransferWritten (t_ID t) StatusCompleted]\<rparr>)"
proof -
  let ?P = "\<lambda>x. t_ID x = t_ID t \<and> t_Status x = StatusPending"
  have none: "\<not> ?P x" if "x \<in> set ts" for x using assms(1) that by (metis imageI)
  then have "filter ?P ts = []" by (auto simp: filter_empty_conv)
  moreover have "map (\<lambda>x. if ?P x then complete_row now x else x) ts = ts"
    using none by (intro map_idI) auto
  moreover have "check_transfer (complete_row now t) = None"
    using assms(2,3) by (auto simp: check_transfer_def complete_row_def split: if_splits)
  ultimately show ?thesis
    using assms(2,4) by (simp add: sql_complete_transfer_def complete_error_def Let_def)
qed

lemma new_row_simps [simp]:
  "t_ID (new_transfer_row env cmd stamp) = ae_transferID env"
  "t_SourceAccountID (new_transfer_row env cmd stamp) = c_SourceAccountID cmd"
  "t_DestinationAccountID (new_transfer_row env cmd stamp) = c_DestinationAccountID cmd"
  "t_AmountMinor (new_transfer_row env cmd stamp) = c_AmountMinor cmd"
  "t_Currency (new_transfer_row env cmd stamp) = c_Currency cmd"
  "t_Status (new_transfer_row env cmd stamp) = StatusPending"
  "t_idempotency_key (new_transfer_row env cmd stamp) = keyOrNil stamp"
  "t_request_fingerprint (new_transfer_row env cmd stamp) = fingerprintOrNil stamp"
  by (simp_all add: new_transfer_row_def)


lemma entries_of_posted:
  assumes "db_ok d" and "ae_transferID env \<notin> t_ID ` set (transfers d)"
  shows "entries_of (ae_transferID env) (posted_db env cmd stamp d) = new_entries env cmd"
  using entries_of_fresh [OF assms] by (simp add: entries_of_def posted_db_def new_entries_def)

lemma tx_db_begin_tx [simp]: "tx_db (begin_tx d) = d" "tx_deferred (begin_tx d) = []"
  by (simp_all add: begin_tx_def)

lemma update_balance_row_simps [simp]:
  "a_ID (update_balance_row delta now a) = a_ID a"
  "a_Currency (update_balance_row delta now a) = a_Currency a"
  "a_BalanceMinor (update_balance_row delta now a) = a_BalanceMinor a + delta"
  by (simp_all add: update_balance_row_def)

lemma a_ID_update_if [simp]: "a_ID (if c then update_balance_row delta now a else a) = a_ID a"
  by simp

lemma moved_simps [simp]:
  "a_ID (moved cmd now a) = a_ID a" "a_Currency (moved cmd now a) = a_Currency a"
  by (simp_all add: moved_def)

lemma sql_insert_new_entries:
  assumes "sql_insert_entries (new_entries env cmd) tx = Inr tx'"
  shows "ae_debitID env \<noteq> ae_creditID env
    \<and> ae_debitID env \<notin> e_ID ` set (ledger_entries (tx_db tx))
    \<and> ae_creditID env \<notin> e_ID ` set (ledger_entries (tx_db tx))
    \<and> tx' = \<lparr>tx_db = (tx_db tx)\<lparr>ledger_entries := ledger_entries (tx_db tx) @ new_entries env cmd\<rparr>,
              tx_deferred = tx_deferred tx @ [EntryInserted (ae_transferID env), EntryInserted (ae_transferID env)]\<rparr>"
proof -
  from assms have "insert_entry_rows (new_entries env cmd) tx = Inr tx'"
    by (auto simp: sql_insert_entries_def split: sum.splits option.splits)
  then show ?thesis
    by (auto simp: new_entries_def insert_entry_row_Inr split: sum.splits)
qed

text \<open>The two balance updates of a posting together are \<open>moved\<close>.\<close>

lemma balance_updates:
  assumes ids: "distinct (map a_ID (accounts (tx_db tx1)))" and ne: "c_SourceAccountID cmd \<noteq> c_DestinationAccountID cmd"
    and debit: "sql_update_balances (\<lambda>a. a_ID a = c_SourceAccountID cmd \<and> a_BalanceMinor a \<ge> c_AmountMinor cmd)
       (- c_AmountMinor cmd) now tx1 = Inr (Suc 0, tx2)"
    and credit: "sql_update_balances (\<lambda>a. a_ID a = c_DestinationAccountID cmd) (c_AmountMinor cmd) now tx2 = Inr (Suc 0, tx3)"
  shows "tx3 = tx1\<lparr>tx_db := (tx_db tx1)\<lparr>accounts := map (moved cmd now) (accounts (tx_db tx1))\<rparr>\<rparr>
    \<and> (\<exists>b \<in> set (accounts (tx_db tx1)). a_ID b = c_DestinationAccountID cmd
         \<and> in_int64 (a_BalanceMinor b + c_AmountMinor cmd))"
proof -
  let ?upd = "\<lambda>x. if a_ID x = c_SourceAccountID cmd then update_balance_row (- c_AmountMinor cmd) now x else x"
  have tx2: "tx2 = tx1\<lparr>tx_db := (tx_db tx1)\<lparr>accounts := map ?upd (accounts (tx_db tx1))\<rparr>\<rparr>"
    using sql_update_balances_one [OF ids debit] by simp
  have ids2: "distinct (map a_ID (accounts (tx_db tx2)))"
    using ids by (simp add: tx2 comp_def del: if_split)
  note one = sql_update_balances_one [OF ids2, where P = "\<lambda>_. True", simplified, OF credit]
  then obtain b where b: "b \<in> set (accounts (tx_db tx2))" "a_ID b = c_DestinationAccountID cmd"
      "update_balance_error (c_AmountMinor cmd) now b = None"
    by blast
  have "b \<in> set (accounts (tx_db tx1))" using b(1,2) ne by (auto simp: tx2)
  moreover have "in_int64 (a_BalanceMinor b + c_AmountMinor cmd)"
    using b(3) by (auto simp: update_balance_error_def split: if_splits)
  moreover have "tx3 = tx1\<lparr>tx_db := (tx_db tx1)\<lparr>accounts := map (moved cmd now) (accounts (tx_db tx1))\<rparr>\<rparr>"
    using one ne by (simp add: tx2 moved_def comp_def cong: map_cong)
  ultimately show ?thesis using b(2) by auto
qed

lemma post_moves:
  assumes d: "db_ok d" and cmd: "valid_cmd cmd" and "post env cmd stamp (begin_tx d) = Inr (t, tx)"
  shows "can_post env cmd stamp d \<and> t = Transfer.truncate (posted_row env cmd stamp)
    \<and> tx_db tx = posted_db env cmd stamp d
    \<and> tx_deferred tx = [TransferWritten (ae_transferID env) StatusPending,
        EntryInserted (ae_transferID env), EntryInserted (ae_transferID env),
        TransferWritten (ae_transferID env) StatusCompleted]"
  using assms(3)
proof (cases rule: postE)
  case (1 source destination tx1 tx2 tx3 tx4 st at)
  let ?row = "new_transfer_row env cmd stamp"
  note ne = valid_cmdD(5) [OF cmd]
  from lockAccounts_Inr [OF 1(1) ne]
  obtain a b where ab: "sql_select_account (c_SourceAccountID cmd) d = Some a"
      "sql_select_account (c_DestinationAccountID cmd) d = Some b"
      "source = as_account a" "destination = as_account b"
    by (metis tx_db_begin_tx(1))
  from 1(5) have ins: "check_transfer ?row = None" "ae_transferID env \<notin> t_ID ` set (transfers d)"
      "keyOrNil stamp = None \<or> keyOrNil stamp \<notin> t_idempotency_key ` set (transfers d)"
    and tx1: "tx1 = \<lparr>tx_db = d\<lparr>transfers := transfers d @ [?row]\<rparr>,
                    tx_deferred = [TransferWritten (ae_transferID env) StatusPending]\<rparr>"
    by (auto simp: sql_insert_transfer_Inr)
  have tx3: "tx3 = tx1\<lparr>tx_db := (tx_db tx1)\<lparr>accounts := map (moved cmd (ae_now env)) (accounts d)\<rparr>\<rparr>"
    and "\<exists>x \<in> set (accounts d). a_ID x = c_DestinationAccountID cmd \<and> in_int64 (a_BalanceMinor x + c_AmountMinor cmd)"
    using balance_updates [OF _ ne 1(6,7)] db_ok_accounts [OF d] by (simp_all add: tx1)
  then have room: "in_int64 (a_BalanceMinor b + c_AmountMinor cmd)"
    using ab(2) by (metis sql_select_account_iff [OF d] option.inject)
  note tx4 = sql_insert_new_entries [OF 1(8)]
  have tx5: "sql_complete_transfer (ae_transferID env) (ae_now env) tx4 =
      Inr ((StatusCompleted, ae_now env),
        \<lparr>tx_db = (tx_db tx4)\<lparr>transfers := transfers d @ [posted_row env cmd stamp]\<rparr>,
         tx_deferred = tx_deferred tx4 @ [TransferWritten (ae_transferID env) StatusCompleted]\<rparr>)"
    using sql_complete_transfer_new [of ?row "transfers d" tx4 "ae_now env"] ins tx4
    by (simp add: tx3 tx1 posted_row_def)
  have "can_post env cmd stamp d"
    using ab ins room tx4 1(2-4) by (simp add: can_post_def tx3 tx1 as_account_def)
  moreover have "tx_db tx = posted_db env cmd stamp d"
    using 1(10) tx5 tx4 by (auto simp: posted_db_def tx3 tx1)
  moreover have "t = Transfer.truncate (posted_row env cmd stamp)"
    using 1(10,11) tx5 by (simp add: posted_row_def complete_row_def Transfer.truncate_def)
  ultimately show ?thesis
    using 1(10) tx5 tx4 by (auto simp: tx3 tx1)
qed

lemma new_entries_sum: "valid_cmd cmd \<Longrightarrow> sum_amounts (new_entries env cmd) = 0"
  using valid_cmdD [of cmd] by (simp add: new_entries_def sum_amounts_def)

lemma find_posted_row:
  "ae_transferID env \<notin> t_ID ` set (transfers d) \<Longrightarrow>
     find (\<lambda>t. t_ID t = ae_transferID env) (transfers (posted_db env cmd stamp d)) = Some (posted_row env cmd stamp)"
  by (force simp: posted_db_def posted_row_def complete_row_def split: option.splits dest: find_SomeD)

lemma can_postD:
  assumes "can_post env cmd stamp d"
  obtains a b where "sql_select_account (c_SourceAccountID cmd) d = Some a"
    "sql_select_account (c_DestinationAccountID cmd) d = Some b"
    "a_Currency a = c_Currency cmd" "a_Currency b = c_Currency cmd"
    "c_AmountMinor cmd \<le> a_BalanceMinor a" "in_int64 (a_BalanceMinor b + c_AmountMinor cmd)"
    "check_transfer (new_transfer_row env cmd stamp) = None"
    "ae_transferID env \<notin> t_ID ` set (transfers d)"
    "keyOrNil stamp = None \<or> keyOrNil stamp \<notin> t_idempotency_key ` set (transfers d)"
    "ae_debitID env \<noteq> ae_creditID env" "ae_debitID env \<notin> e_ID ` set (ledger_entries d)"
    "ae_creditID env \<notin> e_ID ` set (ledger_entries d)"
  using assms by (auto simp: can_post_def split: option.splits)

lemma assert_posted:
  assumes "db_ok d" and "valid_cmd cmd" and "can_post env cmd stamp d"
  shows "assert_transfer_balanced (posted_db env cmd stamp d) (ae_transferID env) = None"
proof -
  have fresh: "ae_transferID env \<notin> t_ID ` set (transfers d)" using assms(3) by (simp add: can_post_def)
  have "filter (\<lambda>e. e_Currency e \<noteq> t_Currency (posted_row env cmd stamp)) (new_entries env cmd) = []"
    by (simp add: new_entries_def posted_row_def complete_row_def)
  moreover have "new_entries env cmd \<noteq> []" by (simp add: new_entries_def)
  ultimately show ?thesis
    using new_entries_sum [OF assms(2)] find_posted_row [OF fresh] entries_of_posted [OF assms(1) fresh]
    by (simp add: assert_transfer_balanced_def Let_def in_int64_def)
qed

lemma commit_posted:
  assumes "db_ok d" and "valid_cmd cmd" and "post env cmd stamp (begin_tx d) = Inr (t, tx)"
  shows "commit_tx tx = Inr (posted_db env cmd stamp d)"
  using post_moves [OF assms] assert_posted [OF assms(1,2)] by (simp add: commit_tx_def)

text \<open>One attempt: refused without a trace, or posted (and, when the acknowledgement of the
  COMMIT is lost, reported as failed all the same).\<close>

lemma postOnce_posts:
  assumes "db_ok d" and "valid_cmd cmd" and "ae_fault env StmtBegin = None"
    and "post env cmd stamp (begin_tx d) = Inr (t, tx)"
  shows "postOnce env cmd stamp d =
    (case ae_commit env of
       NoFault \<Rightarrow> (Inr (Transfer.truncate (posted_row env cmd stamp)), posted_db env cmd stamp d)
     | Fault err \<Rightarrow> (Inl (Errorf ''transfer: commit: %w'' [] [err]), d)
     | LostAck err \<Rightarrow> (Inl (Errorf ''transfer: commit: %w'' [] [err]), posted_db env cmd stamp d))"
  using commit_posted [OF assms(1,2,4)] post_moves [OF assms(1,2,4)] assms(3,4)
  by (simp add: postOnce_def Let_def split: fault.splits)

lemma postOnce_cases:
  assumes "db_ok d" and "valid_cmd cmd" and "postOnce env cmd stamp d = (r, d')"
  shows "(\<exists>err. r = Inl err) \<and> d' = d
    \<or> can_post env cmd stamp d \<and> d' = posted_db env cmd stamp d
       \<and> (r = Inr (Transfer.truncate (posted_row env cmd stamp))
          \<or> (\<exists>err. ae_commit env = LostAck err \<and> r = Inl (Errorf ''transfer: commit: %w'' [] [err])))"
proof (cases "ae_fault env StmtBegin = None \<and> (\<exists>p. post env cmd stamp (begin_tx d) = Inr p)")
  case True
  then obtain t tx where "ae_fault env StmtBegin = None" "post env cmd stamp (begin_tx d) = Inr (t, tx)"
    by auto
  with postOnce_posts [OF assms(1,2) this] post_moves [OF assms(1,2)] assms(3) show ?thesis
    by (cases "ae_commit env") auto
next
  case False
  with assms(3) show ?thesis
    by (auto simp: postOnce_def split: option.splits sum.splits)
qed

section \<open>A posting that may go through does\<close>

lemma update_balance_errorI:
  assumes "check_account a = None" and "in_int64 (a_BalanceMinor a + delta)" and "0 \<le> a_BalanceMinor a + delta"
  shows "update_balance_error delta now a = None"
  using assms by (auto simp: update_balance_error_def check_account_def split: if_splits)

lemma check_accountD: "db_ok d \<Longrightarrow> a \<in> set (accounts d) \<Longrightarrow> check_account a = None \<and> in_int64 (a_BalanceMinor a)"
  by (simp add: db_ok_def schema_ok_def accounts_ok_def)

lemma sql_insert_new_entries_ok:
  assumes "valid_cmd cmd" and "ae_debitID env \<noteq> ae_creditID env"
    and "ae_debitID env \<notin> e_ID ` set (ledger_entries (tx_db tx))"
    and "ae_creditID env \<notin> e_ID ` set (ledger_entries (tx_db tx))"
    and "ae_transferID env \<notin> e_TransferID ` set (ledger_entries (tx_db tx))"
    and "ae_transferID env \<in> t_ID ` set (transfers (tx_db tx))"
    and "c_SourceAccountID cmd \<in> a_ID ` set (accounts (tx_db tx))"
    and "c_DestinationAccountID cmd \<in> a_ID ` set (accounts (tx_db tx))"
  shows "\<exists>tx'. sql_insert_entries (new_entries env cmd) tx = Inr tx'"
proof -
  note cmd = valid_cmdD [OF assms(1)]
  have "insert_entry_rows (new_entries env cmd) tx = Inr tx' \<Longrightarrow> sql_insert_entries (new_entries env cmd) tx = Inr tx'" for tx'
    using assms by (auto simp: sql_insert_entries_def new_entries_def entry_fk_error_def insert_entry_row_Inr split: sum.splits)
  moreover have "\<exists>tx'. insert_entry_rows (new_entries env cmd) tx = Inr tx'"
    using assms cmd
    by (auto simp: new_entries_def insert_entry_row_def check_entry_def Let_def image_iff)
  ultimately show ?thesis by blast
qed

lemma balance_updates_ok:
  assumes d: "db_ok d" and cmd: "valid_cmd cmd" and d1: "accounts (tx_db tx1) = accounts d"
    and a: "sql_select_account (c_SourceAccountID cmd) d = Some a" "c_AmountMinor cmd \<le> a_BalanceMinor a"
    and b: "sql_select_account (c_DestinationAccountID cmd) d = Some b" "in_int64 (a_BalanceMinor b + c_AmountMinor cmd)"
  shows "\<exists>tx2 tx3.
    sql_update_balances (\<lambda>a. a_ID a = c_SourceAccountID cmd \<and> a_BalanceMinor a \<ge> c_AmountMinor cmd)
      (- c_AmountMinor cmd) now tx1 = Inr (Suc 0, tx2)
    \<and> sql_update_balances (\<lambda>a. a_ID a = c_DestinationAccountID cmd) (c_AmountMinor cmd) now tx2 = Inr (Suc 0, tx3)"
proof -
  note cmdD = valid_cmdD [OF cmd]
  have a': "a \<in> set (accounts d)" "a_ID a = c_SourceAccountID cmd" and b': "b \<in> set (accounts d)" "a_ID b = c_DestinationAccountID cmd"
    using a b by (simp_all add: sql_select_account_iff [OF d])
  let ?upd = "\<lambda>x. if a_ID x = c_SourceAccountID cmd then update_balance_row (- c_AmountMinor cmd) now x else x"
  let ?tx2 = "tx1\<lparr>tx_db := (tx_db tx1)\<lparr>accounts := map ?upd (accounts d)\<rparr>\<rparr>"
  have "in_int64 (a_BalanceMinor a + - c_AmountMinor cmd)"
    using check_accountD [OF d a'(1)] db_ok_nonneg [OF d a'(1)] a(2) cmdD(1) by (simp add: in_int64_def)
  then have "update_balance_error (- c_AmountMinor cmd) now a = None"
    using check_accountD [OF d a'(1)] a(2) by (intro update_balance_errorI) auto
  then have debit: "sql_update_balances (\<lambda>a. a_ID a = c_SourceAccountID cmd \<and> a_BalanceMinor a \<ge> c_AmountMinor cmd)
      (- c_AmountMinor cmd) now tx1 = Inr (Suc 0, ?tx2)"
    using sql_update_balances_key [of tx1 a "c_SourceAccountID cmd" "\<lambda>a. a_BalanceMinor a \<ge> c_AmountMinor cmd"]
      a' a(2) db_ok_accounts [OF d] by (simp add: d1)
  have ids2: "distinct (map a_ID (accounts (tx_db ?tx2)))"
    using db_ok_accounts [OF d] by (simp add: comp_def del: if_split)
  have b2: "b \<in> set (accounts (tx_db ?tx2))" using b' cmdD(5) by force
  have "update_balance_error (c_AmountMinor cmd) now b = None"
    using check_accountD [OF d b'(1)] db_ok_nonneg [OF d b'(1)] b(2) cmdD(1) by (intro update_balance_errorI) auto
  with sql_update_balances_key [OF ids2 b2 b'(2), of "\<lambda>_. True"] debit show ?thesis by simp
qed

lemma post_succeeds:
  assumes d: "db_ok d" and cmd: "valid_cmd cmd" and can: "can_post env cmd stamp d"
    and no_fault: "\<And>s. ae_fault env s = None"
  shows "\<exists>tx. post env cmd stamp (begin_tx d) = Inr (Transfer.truncate (posted_row env cmd stamp), tx)"
proof -
  note cmdD = valid_cmdD [OF cmd]
  let ?row = "new_transfer_row env cmd stamp"
  let ?tx1 = "\<lparr>tx_db = d\<lparr>transfers := transfers d @ [?row]\<rparr>,
               tx_deferred = [TransferWritten (ae_transferID env) StatusPending]\<rparr>"
  obtain a b where ab: "sql_select_account (c_SourceAccountID cmd) d = Some a"
      "sql_select_account (c_DestinationAccountID cmd) d = Some b"
      "a_Currency a = c_Currency cmd" "a_Currency b = c_Currency cmd"
      "c_AmountMinor cmd \<le> a_BalanceMinor a" "in_int64 (a_BalanceMinor b + c_AmountMinor cmd)"
    and new: "check_transfer ?row = None" "ae_transferID env \<notin> t_ID ` set (transfers d)"
      "keyOrNil stamp = None \<or> keyOrNil stamp \<notin> t_idempotency_key ` set (transfers d)"
      "ae_debitID env \<noteq> ae_creditID env" "ae_debitID env \<notin> e_ID ` set (ledger_entries d)"
      "ae_creditID env \<notin> e_ID ` set (ledger_entries d)"
    using can by (rule can_postD)
  have ids: "c_SourceAccountID cmd \<in> a_ID ` set (accounts d)" "c_DestinationAccountID cmd \<in> a_ID ` set (accounts d)"
    using ab(1,2) by (metis option.distinct(1) sql_select_account_None)+
  have lock: "lockAccounts (ae_fault env) (c_SourceAccountID cmd) (c_DestinationAccountID cmd) (begin_tx d) =
      Inr (as_account a, as_account b)"
    using ab cmdD(5) no_fault by (intro lockAccounts_roles) auto
  have ins: "sql_insert_transfer ?row (begin_tx d) = Inr ?tx1"
    using new ids by (simp add: sql_insert_transfer_Inr)
  obtain tx2 tx3 where upd:
      "sql_update_balances (\<lambda>a. a_ID a = c_SourceAccountID cmd \<and> a_BalanceMinor a \<ge> c_AmountMinor cmd)
         (- c_AmountMinor cmd) (ae_now env) ?tx1 = Inr (Suc 0, tx2)"
      "sql_update_balances (\<lambda>a. a_ID a = c_DestinationAccountID cmd) (c_AmountMinor cmd) (ae_now env) tx2 = Inr (Suc 0, tx3)"
    using balance_updates_ok [OF d cmd _ ab(1,5,2,6), of ?tx1 "ae_now env"] by auto
  have tx3: "tx3 = ?tx1\<lparr>tx_db := (tx_db ?tx1)\<lparr>accounts := map (moved cmd (ae_now env)) (accounts d)\<rparr>\<rparr>"
    using balance_updates [OF _ cmdD(5) upd] db_ok_accounts [OF d] by simp
  have fresh: "ae_transferID env \<notin> e_TransferID ` set (ledger_entries d)"
    using entries_of_fresh [OF d new(2)] by (auto simp: entries_of_def filter_empty_conv)
  have "a_ID ` moved cmd (ae_now env) ` set (accounts d) = a_ID ` set (accounts d)"
    by (simp add: image_image)
  then obtain tx4 where ent: "sql_insert_entries (new_entries env cmd) tx3 = Inr tx4"
    using sql_insert_new_entries_ok [OF cmd new(4), of tx3] new(5,6) fresh ids by (auto simp: tx3)
  have "entries_of (ae_transferID env) (tx_db tx4) = new_entries env cmd"
    using sql_insert_new_entries [OF ent] entries_of_fresh [OF d new(2)]
    by (simp add: tx3 entries_of_def new_entries_def)
  then have bal: "assertBalanced (ae_fault env StmtAssertBalanced) (ae_transferID env) tx4 = None"
    using new_entries_sum [OF cmd] no_fault by (simp add: assertBalanced_def in_int64_def) (simp add: new_entries_def)
  have "\<exists>tx5. sql_complete_transfer (ae_transferID env) (ae_now env) tx4 = Inr ((StatusCompleted, ae_now env), tx5)"
    using sql_complete_transfer_new [of ?row "transfers d" tx4 "ae_now env"] new sql_insert_new_entries [OF ent]
    by (simp add: tx3)
  then obtain t tx5 where "post env cmd stamp (begin_tx d) = Inr (t, tx5)"
    using lock ins upd ent bal ab no_fault by (auto simp: post_def as_account_def Let_def exec_def)
  with post_moves [OF d cmd this] show ?thesis by auto
qed

section \<open>The invariants across a posting\<close>

lemma posted_row_simps [simp]:
  "t_ID (posted_row env cmd stamp) = ae_transferID env"
  "t_SourceAccountID (posted_row env cmd stamp) = c_SourceAccountID cmd"
  "t_DestinationAccountID (posted_row env cmd stamp) = c_DestinationAccountID cmd"
  "t_AmountMinor (posted_row env cmd stamp) = c_AmountMinor cmd"
  "t_Currency (posted_row env cmd stamp) = c_Currency cmd"
  "t_Status (posted_row env cmd stamp) = StatusCompleted"
  "t_CompletedAt (posted_row env cmd stamp) = Some (ae_now env)"
  "t_idempotency_key (posted_row env cmd stamp) = keyOrNil stamp"
  "t_request_fingerprint (posted_row env cmd stamp) = fingerprintOrNil stamp"
  by (simp_all add: posted_row_def complete_row_def)

lemma posted_db_simps [simp]:
  "accounts (posted_db env cmd stamp d) = map (moved cmd (ae_now env)) (accounts d)"
  "transfers (posted_db env cmd stamp d) = transfers d @ [posted_row env cmd stamp]"
  "ledger_entries (posted_db env cmd stamp d) = ledger_entries d @ new_entries env cmd"
  by (simp_all add: posted_db_def)

lemma check_posted_row:
  "check_transfer (new_transfer_row env cmd stamp) = None \<Longrightarrow> check_transfer (posted_row env cmd stamp) = None"
  by (auto simp: check_transfer_def split: if_splits)

lemma moved_ok:
  assumes d: "db_ok d" and cmd: "valid_cmd cmd" and can: "can_post env cmd stamp d" and x: "x \<in> set (accounts d)"
  shows "check_account (moved cmd now x) = None \<and> in_int64 (a_BalanceMinor (moved cmd now x))"
proof -
  obtain a b where ab: "sql_select_account (c_SourceAccountID cmd) d = Some a"
      "sql_select_account (c_DestinationAccountID cmd) d = Some b"
      "c_AmountMinor cmd \<le> a_BalanceMinor a" "in_int64 (a_BalanceMinor b + c_AmountMinor cmd)"
    using can by (rule can_postD)
  have "x = a" if "a_ID x = c_SourceAccountID cmd"
    using that ab(1) x by (metis option.inject sql_select_account_iff [OF d])
  moreover have "x = b" if "a_ID x = c_DestinationAccountID cmd"
    using that ab(2) x by (metis option.inject sql_select_account_iff [OF d])
  ultimately show ?thesis
    using check_accountD [OF d x] db_ok_nonneg [OF d x] ab(3,4) valid_cmdD [OF cmd]
    by (auto simp: moved_def check_account_def in_int64_def split: if_splits)
qed

lemma accounts_ok_posted:
  assumes "db_ok d" and "valid_cmd cmd" and "can_post env cmd stamp d"
  shows "accounts_ok (posted_db env cmd stamp d)"
  using db_ok_accounts [OF assms(1)] moved_ok [OF assms]
  by (auto simp: accounts_ok_def comp_def)

lemma transfers_ok_posted:
  assumes d: "db_ok d" and can: "can_post env cmd stamp d"
  shows "transfers_ok (posted_db env cmd stamp d)"
proof -
  obtain a b where ab: "sql_select_account (c_SourceAccountID cmd) d = Some a"
      "sql_select_account (c_DestinationAccountID cmd) d = Some b"
      "check_transfer (new_transfer_row env cmd stamp) = None"
      "ae_transferID env \<notin> t_ID ` set (transfers d)"
      "keyOrNil stamp = None \<or> keyOrNil stamp \<notin> t_idempotency_key ` set (transfers d)"
    using can by (rule can_postD)
  have "c_SourceAccountID cmd \<in> a_ID ` set (accounts d)" "c_DestinationAccountID cmd \<in> a_ID ` set (accounts d)"
    using ab(1,2) by (metis option.distinct(1) sql_select_account_None)+
  with ab(3-5) d show ?thesis
    by (auto simp: transfers_ok_def db_ok_def schema_ok_def check_posted_row image_image)
qed

lemma entries_ok_posted:
  assumes d: "db_ok d" and cmd: "valid_cmd cmd" and can: "can_post env cmd stamp d"
  shows "entries_ok (posted_db env cmd stamp d)"
proof -
  obtain a b where ab: "sql_select_account (c_SourceAccountID cmd) d = Some a"
      "sql_select_account (c_DestinationAccountID cmd) d = Some b"
      "ae_transferID env \<notin> t_ID ` set (transfers d)"
      "ae_debitID env \<noteq> ae_creditID env" "ae_debitID env \<notin> e_ID ` set (ledger_entries d)"
      "ae_creditID env \<notin> e_ID ` set (ledger_entries d)"
    using can by (rule can_postD)
  have "c_SourceAccountID cmd \<in> a_ID ` set (accounts d)" "c_DestinationAccountID cmd \<in> a_ID ` set (accounts d)"
    using ab(1,2) by (metis option.distinct(1) sql_select_account_None)+
  moreover have "e_TransferID e \<noteq> ae_transferID env" if "e \<in> set (ledger_entries d)" for e
    using that entries_of_fresh [OF d ab(3)] by (auto simp: entries_of_def filter_empty_conv)
  ultimately show ?thesis
    using ab(4-6) d valid_cmdD [OF cmd]
    by (auto simp: entries_ok_def db_ok_def schema_ok_def new_entries_def check_entry_def image_image)
qed

lemma ledger_ok_posted:
  assumes d: "db_ok d" and cmd: "valid_cmd cmd" and fresh: "ae_transferID env \<notin> t_ID ` set (transfers d)"
  shows "ledger_ok (posted_db env cmd stamp d)"
proof -
  have "entries_of (t_ID t) (posted_db env cmd stamp d) = entries_of (t_ID t) d" if "t \<in> set (transfers d)" for t
    using that fresh by (auto simp: entries_of_def new_entries_def)
  moreover have "posted_legs (posted_row env cmd stamp) (new_entries env cmd)"
    using valid_cmdD [OF cmd] by (simp add: new_entries_def)
  ultimately show ?thesis
    using d entries_of_posted [OF d fresh] by (auto simp: ledger_ok_def db_ok_def)
qed

lemma db_ok_posted:
  assumes "db_ok d" and "valid_cmd cmd" and "can_post env cmd stamp d"
  shows "db_ok (posted_db env cmd stamp d)"
  using accounts_ok_posted [OF assms] transfers_ok_posted [OF assms(1,3)] entries_ok_posted [OF assms]
    ledger_ok_posted [OF assms(1,2)] assms(3)
  by (simp add: db_ok_def schema_ok_def can_post_def)

lemma extends_posted: "extends d (posted_db env cmd stamp d)"
  by (simp add: extends_def comp_def)

lemma sql_select_account_posted:
  "sql_select_account i (posted_db env cmd stamp d) = map_option (moved cmd (ae_now env)) (sql_select_account i d)"
  by (simp add: sql_select_account_def find_map comp_def)

lemma unexplained_posted:
  assumes "valid_cmd cmd"
  shows "unexplained (posted_db env cmd stamp d) = unexplained d"
proof
  fix i
  show "unexplained (posted_db env cmd stamp d) i = unexplained d i"
    using valid_cmdD [OF assms] sql_select_account_ID [of i d]
    by (auto simp: unexplained_def sql_select_account_posted account_ledger_def new_entries_def
        sum_amounts_def moved_def split: option.splits)
qed

lemma currency_total_posted:
  assumes d: "db_ok d" and cmd: "valid_cmd cmd" and can: "can_post env cmd stamp d"
  shows "currency_total c (posted_db env cmd stamp d) = currency_total c d"
proof -
  let ?as = "filter (\<lambda>a. a_Currency a = c) (accounts d)"
  let ?s = "c_SourceAccountID cmd" and ?t = "c_DestinationAccountID cmd" and ?n = "c_AmountMinor cmd"
  obtain a b where ab: "sql_select_account ?s d = Some a" "sql_select_account ?t d = Some b"
      "a_Currency a = c_Currency cmd" "a_Currency b = c_Currency cmd"
    using can by (rule can_postD)
  have in_iff: "?s \<in> a_ID ` set ?as \<longleftrightarrow> ?t \<in> a_ID ` set ?as"
    using ab d by (auto simp: sql_select_account_iff image_iff) (metis ab(1,2) option.inject sql_select_account_iff)+
  have "distinct (map a_ID ?as)"
    using db_ok_accounts [OF d] by (simp add: distinct_map_filter)
  note key = sum_list_key [OF this]
  have "currency_total c (posted_db env cmd stamp d) = sum_list (map (\<lambda>a. a_BalanceMinor (moved cmd (ae_now env) a)) ?as)"
    by (simp add: currency_total_def filter_map comp_def)
  also have "\<dots> = sum_list (map (\<lambda>a. a_BalanceMinor a + (if a_ID a = ?s then - ?n else 0) + (if a_ID a = ?t then ?n else 0)) ?as)"
    using valid_cmdD(5) [OF cmd] by (intro arg_cong [of _ _ sum_list] map_cong) (auto simp: moved_def)
  also have "\<dots> = currency_total c d"
    using key [of ?s "- ?n"] key [of ?t ?n] in_iff by (simp add: sum_list_addf currency_total_def)
  finally show ?thesis .
qed

section \<open>The posting as a ledger writer\<close>

text \<open>An input of one attempt: its environment, the command and the stamp.\<close>

definition attempt_op ::
  "attempt_env \<times> Command \<times> idempotencyStamp option \<Rightarrow> db \<Rightarrow> Transfer result \<times> db" where
  "attempt_op i d = (case i of (env, cmd, stamp) \<Rightarrow> postOnce env cmd stamp d)"

lemma postOnce_state:
  assumes "db_ok d" and "valid_cmd cmd"
  shows "snd (postOnce env cmd stamp d) = d
    \<or> can_post env cmd stamp d \<and> snd (postOnce env cmd stamp d) = posted_db env cmd stamp d"
  using postOnce_cases [OF assms, of env stamp] by (metis prod.collapse)

lemma well_behaved_postOnce:
  assumes "valid_cmd cmd"
  shows "well_behaved (\<lambda>d. snd (postOnce env cmd stamp d))"
  unfolding well_behaved_def
proof (intro allI impI)
  fix d
  assume "db_ok d"
  with postOnce_state [OF this assms, of env stamp] assms
  show "db_ok (snd (postOnce env cmd stamp d)) \<and> extends d (snd (postOnce env cmd stamp d))
      \<and> unexplained (snd (postOnce env cmd stamp d)) = unexplained d
      \<and> (\<forall>c. currency_total c (snd (postOnce env cmd stamp d)) = currency_total c d)"
    by (auto simp: db_ok_posted extends_posted unexplained_posted currency_total_posted)
qed

interpretation attempt: ledger_writer attempt_op "\<lambda>(env, cmd, stamp). valid_cmd cmd"
  by unfold_locales (auto simp: attempt_op_def well_behaved_postOnce)

end
