(* ===== verification/PostRetry.thy ===== *)
theory PostRetry
  imports Posting
begin

text \<open>
  The retried posting as a whole.  Between two attempts other sessions may commit
  (\<open>others_steps\<close>); apart from that a call posts its command at most once, and it posts it
  whenever it reports success.  The second part classifies refusals: \<open>refusal\<close> is the reason,
  if any, for which the ledger must turn a command down, and the transaction turns it down for
  exactly that reason, without a retry and without a trace.
\<close>

section \<open>What happens between attempts\<close>

inductive others_steps :: "(db \<Rightarrow> db) set \<Rightarrow> db \<Rightarrow> db \<Rightarrow> bool" for F where
  others_refl: "others_steps F d d"
| others_step: "others_steps F d d' \<Longrightarrow> f \<in> F \<Longrightarrow> others_steps F d (f d')"

definition others_of :: "(int \<Rightarrow> attempt_env) \<Rightarrow> (db \<Rightarrow> db) set" where
  "others_of env = range (\<lambda>n. ae_others (env n))"

text \<open>
  The environments considered: what other sessions commit is well behaved, as every operation
  of this program is, and a COMMIT whose acknowledgement was lost is not reported as one of the
  two retryable SQLSTATEs (PostgreSQL reports those only for transactions it has rolled back).
\<close>

definition env_ok :: "(int \<Rightarrow> attempt_env) \<Rightarrow> bool" where
  "env_ok env \<longleftrightarrow> (\<forall>f \<in> others_of env. well_behaved f)
     \<and> (\<forall>n err. ae_commit (env n) = LostAck err \<longrightarrow> \<not> retryable err)"

lemma others_steps_trans: "others_steps F d2 d3 \<Longrightarrow> others_steps F d1 d2 \<Longrightarrow> others_steps F d1 d3"
  by (induction rule: others_steps.induct) (auto intro: others_steps.intros)

lemma others_steps_mono: "others_steps F d d' \<Longrightarrow> F \<subseteq> G \<Longrightarrow> others_steps G d d'"
  by (induction rule: others_steps.induct) (auto intro: others_steps.intros)

lemma others_steps_one: "f \<in> F \<Longrightarrow> others_steps F d (f d)"
  by (rule others_step [OF others_refl])

lemma others_steps_keep:
  "others_steps F d d' \<Longrightarrow> (\<forall>f \<in> F. well_behaved f) \<Longrightarrow> db_ok d \<Longrightarrow>
     db_ok d' \<and> extends d d' \<and> unexplained d' = unexplained d
     \<and> (\<forall>c. currency_total c d' = currency_total c d)"
  by (induction rule: others_steps.induct) (auto simp: well_behavedD intro: extends_trans)

lemma retryable_wrap [simp]: "retryable (Errorf f as [err]) = retryable err"
  by (cases "errors_as_pg err") (simp_all add: retryableCode_def)

lemma postOnce_failed_state:
  assumes "postOnce env cmd stamp d = (Inl err, d')"
  shows "d' = d \<or> (\<exists>e. ae_commit env = LostAck e \<and> err = Errorf ''transfer: commit: %w'' [] [e])"
  using assms
  by (auto simp: postOnce_def Let_def split: option.splits sum.splits fault.splits prod.splits)

interpretation posting: retried "attempt_once env cmd stamp" "\<lambda>d d'. env_ok env \<longrightarrow> others_steps (others_of env) d d'"
  for env cmd stamp
proof unfold_locales
  fix n d err d'
  assume once: "attempt_once env cmd stamp n d = (Inl err, d')" and "retryable err"
  show "env_ok env \<longrightarrow> others_steps (others_of env) d d'"
  proof
    assume env: "env_ok env"
    have "d' = ae_others (env n) d"
      using postOnce_failed_state [OF once [unfolded attempt_once_def]] env \<open>retryable err\<close>
      by (auto simp: env_ok_def)
    then show "others_steps (others_of env) d d'" by (auto simp: others_of_def intro: others_steps_one)
  qed
qed (auto intro: others_refl others_steps_trans)

section \<open>The whole call\<close>

text \<open>A call as the caller and the database see it: \<open>d\<close> is the database it starts from and
  \<open>d0\<close> what other sessions make of it; \<open>None\<close> for the environment means nothing was posted.\<close>

definition call_outcome ::
  "(int \<Rightarrow> attempt_env) \<Rightarrow> Command \<Rightarrow> idempotencyStamp option \<Rightarrow> db \<Rightarrow> Transfer result \<Rightarrow> db \<Rightarrow> bool" where
  "call_outcome env cmd stamp d r d' \<longleftrightarrow>
     (\<exists>d0. others_steps (others_of env) d d0 \<and>
       ((\<exists>err. r = Inl err) \<and> d' = d0
        \<or> (\<exists>n. can_post (env n) cmd stamp d0 \<and> d' = posted_db (env n) cmd stamp d0
             \<and> (r = Inr (Transfer.truncate (posted_row (env n) cmd stamp))
                \<or> (\<exists>err e. r = Inl err \<and> ae_commit (env n) = LostAck e)))))"

lemma postWithRetry_outcome:
  assumes d: "db_ok d" and env: "env_ok env" and amount: "c_AmountMinor cmd < 2 ^ 63"
    and call: "postWithRetry p env cmd stamp d = (r, a, d')"
  shows "call_outcome env cmd stamp d r d'"
proof (cases "Command_Validate cmd")
  case (Some err)
  with call show ?thesis by (auto simp: postWithRetry_def call_outcome_def intro: others_refl)
next
  case None
  then have cmd: "valid_cmd cmd" using amount by (simp add: valid_cmd_def)
  have "\<exists>m d0 r0. 1 \<le> m \<and> (env_ok env \<longrightarrow> others_steps (others_of env) d d0)
      \<and> attempt_once env cmd stamp m d0 = (r0, d') \<and> last_attempt r r0"
    using call None by (intro posting.loop_last) (simp add: postWithRetry_def)
  then obtain m d0 r0 where steps: "others_steps (others_of env) d d0"
      and once: "postOnce (env m) cmd stamp (ae_others (env m) d0) = (r0, d')" and r: "last_attempt r r0"
    using env by (auto simp: attempt_once_def)
  let ?d0 = "ae_others (env m) d0"
  have steps': "others_steps (others_of env) d ?d0"
    using steps by (rule others_step) (simp add: others_of_def)
  then have "db_ok ?d0" using others_steps_keep env d by (auto simp: env_ok_def)
  from postOnce_cases [OF this cmd once] steps' r show ?thesis
    unfolding call_outcome_def
    by (cases r) (auto intro!: exI [of _ ?d0] intro: exI [of _ m])
qed

lemma call_outcome_keeps:
  assumes "call_outcome env cmd stamp d r d'" and d: "db_ok d" and env: "env_ok env" and cmd: "valid_cmd cmd"
  shows "db_ok d' \<and> extends d d' \<and> unexplained d' = unexplained d
     \<and> (\<forall>c. currency_total c d' = currency_total c d)"
proof -
  obtain d0 where "others_steps (others_of env) d d0"
      and d': "d' = d0 \<or> (\<exists>n. can_post (env n) cmd stamp d0 \<and> d' = posted_db (env n) cmd stamp d0)"
    using assms(1) by (auto simp: call_outcome_def)
  moreover from this have d0: "db_ok d0 \<and> extends d d0 \<and> unexplained d0 = unexplained d
     \<and> (\<forall>c. currency_total c d0 = currency_total c d)"
    using others_steps_keep d env by (simp add: env_ok_def)
  ultimately show ?thesis
    using cmd
    by (auto simp: db_ok_posted unexplained_posted currency_total_posted intro: extends_trans [OF _ extends_posted])
qed

text \<open>A rejected command is not retried: it reaches the caller as it is, after one attempt.\<close>

lemma postWithRetry_reject:
  assumes "Command_Validate cmd = None" and "attempt_once env cmd stamp 1 d = (Inl err, d')" and "\<not> retryable err"
  shows "postWithRetry p env cmd stamp d = (Inl err, no_attempts\<lparr>at_Total := 1\<rparr>, d')"
  using assms by (simp add: postWithRetry_def retry_loop_reject)

text \<open>
  The databases successive attempts work on when all of them are lost: \<open>others_upto env n d\<close> is \<open>d\<close> with what
  other sessions committed before the attempts \<open>1\<close> to \<open>n\<close>.
\<close>

primrec others_upto :: "(int \<Rightarrow> attempt_env) \<Rightarrow> nat \<Rightarrow> db \<Rightarrow> db" where
  "others_upto env 0 d = d"
| "others_upto env (Suc n) d = ae_others (env (int (Suc n))) (others_upto env n d)"

lemma others_upto_next: "1 \<le> n \<Longrightarrow> others_upto env (nat n) d = ae_others (env n) (others_upto env (nat (n - 1)) d)"
  by (cases n rule: int_cases) (auto simp: nat_diff_distrib gr0_conv_Suc elim!: Suc_le_D [THEN exE])

lemma others_upto_steps: "others_steps (others_of env) d (others_upto env n d)"
  by (induction n) (auto simp: others_of_def intro: others_refl others_step)

lemma attempt_lost:
  assumes "env_ok env" and "1 \<le> n" and "fst (attempt_once env cmd stamp n (others_upto env (nat (n - 1)) d)) = Inl err" and "retryable err"
  shows "attempt_once env cmd stamp n (others_upto env (nat (n - 1)) d) = (Inl err, others_upto env (nat n) d)"
proof -
  obtain d' where once: "attempt_once env cmd stamp n (others_upto env (nat (n - 1)) d) = (Inl err, d')"
    using assms(3) by (cases "attempt_once env cmd stamp n (others_upto env (nat (n - 1)) d)") auto
  with postOnce_failed_state [OF once [unfolded attempt_once_def]] assms(1,4) show ?thesis
    by (auto simp: env_ok_def others_upto_next [OF assms(2)])
qed

section \<open>Refusals\<close>

definition refusal :: "Command \<Rightarrow> db \<Rightarrow> sentinel option" where
  "refusal cmd d =
     (let s = c_SourceAccountID cmd; t = c_DestinationAccountID cmd in
      case (sql_select_account s d, sql_select_account t d) of
        (None, Some _) \<Rightarrow> Some transfer_ErrSourceAccountNotFound
      | (Some _, None) \<Rightarrow> Some transfer_ErrDestinationAccountNotFound
      | (None, None) \<Rightarrow>
          Some (if s \<le> t then transfer_ErrSourceAccountNotFound else transfer_ErrDestinationAccountNotFound)
      | (Some a, Some b) \<Rightarrow>
          if a_Currency a \<noteq> c_Currency cmd \<or> a_Currency b \<noteq> c_Currency cmd
          then Some transfer_ErrCurrencyMismatch
          else if a_BalanceMinor a < c_AmountMinor cmd then Some transfer_ErrInsufficientFunds
          else None)"

lemma lockOrder_eq: "lockOrder a b = (min a b, max a b)"
  by (auto simp: lockOrder_def bytes_compare_uuid uuid_le_iff min_def max_def)

lemma lockAccounts_missing:
  assumes "i \<noteq> j" and "flt StmtLockFirst = None" and "flt StmtLockSecond = None"
    and "sql_select_account i (tx_db tx) = None \<or> sql_select_account j (tx_db tx) = None"
  shows "lockAccounts flt i j tx = Inl (
    if sql_select_account i (tx_db tx) = None \<and> (i \<le> j \<or> sql_select_account j (tx_db tx) \<noteq> None)
    then Errorf ''%w: %s'' [AUuid i] [Sentinel transfer_ErrSourceAccountNotFound]
    else Errorf ''%w: %s'' [AUuid j] [Sentinel transfer_ErrDestinationAccountNotFound])"
  using assms
  by (auto simp: lockAccounts_def lockOrder_eq min_def max_def lockAccount_def missingAccountError_def Let_def
      split: option.splits)

lemma post_refused:
  assumes cmd: "valid_cmd cmd" and k: "refusal cmd d = Some k"
    and "ae_fault env StmtLockFirst = None" and "ae_fault env StmtLockSecond = None"
  shows "\<exists>f as. post env cmd stamp (begin_tx d) = Inl (Errorf f as [Sentinel k])"
proof (cases "sql_select_account (c_SourceAccountID cmd) d = None \<or> sql_select_account (c_DestinationAccountID cmd) d = None")
  case True
  with lockAccounts_missing [of "c_SourceAccountID cmd" "c_DestinationAccountID cmd" "ae_fault env" "begin_tx d"]
    valid_cmdD(5) [OF cmd] assms(3,4) k
  show ?thesis by (auto simp: post_def refusal_def Let_def split: if_splits option.splits)
next
  case False
  then obtain a b where "sql_select_account (c_SourceAccountID cmd) d = Some a"
      "sql_select_account (c_DestinationAccountID cmd) d = Some b" by auto
  with k lockAccounts_roles [of _ "begin_tx d" a _ b "ae_fault env"] valid_cmdD(5) [OF cmd] assms(3,4)
  show ?thesis by (auto simp: post_def refusal_def as_account_def Let_def split: if_splits)
qed

lemma postOnce_refused:
  assumes "valid_cmd cmd" and "refusal cmd d = Some k" and "\<And>s. ae_fault env s = None"
  shows "\<exists>f as. postOnce env cmd stamp d = (Inl (Errorf f as [Sentinel k]), d)"
  using post_refused [OF assms(1,2), of env stamp] assms(3) by (auto simp: postOnce_def)

lemma postOnce_accepted:
  assumes "db_ok d" and "valid_cmd cmd" and "can_post env cmd stamp d"
    and "\<And>s. ae_fault env s = None" and "ae_commit env = NoFault"
  shows "postOnce env cmd stamp d = (Inr (Transfer.truncate (posted_row env cmd stamp)), posted_db env cmd stamp d)"
  using post_succeeds [OF assms(1-4)] postOnce_posts [OF assms(1,2)] assms(4,5) by auto

text \<open>The ids of a posting are new and the new rows pass the checks: what \<^verbatim>\<open>uuid.New()\<close> and a
  fresh idempotency key provide.\<close>

definition fresh_rows :: "attempt_env \<Rightarrow> Command \<Rightarrow> idempotencyStamp option \<Rightarrow> db \<Rightarrow> bool" where
  "fresh_rows env cmd stamp d \<longleftrightarrow>
     check_transfer (new_transfer_row env cmd stamp) = None
     \<and> ae_transferID env \<notin> t_ID ` set (transfers d)
     \<and> (keyOrNil stamp = None \<or> keyOrNil stamp \<notin> t_idempotency_key ` set (transfers d))
     \<and> ae_debitID env \<noteq> ae_creditID env
     \<and> ae_debitID env \<notin> e_ID ` set (ledger_entries d)
     \<and> ae_creditID env \<notin> e_ID ` set (ledger_entries d)"

definition credit_fits :: "Command \<Rightarrow> db \<Rightarrow> bool" where
  "credit_fits cmd d \<longleftrightarrow>
     (case sql_select_account (c_DestinationAccountID cmd) d of
        None \<Rightarrow> True | Some b \<Rightarrow> in_int64 (a_BalanceMinor b + c_AmountMinor cmd))"

lemma can_post_iff:
  "can_post env cmd stamp d \<longleftrightarrow> refusal cmd d = None \<and> credit_fits cmd d \<and> fresh_rows env cmd stamp d"
  by (auto simp: can_post_def refusal_def credit_fits_def fresh_rows_def Let_def not_less split: option.splits)

end
