(* ===== verification/GoStrings.thy ===== *)
theory GoStrings
  imports Prelude
begin

text \<open>
  The functions of the standard package \<^verbatim>\<open>strings\<close> that the program uses, on byte strings: a
  string is cut into the segments its runes are decoded from, and white space is
  \<^verbatim>\<open>unicode.IsSpace\<close>.
\<close>

section \<open>Segments\<close>

function segments :: "string \<Rightarrow> (nat \<times> string) list" where
  "segments [] = []"
| "segments (c # cs) =
     (case decode_bytes (map byte_of (c # cs)) of
        None \<Rightarrow> (65533, [c]) # segments cs
      | Some (r, n) \<Rightarrow> (r, c # take (n - 1) cs) # segments (drop (n - 1) cs))"
  by pat_completeness auto
termination
  by (relation "measure length") auto

definition IsSpace :: "nat \<Rightarrow> bool" where
  "IsSpace r \<longleftrightarrow> 9 \<le> r \<and> r \<le> 13 \<or> r = 32 \<or> r = 133 \<or> r = 160 \<or> r = 5760 \<or> 8192 \<le> r \<and> r \<le> 8202
     \<or> r = 8232 \<or> r = 8233 \<or> r = 8239 \<or> r = 8287 \<or> r = 12288"

abbreviation space_seg :: "nat \<times> string \<Rightarrow> bool" where
  "space_seg x \<equiv> IsSpace (fst x)"

definition join_segs :: "(nat \<times> string) list \<Rightarrow> string" where
  "join_segs xs = concat (map snd xs)"

section \<open>Functions\<close>

definition TrimSpace :: "string \<Rightarrow> string" where
  "TrimSpace s = join_segs (rev (dropWhile space_seg (rev (dropWhile space_seg (segments s)))))"

fun fields_loop :: "(nat \<times> string) list \<Rightarrow> string \<Rightarrow> string list" where
  "fields_loop [] cur = (if cur = [] then [] else [cur])"
| "fields_loop (x # xs) cur =
     (if space_seg x then (if cur = [] then fields_loop xs [] else cur # fields_loop xs [])
      else fields_loop xs (cur @ snd x))"

definition Fields :: "string \<Rightarrow> string list" where
  "Fields s = fields_loop (segments s) []"

definition HasPrefix :: "string \<Rightarrow> string \<Rightarrow> bool" where
  "HasPrefix s prefix \<longleftrightarrow> length prefix \<le> length s \<and> take (length prefix) s = prefix"

text \<open>ASCII lower case.  No rune outside ASCII folds to a letter of the one text the program
  compares with \<^verbatim>\<open>strings.EqualFold\<close> (\<^verbatim>\<open>bearer \<close>), so on it folding is this.\<close>

definition ascii_lower :: "char \<Rightarrow> char" where
  "ascii_lower c = (let b = byte_of c in if 65 \<le> b \<and> b \<le> 90 then char_of (b + 32) else c)"

definition EqualFold :: "string \<Rightarrow> string \<Rightarrow> bool" where
  "EqualFold s t \<longleftrightarrow> map ascii_lower s = map ascii_lower t"

definition ContainsAny :: "string \<Rightarrow> char list \<Rightarrow> bool" where
  "ContainsAny s cs \<longleftrightarrow> list_ex (\<lambda>c. c \<in> set cs) s"

fun Split_loop :: "char \<Rightarrow> string \<Rightarrow> string \<Rightarrow> string list" where
  "Split_loop sep [] cur = [cur]"
| "Split_loop sep (c # cs) cur = (if c = sep then cur # Split_loop sep cs [] else Split_loop sep cs (cur @ [c]))"

definition Split :: "string \<Rightarrow> char \<Rightarrow> string list" where
  "Split s sep = Split_loop sep s []"

section \<open>Facts\<close>

lemma join_segs_Cons: "join_segs (x # xs) = snd x @ join_segs xs"
  by (simp add: join_segs_def)

lemma join_segs_append: "join_segs (xs @ ys) = join_segs xs @ join_segs ys"
  by (simp add: join_segs_def)

lemma join_segments: "join_segs (segments s) = s"
proof (induction s rule: segments.induct)
  case (2 c cs)
  then show ?case
    by (cases "decode_bytes (map byte_of (c # cs))")
      (auto simp: join_segs_Cons simp del: decode_bytes.simps split: prod.splits)
qed (simp add: join_segs_def)

text \<open>Trimming removes a prefix and a suffix.\<close>

lemma TrimSpace_within: "\<exists>pre post. s = pre @ TrimSpace s @ post"
proof -
  let ?a = "takeWhile space_seg (segments s)" and ?b = "dropWhile space_seg (segments s)"
  let ?c = "dropWhile space_seg (rev ?b)" and ?e = "takeWhile space_seg (rev ?b)"
  have "segments s = ?a @ rev (?e @ ?c)" by simp
  then have "segments s = ?a @ rev ?c @ rev ?e" by (simp only: rev_append)
  then have "s = join_segs ?a @ TrimSpace s @ join_segs (rev ?e)"
    by (metis TrimSpace_def join_segments join_segs_append)
  then show ?thesis by blast
qed

lemma TrimSpace_set: "set (TrimSpace s) \<subseteq> set s"
proof -
  obtain pre post where "s = pre @ TrimSpace s @ post" using TrimSpace_within by blast
  then show ?thesis by (metis set_append Un_upper1 Un_upper2 order_trans)
qed

lemma fields_loop_nonempty: "f \<in> set (fields_loop xs cur) \<Longrightarrow> (\<forall>x \<in> set xs. snd x \<noteq> []) \<Longrightarrow> f \<noteq> []"
  by (induction xs cur rule: fields_loop.induct) (auto split: if_splits)

lemma segments_nonempty: "x \<in> set (segments s) \<Longrightarrow> snd x \<noteq> []"
proof (induction s rule: segments.induct)
  case (2 c cs)
  then show ?case
    by (cases "decode_bytes (map byte_of (c # cs))")
      (auto simp del: decode_bytes.simps split: prod.splits)
qed simp

lemma Fields_nonempty: "f \<in> set (Fields s) \<Longrightarrow> f \<noteq> []"
  unfolding Fields_def using fields_loop_nonempty segments_nonempty by blast

end
