(* ===== verification/IdemKey.thy ===== *)
theory IdemKey
  imports GoStrings
begin

text \<open>
  Idempotency keys (\<^verbatim>\<open>src/internal/idempotency/key.go\<close>): validation of a client-supplied key
  and the Redis key it is stored under.
\<close>

type_synonym Key = string

definition MinKeyLength :: nat where "MinKeyLength = 1"
definition MaxKeyLength :: nat where "MaxKeyLength = 255"

definition ParseKey :: "string \<Rightarrow> Key result" where
  "ParseKey s =
     (if length s < MinKeyLength then
        Inl (Errorf ''%w: key must not be empty'' [] [Sentinel idempotency_ErrInvalidKey])
      else if length s > MaxKeyLength then
        Inl (Errorf ''%w: key is %d bytes, the maximum is %d''
               [AInt (int (length s)), AInt (int MaxKeyLength)] [Sentinel idempotency_ErrInvalidKey])
      else if \<not> valid_string s then
        Inl (Errorf ''%w: key is not valid UTF-8'' [] [Sentinel idempotency_ErrInvalidKey])
      else if list_ex (\<lambda>r. r \<le> 32 \<or> r = 127) (runes s) then
        Inl (Errorf ''%w: key must not contain whitespace or control characters'' []
               [Sentinel idempotency_ErrInvalidKey])
      else Inr s)"

definition Key_String :: "Key \<Rightarrow> string" where
  "Key_String k = k"

definition redisKeyPrefix :: string where
  "redisKeyPrefix = ''idempotency:transfer:''"

definition RedisKey :: "Key \<Rightarrow> string" where
  "RedisKey k = redisKeyPrefix @ k"

section \<open>Facts\<close>

lemma length_runes_of_bytes: "length (runes_of_bytes bs) \<le> length bs"
proof (induction bs rule: runes_of_bytes.induct)
  case 1
  then show ?case by simp
next
  case (2 b bs)
  show ?case
  proof (cases "decode_bytes (b # bs)")
    case None
    with 2(1) show ?thesis by (simp del: decode_bytes.simps)
  next
    case (Some p)
    obtain r n where p: "p = (r, n)" by (cases p)
    have "length (runes_of_bytes (drop (n - 1) bs)) \<le> length (drop (n - 1) bs)"
      using 2(2) Some p by blast
    then show ?thesis using Some p by (simp del: decode_bytes.simps)
  qed
qed

lemma runes_Nil_iff [simp]: "runes s = [] \<longleftrightarrow> s = []"
  by (cases s) (auto simp: runes_def split: option.splits simp del: decode_bytes.simps)

lemma ParseKey_Inr:
  "ParseKey s = Inr k \<longleftrightarrow>
     k = s \<and> 1 \<le> length s \<and> length s \<le> 255 \<and> valid_string s
     \<and> (\<forall>c \<in> set s. 32 < byte_of c \<and> byte_of c \<noteq> 127)"
proof -
  have "list_ex (\<lambda>r. r \<le> 32 \<or> r = 127) (runes s) \<longleftrightarrow> (\<exists>c \<in> set s. byte_of c \<le> 32 \<or> byte_of c = 127)"
    unfolding list_ex_iff by (rule runes_ex_ascii_iff) auto
  then show ?thesis
    by (auto simp: ParseKey_def MinKeyLength_def MaxKeyLength_def not_le not_less)
qed

lemma ParseKey_fits_column:
  "ParseKey s = Inr k \<Longrightarrow> 1 \<le> length (runes k) \<and> length (runes k) \<le> 255"
  using length_runes_of_bytes [of "map byte_of s"] runes_Nil_iff [of s]
  by (cases "runes s") (auto simp: ParseKey_Inr runes_def)

text \<open>
  The form of a key, by the classes of \<^verbatim>\<open>unicode.IsSpace\<close> and \<^verbatim>\<open>unicode.IsControl\<close>: as
  \<^verbatim>\<open>docs/IDEMPOTENCY.md\<close> words it, no white space or control character at all (\<open>documented_key\<close>), and
  restricted to the classes within ASCII (\<open>key_format\<close>).
\<close>

definition IsControl :: "nat \<Rightarrow> bool" where
  "IsControl r \<longleftrightarrow> r < 32 \<or> 127 \<le> r \<and> r < 160"

definition documented_key :: "string \<Rightarrow> bool" where
  "documented_key s \<longleftrightarrow> 1 \<le> length s \<and> length s \<le> 255 \<and> valid_string s
     \<and> \<not> list_ex (\<lambda>r. IsSpace r \<or> IsControl r) (runes s)"

definition key_format :: "string \<Rightarrow> bool" where
  "key_format s \<longleftrightarrow> 1 \<le> length s \<and> length s \<le> 255 \<and> valid_string s
     \<and> \<not> list_ex (\<lambda>r. r < 128 \<and> (IsSpace r \<or> IsControl r)) (runes s)"

lemma ParseKey_key_format: "ParseKey s = Inr k \<longleftrightarrow> k = s \<and> key_format s"
proof -
  have "(\<lambda>r. r \<le> 32 \<or> r = 127) = (\<lambda>r. r < 128 \<and> (IsSpace r \<or> IsControl r))"
    by (auto simp: IsSpace_def IsControl_def)
  then show ?thesis unfolding ParseKey_def key_format_def MinKeyLength_def MaxKeyLength_def
    by (auto simp: not_less Suc_le_eq)
qed

lemma documented_key_format: "documented_key s \<Longrightarrow> key_format s"
  by (auto simp: documented_key_def key_format_def list_ex_iff)

text \<open>The keys \<^verbatim>\<open>"\u0085"\<close> (next line, a control character) and \<^verbatim>\<open>"\u00a0"\<close> (no-break space).\<close>

definition undocumented_keys :: "string list" where
  "undocumented_keys = [[char_of (194 :: nat), char_of (133 :: nat)], [char_of (194 :: nat), char_of (160 :: nat)]]"

lemma undocumented_accepted: "s \<in> set undocumented_keys \<Longrightarrow> ParseKey s = Inr s \<and> \<not> documented_key s"
proof -
  have "list_all (\<lambda>s. ParseKey s = Inr s \<and> \<not> documented_key s) undocumented_keys" by code_simp
  then show "s \<in> set undocumented_keys \<Longrightarrow> ParseKey s = Inr s \<and> \<not> documented_key s" by (simp add: list_all_iff)
qed

text \<open>C22: \<^verbatim>\<open>ParseKey\<close> accepts exactly the valid UTF-8 strings of 1 to 255 bytes without an ASCII white-space
  or control character and returns them unchanged, so every accepted key fits the column that
  stores it; every refusal is \<^verbatim>\<open>ErrInvalidKey\<close>.  Every key of the documented form (no white space or
  control character of any kind) is accepted, but so are keys outside it: \<^verbatim>\<open>"\u0085"\<close> and \<^verbatim>\<open>"\u00a0"\<close>.\<close>

theorem ParseKey_spec:
  "(case ParseKey s of
      Inr k \<Rightarrow> k = s \<and> key_format s \<and> 1 \<le> length (runes k) \<and> length (runes k) \<le> 255
    | Inl err \<Rightarrow> errors_is err idempotency_ErrInvalidKey \<and> \<not> key_format s)
   \<and> {k. documented_key k} \<union> set undocumented_keys \<subseteq> {k. ParseKey k = Inr k}
   \<and> {k. documented_key k} \<inter> set undocumented_keys = {}"
proof -
  have "case ParseKey s of
      Inr k \<Rightarrow> k = s \<and> key_format s \<and> 1 \<le> length (runes k) \<and> length (runes k) \<le> 255
    | Inl err \<Rightarrow> errors_is err idempotency_ErrInvalidKey \<and> \<not> key_format s"
  proof (cases "ParseKey s")
    case (Inl err)
    then have "errors_is err idempotency_ErrInvalidKey" by (auto simp: ParseKey_def split: if_splits)
    with Inl ParseKey_key_format [of s s] show ?thesis by simp
  next
    case (Inr k)
    then show ?thesis using ParseKey_key_format [of s k] ParseKey_fits_column [OF Inr] by simp
  qed
  then show ?thesis using undocumented_accepted by (auto simp: ParseKey_key_format intro: documented_key_format)
qed

lemma RedisKey_inj: "RedisKey k = RedisKey k' \<longleftrightarrow> k = k'"
  by (simp add: RedisKey_def)

end
