(* ===== verification/Sha256.thy ===== *)
theory Sha256
  imports Prelude
begin

text \<open>
  SHA-256 (FIPS 180-4), the standard library function \<^verbatim>\<open>sha256.Sum256\<close> that fingerprints are
  computed with, over lists of bytes and 32-bit words.
\<close>

unbundle bit_operations_syntax

type_synonym w32 = "32 word"

text \<open>The round constants are the first 32 bits of the fractional parts of the cube roots of the first
  64 primes; the table pairs each prime with its constant.\<close>

definition cube_root_table :: "(int \<times> int) list" where
  "cube_root_table =
     [(2, 1116352408), (3, 1899447441), (5, 3049323471), (7, 3921009573), (11, 961987163), (13, 1508970993),
      (17, 2453635748), (19, 2870763221), (23, 3624381080), (29, 310598401), (31, 607225278), (37, 1426881987),
      (41, 1925078388), (43, 2162078206), (47, 2614888103), (53, 3248222580), (59, 3835390401), (61, 4022224774),
      (67, 264347078), (71, 604807628), (73, 770255983), (79, 1249150122), (83, 1555081692), (89, 1996064986),
      (97, 2554220882), (101, 2821834349), (103, 2952996808), (107, 3210313671), (109, 3336571891), (113, 3584528711),
      (127, 113926993), (131, 338241895), (137, 666307205), (139, 773529912), (149, 1294757372), (151, 1396182291),
      (157, 1695183700), (163, 1986661051), (167, 2177026350), (173, 2456956037), (179, 2730485921), (181, 2820302411),
      (191, 3259730800), (193, 3345764771), (197, 3516065817), (199, 3600352804), (211, 4094571909), (223, 275423344),
      (227, 430227734), (229, 506948616), (233, 659060556), (239, 883997877), (241, 958139571), (251, 1322822218),
      (257, 1537002063), (263, 1747873779), (269, 1955562222), (271, 2024104815), (277, 2227730452), (281, 2361852424),
      (283, 2428436474), (293, 2756734187), (307, 3204031479), (311, 3329325298)]"

definition K256 :: "w32 list" where
  "K256 = map (\<lambda>(p, k). word_of_int k) cube_root_table"

definition cube_root_row :: "int \<times> int \<Rightarrow> bool" where
  "cube_root_row r = (case r of (p, k) \<Rightarrow>
     list_ex (\<lambda>q. (q * 2 ^ 32 + k) ^ 3 \<le> p * 2 ^ 96 \<and> p * 2 ^ 96 < (q * 2 ^ 32 + k + 1) ^ 3) [1, 2, 3, 4, 5, 6])"

lemma cube_root_table_right: "list_all cube_root_row cube_root_table \<and> list_all (\<lambda>r. snd r < 2 ^ 32) cube_root_table"
  by code_simp

type_synonym hstate = "w32 \<times> w32 \<times> w32 \<times> w32 \<times> w32 \<times> w32 \<times> w32 \<times> w32"

definition H256 :: hstate where
  "H256 = (0x6a09e667, 0xbb67ae85, 0x3c6ef372, 0xa54ff53a, 0x510e527f, 0x9b05688c, 0x1f83d9ab, 0x5be0cd19)"

definition rotr :: "nat \<Rightarrow> w32 \<Rightarrow> w32" where
  "rotr n x = drop_bit n x OR push_bit (32 - n) x"

definition big_sigma0 :: "w32 \<Rightarrow> w32" where
  "big_sigma0 x = rotr 2 x XOR rotr 13 x XOR rotr 22 x"
definition big_sigma1 :: "w32 \<Rightarrow> w32" where
  "big_sigma1 x = rotr 6 x XOR rotr 11 x XOR rotr 25 x"
definition small_sigma0 :: "w32 \<Rightarrow> w32" where
  "small_sigma0 x = rotr 7 x XOR rotr 18 x XOR drop_bit 3 x"
definition small_sigma1 :: "w32 \<Rightarrow> w32" where
  "small_sigma1 x = rotr 17 x XOR rotr 19 x XOR drop_bit 10 x"
definition choice :: "w32 \<Rightarrow> w32 \<Rightarrow> w32 \<Rightarrow> w32" where
  "choice x y z = (x AND y) XOR (NOT x AND z)"
definition majority :: "w32 \<Rightarrow> w32 \<Rightarrow> w32 \<Rightarrow> w32" where
  "majority x y z = (x AND y) XOR (x AND z) XOR (y AND z)"

text \<open>Padding: a one bit, zeros up to 56 modulo 64, and the bit length in 8 bytes.\<close>

definition pad :: "byte list \<Rightarrow> byte list" where
  "pad m = m @ [0x80] @ replicate ((119 - length m mod 64) mod 64) 0
             @ be_bytes 8 (8 * length m)"

fun words_of :: "byte list \<Rightarrow> w32 list" where
  "words_of (a # b # c # d # bs) =
     (push_bit 24 (ucast a) OR push_bit 16 (ucast b) OR push_bit 8 (ucast c) OR ucast d) # words_of bs"
| "words_of _ = []"

text \<open>The message schedule, kept in reverse: the last sixteen words come first.\<close>

fun schedule :: "nat \<Rightarrow> w32 list \<Rightarrow> w32 list" where
  "schedule 0 ws = rev ws"
| "schedule (Suc n) ws =
     schedule n ((small_sigma1 (ws ! 1) + ws ! 6 + small_sigma0 (ws ! 14) + ws ! 15) # ws)"

fun sha_round :: "hstate \<Rightarrow> w32 \<times> w32 \<Rightarrow> hstate" where
  "sha_round (a, b, c, d, e, f, g, h) (k, w) =
     (let t1 = h + big_sigma1 e + choice e f g + k + w;
          t2 = big_sigma0 a + majority a b c in
      (t1 + t2, a, b, c, d + t1, e, f, g))"

fun add_state :: "hstate \<Rightarrow> hstate \<Rightarrow> hstate" where
  "add_state (a, b, c, d, e, f, g, h) (a', b', c', d', e', f', g', h') =
     (a + a', b + b', c + c', d + d', e + e', f + f', g + g', h + h')"

definition compress :: "hstate \<Rightarrow> byte list \<Rightarrow> hstate" where
  "compress h block =
     add_state h (foldl sha_round h (zip K256 (schedule 48 (rev (words_of block)))))"

function blocks :: "byte list \<Rightarrow> byte list list" where
  "blocks bs = (if bs = [] then [] else take 64 bs # blocks (drop 64 bs))"
  by pat_completeness auto
termination
  by (relation "measure length") auto

declare blocks.simps [simp del]

definition word_bytes :: "w32 \<Rightarrow> byte list" where
  "word_bytes w = [ucast (drop_bit 24 w), ucast (drop_bit 16 w), ucast (drop_bit 8 w), ucast w]"

fun digest :: "hstate \<Rightarrow> byte list" where
  "digest (a, b, c, d, e, f, g, h) = concat (map word_bytes [a, b, c, d, e, f, g, h])"

definition Sum256 :: "byte list \<Rightarrow> byte list" where
  "Sum256 m = digest (foldl compress H256 (blocks (pad m)))"

section \<open>Facts\<close>

lemma length_Sum256 [simp]: "length (Sum256 m) = 32"
  by (cases "foldl compress H256 (blocks (pad m))" rule: digest.cases)
    (simp add: Sum256_def word_bytes_def)

text \<open>A padded message consists of whole blocks, so every schedule starts from sixteen words.\<close>

lemma length_pad: "length (pad m) mod 64 = 0"
proof -
  define r where "r = length m mod 64"
  have r: "r < 64" by (simp add: r_def)
  have "(119 - r) mod 64 = (if r \<le> 55 then 55 - r else 119 - r)"
    using r by (auto simp: mod_if)
  then have "(r + (9 + (119 - r) mod 64)) mod 64 = 0"
    using r by auto
  then have "(length m + (9 + (119 - r) mod 64)) mod 64 = 0"
    unfolding r_def by (simp add: mod_simps)
  then show ?thesis by (simp add: pad_def r_def)
qed

lemma length_words_of: "length (words_of bs) = length bs div 4"
  by (induction bs rule: words_of.induct) auto

lemma blocks_full:
  "length bs mod 64 = 0 \<Longrightarrow> b \<in> set (blocks bs) \<Longrightarrow> length b = 64"
proof (induction bs rule: blocks.induct)
  case (1 bs)
  show ?case
  proof (cases "bs = []")
    case False
    with 1(2) have "64 \<le> length bs" by (cases "length bs < 64") auto
    moreover have "length (drop 64 bs) mod 64 = 0"
      using 1(2) calculation by (metis le_mod_geq length_drop)
    ultimately show ?thesis
      using 1 False by (subst (asm) (2) blocks.simps) auto
  qed (use 1(3) in \<open>simp add: blocks.simps\<close>)
qed

lemma schedule_block:
  assumes "b \<in> set (blocks (pad m))"
  shows "length (words_of b) = 16"
  using blocks_full [OF length_pad assms] by (simp add: length_words_of)

end
