(* ===== verification/Fingerprint.thy ===== *)
theory Fingerprint
  imports Sha256
begin

text \<open>
  Request fingerprints (\<^verbatim>\<open>src/internal/idempotency/fingerprint.go\<close>): the canonical form of a
  request, its SHA-256, and the hexadecimal form kept in Redis.  A \<^verbatim>\<open>Fingerprint\<close>
  (\<^verbatim>\<open>[32]byte\<close>) is a byte list; the functions that produce one give it length 32.
  \<^verbatim>\<open>uuid.UUID.String\<close> belongs to the uuid package and is the argument \<open>uuid_String\<close>.
\<close>

section \<open>Decimal and hexadecimal text\<close>

definition digit_char :: "nat \<Rightarrow> char" where
  "digit_char n = ''0123456789abcdef'' ! n"

fun decimal :: "nat \<Rightarrow> string" where
  "decimal n = (if n < 10 then [digit_char n] else decimal (n div 10) @ [digit_char (n mod 10)])"

declare decimal.simps [simp del]

text \<open>\<^verbatim>\<open>strconv.FormatInt(x, 10)\<close>.\<close>

definition FormatInt :: "int \<Rightarrow> string" where
  "FormatInt x = (if x < 0 then CHR ''-'' # decimal (nat (- x)) else decimal (nat x))"

definition hex_byte :: "byte \<Rightarrow> string" where
  "hex_byte b = [digit_char (unat b div 16), digit_char (unat b mod 16)]"

definition hex_EncodeToString :: "byte list \<Rightarrow> string" where
  "hex_EncodeToString bs = concat (map hex_byte bs)"

definition hex_digit :: "char \<Rightarrow> nat option" where
  "hex_digit c =
     (let b = byte_of c in
      if 48 \<le> b \<and> b \<le> 57 then Some (b - 48)
      else if 97 \<le> b \<and> b \<le> 102 then Some (b - 87)
      else if 65 \<le> b \<and> b \<le> 70 then Some (b - 55)
      else None)"

fun hex_DecodeString :: "string \<Rightarrow> byte list result" where
  "hex_DecodeString [] = Inr []"
| "hex_DecodeString [c] =
     Inl (LibError (if hex_digit c = None then ''encoding/hex: invalid byte''
                    else ''encoding/hex: odd length hex string''))"
| "hex_DecodeString (c # d # cs) =
     (case (hex_digit c, hex_digit d) of
        (Some x, Some y) \<Rightarrow>
          (case hex_DecodeString cs of
             Inl err \<Rightarrow> Inl err | Inr bs \<Rightarrow> Inr (word_of_nat (16 * x + y) # bs))
      | _ \<Rightarrow> Inl (LibError ''encoding/hex: invalid byte''))"

section \<open>Requests\<close>

type_synonym Fingerprint = "byte list"

record Request =
  rq_SourceAccountID :: uuid
  rq_DestinationAccountID :: uuid
  rq_AmountMinor :: int
  rq_Currency :: string

definition newline :: char where "newline = CHR 0x0A"

definition fingerprintVersion :: string where "fingerprintVersion = ''v1''"

definition Canonical :: "(uuid \<Rightarrow> string) \<Rightarrow> Request \<Rightarrow> string" where
  "Canonical uuid_String r =
     fingerprintVersion @ [newline]
     @ ''source='' @ uuid_String (rq_SourceAccountID r) @ [newline]
     @ ''destination='' @ uuid_String (rq_DestinationAccountID r) @ [newline]
     @ ''amount_minor='' @ FormatInt (rq_AmountMinor r) @ [newline]
     @ ''currency='' @ rq_Currency r @ [newline]"

definition bytes_of :: "string \<Rightarrow> byte list" where
  "bytes_of s = map (\<lambda>c. word_of_nat (byte_of c)) s"

definition Request_Fingerprint :: "(uuid \<Rightarrow> string) \<Rightarrow> Request \<Rightarrow> Fingerprint" where
  "Request_Fingerprint uuid_String r = Sum256 (bytes_of (Canonical uuid_String r))"

definition Fingerprint_String :: "Fingerprint \<Rightarrow> string" where
  "Fingerprint_String f = hex_EncodeToString f"

definition Fingerprint_Bytes :: "Fingerprint \<Rightarrow> byte list" where
  "Fingerprint_Bytes f = f"

definition FingerprintFromBytes :: "byte list \<Rightarrow> Fingerprint result" where
  "FingerprintFromBytes raw =
     (if length raw \<noteq> 32 then
        Inl (Errorf ''idempotency: fingerprint is %d bytes, want %d''
               [AInt (int (length raw)), AInt 32] [])
      else Inr raw)"

definition ParseFingerprint :: "string \<Rightarrow> Fingerprint result" where
  "ParseFingerprint s =
     (case hex_DecodeString s of
        Inl err \<Rightarrow> Inl (Errorf ''idempotency: fingerprint is not hex: %w'' [] [err])
      | Inr raw \<Rightarrow>
          if length raw \<noteq> 32 then
            Inl (Errorf ''idempotency: fingerprint is %d bytes, want %d''
                   [AInt (int (length raw)), AInt 32] [])
          else Inr raw)"

section \<open>Facts\<close>

lemma digit_char_lt16:
  assumes "n < 16"
  shows "hex_digit (digit_char n) = Some n \<and> digit_char n \<noteq> newline \<and> digit_char n \<noteq> CHR ''-''"
proof -
  have "n \<in> set [0..<16]" using assms by simp
  moreover have "list_all (\<lambda>n. hex_digit (digit_char n) = Some n \<and> digit_char n \<noteq> newline
      \<and> digit_char n \<noteq> CHR ''-'') [0..<16]"
    by code_simp
  ultimately show ?thesis unfolding list_all_iff by blast
qed

lemma digit_char_inj: "m < 16 \<Longrightarrow> n < 16 \<Longrightarrow> digit_char m = digit_char n \<longleftrightarrow> m = n"
  by (metis digit_char_lt16 option.inject)

definition decimal_value :: "string \<Rightarrow> nat" where
  "decimal_value s = foldl (\<lambda>acc c. acc * 10 + the (hex_digit c)) 0 s"

lemma decimal_value_decimal: "decimal_value (decimal n) = n"
proof (induction n rule: decimal.induct)
  case (1 n)
  then show ?case
    by (subst decimal.simps) (auto simp: decimal_value_def digit_char_lt16)
qed

lemma decimal_chars: "c \<in> set (decimal n) \<Longrightarrow> c \<noteq> newline \<and> c \<noteq> CHR ''-''"
proof (induction n rule: decimal.induct)
  case (1 n)
  then show ?case
    by (subst (asm) decimal.simps) (auto simp: digit_char_lt16 split: if_splits)
qed

lemma FormatInt_no_newline: "newline \<notin> set (FormatInt x)"
  using decimal_chars by (auto simp: FormatInt_def newline_def)

lemma FormatInt_inj: "FormatInt x = FormatInt y \<longleftrightarrow> x = y"
proof
  assume eq: "FormatInt x = FormatInt y"
  have neg: "decimal n \<noteq> CHR ''-'' # s" for n s
    using decimal_chars [of "CHR ''-''" n] by auto
  have "decimal (nat (- x)) = decimal (nat (- y)) \<and> x < 0 \<and> y < 0 \<or> decimal (nat x) = decimal (nat y) \<and> 0 \<le> x \<and> 0 \<le> y"
    using eq neg neg [symmetric] by (auto simp: FormatInt_def split: if_splits)
  then show "x = y"
    by (metis decimal_value_decimal eq_nat_nat_iff neg_0_le_iff_le neg_equal_iff_equal nless_le)
qed simp

text \<open>Lines are unambiguous: text up to the first separator.\<close>

lemma line_split:
  "c \<notin> set xs \<Longrightarrow> c \<notin> set ys \<Longrightarrow> xs @ c # us = ys @ c # vs \<longleftrightarrow> xs = ys \<and> us = vs"
proof (induction xs arbitrary: ys)
  case Nil
  then show ?case by (cases ys) auto
next
  case (Cons x xs)
  then show ?case by (cases ys) auto
qed

lemma hex_roundtrip: "hex_DecodeString (hex_EncodeToString bs) = Inr bs"
proof (induction bs)
  case Nil
  then show ?case by (simp add: hex_EncodeToString_def)
next
  case (Cons b bs)
  have "unat b < 256" using unsigned_less [where ?'a = nat, of b] by simp
  then have "unat b div 16 < 16" by simp
  moreover have "16 * (unat b div 16) + unat b mod 16 = unat b" by simp
  ultimately show ?case
    using Cons by (simp add: hex_EncodeToString_def hex_byte_def digit_char_lt16)
qed

lemma Fingerprint_String_inj: "Fingerprint_String f = Fingerprint_String g \<longleftrightarrow> f = g"
  unfolding Fingerprint_String_def by (metis hex_roundtrip sum.inject(2))

lemma length_Request_Fingerprint [simp]: "length (Request_Fingerprint u r) = 32"
  by (simp add: Request_Fingerprint_def)

lemma FingerprintFromBytes_ok [simp]: "length f = 32 \<Longrightarrow> FingerprintFromBytes f = Inr f"
  by (simp add: FingerprintFromBytes_def)

section \<open>Properties\<close>

text \<open>C20: The canonical form is unambiguous: two requests with the same canonical bytes agree on
  source, destination, amount and currency.  The uuid package renders distinct UUIDs
  differently and without line breaks.\<close>

theorem Canonical_injective:
  assumes "\<And>a b. uuid_String a = uuid_String b \<Longrightarrow> a = b"
    and "\<And>a. newline \<notin> set (uuid_String a)"
    and "Canonical uuid_String r = Canonical uuid_String r'"
  shows "r = r'"
proof -
  have "uuid_String (rq_SourceAccountID r) = uuid_String (rq_SourceAccountID r')
      \<and> uuid_String (rq_DestinationAccountID r) = uuid_String (rq_DestinationAccountID r')
      \<and> FormatInt (rq_AmountMinor r) = FormatInt (rq_AmountMinor r') \<and> rq_Currency r = rq_Currency r'"
    using assms(3) assms(2) FormatInt_no_newline by (simp add: Canonical_def line_split)
  then show ?thesis using assms(1) by (simp add: FormatInt_inj)
qed

text \<open>A rendering of UUIDs for the instance: thirty-two hexadecimal digits.\<close>

definition plain_uuid_String :: "uuid \<Rightarrow> string" where
  "plain_uuid_String u = hex_EncodeToString (uuid_bytes u)"

lemma plain_uuid_String_inj: "plain_uuid_String a = plain_uuid_String b \<Longrightarrow> a = b"
  unfolding plain_uuid_String_def
  by (metis be_value_uuid_bytes hex_roundtrip sum.inject(2) uuid.expand word_unat_eq_iff)

lemma plain_uuid_String_newline: "newline \<notin> set (plain_uuid_String u)"
proof -
  have "unat b div 16 < 16" for b :: byte
    using unsigned_less [where ?'a = nat, of b] by (simp add: less_mult_imp_div_less)
  then show ?thesis
    by (auto simp: plain_uuid_String_def hex_EncodeToString_def hex_byte_def)
      (metis digit_char_lt16 mod_less_divisor zero_less_numeral)+
qed

definition request_30 :: Request where
  "request_30 = \<lparr>rq_SourceAccountID = UUID 1, rq_DestinationAccountID = UUID 2, rq_AmountMinor = 30, rq_Currency = ''USD''\<rparr>"

theorem Canonical_injective_witness:
  "Canonical plain_uuid_String request_30 \<noteq> Canonical plain_uuid_String (request_30\<lparr>rq_AmountMinor := 31\<rparr>)"
proof
  assume "Canonical plain_uuid_String request_30 = Canonical plain_uuid_String (request_30\<lparr>rq_AmountMinor := 31\<rparr>)"
  from Canonical_injective [OF plain_uuid_String_inj plain_uuid_String_newline this]
  show False by (simp add: request_30_def)
qed

text \<open>C21: A fingerprint survives its two storage forms: the hexadecimal text of Redis and the raw
  bytes of PostgreSQL.\<close>

theorem fingerprint_roundtrip:
  "ParseFingerprint (Fingerprint_String (Request_Fingerprint u r)) = Inr (Request_Fingerprint u r)
   \<and> FingerprintFromBytes (Fingerprint_Bytes (Request_Fingerprint u r)) = Inr (Request_Fingerprint u r)
   \<and> length (Fingerprint_String (Request_Fingerprint u r)) = 64"
proof -
  have "length (hex_EncodeToString bs) = 2 * length bs" for bs
    by (induction bs) (auto simp: hex_EncodeToString_def hex_byte_def)
  then show ?thesis
    by (simp add: ParseFingerprint_def Fingerprint_String_def Fingerprint_Bytes_def hex_roundtrip)
qed

end
