(* ===== verification/IdemStore.thy ===== *)
theory IdemStore
  imports IdemKey Fingerprint
begin

text \<open>
  The Redis coordination store (\<^verbatim>\<open>src/internal/idempotency/store.go\<close>).  The Redis client is
  third-party code: \<open>redis_client\<close> has the five commands the store issues, as functions over a
  server state of any type, which may time out, lose data or be changed by others between two
  commands.  A stored value is a record in its JSON encoding or anything \<^verbatim>\<open>json.Unmarshal\<close>
  refuses.  Encoding a record of strings cannot fail, so the two encoding errors of the source
  do not occur.  The texts of \<^verbatim>\<open>time.Now()\<close> are arguments, and the command timeout shows as
  an error of the client.
\<close>

datatype State = StateProcessing | StateCompleted | StateOther string

record Record =
  r_State :: State
  r_Fingerprint :: string
  r_TransferID :: string
  r_ClaimedAt :: string
  r_CompletedAt :: string

definition zero_Record :: Record where
  "zero_Record = \<lparr>r_State = StateOther '''', r_Fingerprint = '''', r_TransferID = '''',
                  r_ClaimedAt = '''', r_CompletedAt = ''''\<rparr>"

definition Record_Matches :: "Record \<Rightarrow> Fingerprint \<Rightarrow> bool" where
  "Record_Matches r f \<longleftrightarrow> r_Fingerprint r = Fingerprint_String f"

datatype stored = Encoded Record | Undecodable string

record 'r redis_client =
  rc_SetNX :: "string \<Rightarrow> stored \<Rightarrow> int \<Rightarrow> 'r \<Rightarrow> bool result \<times> 'r"
  rc_Get :: "string \<Rightarrow> 'r \<Rightarrow> stored result \<times> 'r"
  rc_Set :: "string \<Rightarrow> stored \<Rightarrow> int \<Rightarrow> 'r \<Rightarrow> go_error option \<times> 'r"
  rc_Del :: "string \<Rightarrow> 'r \<Rightarrow> go_error option \<times> 'r"
  rc_Ping :: "'r \<Rightarrow> go_error option \<times> 'r"

record 'r Store =
  s_client :: "'r redis_client option"
  s_ttl :: int
  s_processingTTL :: int

text \<open>A nil \<^verbatim>\<open>*Store\<close> is \<open>None\<close>; the client in use, if there is one.\<close>

definition store_client :: "'r Store option \<Rightarrow> ('r Store \<times> 'r redis_client) option" where
  "store_client s =
     (case s of None \<Rightarrow> None | Some st \<Rightarrow>
       (case s_client st of None \<Rightarrow> None | Some c \<Rightarrow> Some (st, c)))"

definition Available :: "'r Store option \<Rightarrow> bool" where
  "Available s \<longleftrightarrow> store_client s \<noteq> None"

definition unavailable :: "go_error \<Rightarrow> go_error" where
  "unavailable err = Errorf ''%w: %w'' [] [Sentinel idempotency_ErrUnavailable, err]"

section \<open>Operations\<close>

text \<open>\<^verbatim>\<open>(*Store).get\<close>: absent is \<open>Inr None\<close>.\<close>

definition store_get :: "'r redis_client \<Rightarrow> Key \<Rightarrow> 'r \<Rightarrow> Record option result \<times> 'r" where
  "store_get c key r =
     (case rc_Get c (RedisKey key) r of
        (Inl err, r') \<Rightarrow>
          if errors_is err redis_Nil then (Inr None, r') else (Inl (unavailable err), r')
      | (Inr (Encoded rec), r') \<Rightarrow> (Inr (Some rec), r')
      | (Inr (Undecodable msg), r') \<Rightarrow>
          (Inl (Errorf ''idempotency: decode record for %s: %w'' [AStr key] [LibError msg]), r'))"

record Claim =
  cl_Acquired :: bool
  cl_Existing :: Record

definition zero_Claim :: Claim where
  "zero_Claim = \<lparr>cl_Acquired = False, cl_Existing = zero_Record\<rparr>"

definition claim_record :: "string \<Rightarrow> Fingerprint \<Rightarrow> Record" where
  "claim_record now f = zero_Record\<lparr>r_State := StateProcessing, r_Fingerprint := Fingerprint_String f, r_ClaimedAt := now\<rparr>"

definition maxAttempts :: nat where "maxAttempts = 3"

fun acquire_loop :: "nat \<Rightarrow> 'r redis_client \<Rightarrow> int \<Rightarrow> Record \<Rightarrow> Key \<Rightarrow> 'r \<Rightarrow> Claim result \<times> 'r" where
  "acquire_loop 0 c ttl rec key r =
     (Inl (Errorf ''%w: could not settle the claim for %s after %d attempts''
             [AStr key, AInt (int maxAttempts)] [Sentinel idempotency_ErrInProgress]), r)"
| "acquire_loop (Suc n) c ttl rec key r =
     (case rc_SetNX c (RedisKey key) (Encoded rec) ttl r of
        (Inl err, r1) \<Rightarrow> (Inl (unavailable err), r1)
      | (Inr True, r1) \<Rightarrow> (Inr (zero_Claim\<lparr>cl_Acquired := True\<rparr>), r1)
      | (Inr False, r1) \<Rightarrow>
          (case store_get c key r1 of
             (Inl err, r2) \<Rightarrow> (Inl err, r2)
           | (Inr (Some existing), r2) \<Rightarrow> (Inr (zero_Claim\<lparr>cl_Existing := existing\<rparr>), r2)
           | (Inr None, r2) \<Rightarrow> acquire_loop n c ttl rec key r2))"

definition Acquire :: "'r Store option \<Rightarrow> string \<Rightarrow> Key \<Rightarrow> Fingerprint \<Rightarrow> 'r \<Rightarrow> Claim result \<times> 'r" where
  "Acquire s now key f r =
     (case store_client s of
        None \<Rightarrow> (Inl (Sentinel idempotency_ErrUnavailable), r)
      | Some (st, c) \<Rightarrow> acquire_loop maxAttempts c (s_processingTTL st) (claim_record now f) key r)"

definition Store_Get :: "'r Store option \<Rightarrow> Key \<Rightarrow> 'r \<Rightarrow> Record option result \<times> 'r" where
  "Store_Get s key r =
     (case store_client s of
        None \<Rightarrow> (Inl (Sentinel idempotency_ErrUnavailable), r)
      | Some (st, c) \<Rightarrow> store_get c key r)"

definition completed_record :: "string \<Rightarrow> string \<Rightarrow> Fingerprint \<Rightarrow> string \<Rightarrow> Record" where
  "completed_record now1 now2 f transferID =
     \<lparr>r_State = StateCompleted, r_Fingerprint = Fingerprint_String f, r_TransferID = transferID,
      r_ClaimedAt = now1, r_CompletedAt = now2\<rparr>"

definition Complete ::
  "'r Store option \<Rightarrow> string \<Rightarrow> string \<Rightarrow> Key \<Rightarrow> Fingerprint \<Rightarrow> string \<Rightarrow> 'r \<Rightarrow> go_error option \<times> 'r" where
  "Complete s now1 now2 key f transferID r =
     (case store_client s of
        None \<Rightarrow> (Some (Sentinel idempotency_ErrUnavailable), r)
      | Some (st, c) \<Rightarrow>
          (case rc_Set c (RedisKey key) (Encoded (completed_record now1 now2 f transferID)) (s_ttl st) r of
             (Some err, r') \<Rightarrow> (Some (unavailable err), r')
           | (None, r') \<Rightarrow> (None, r')))"

definition Release :: "'r Store option \<Rightarrow> Key \<Rightarrow> 'r \<Rightarrow> go_error option \<times> 'r" where
  "Release s key r =
     (case store_client s of
        None \<Rightarrow> (Some (Sentinel idempotency_ErrUnavailable), r)
      | Some (st, c) \<Rightarrow>
          (case rc_Del c (RedisKey key) r of
             (Some err, r') \<Rightarrow> (Some (unavailable err), r')
           | (None, r') \<Rightarrow> (None, r')))"

definition Store_Ping :: "'r Store option \<Rightarrow> 'r \<Rightarrow> go_error option \<times> 'r" where
  "Store_Ping s r =
     (case store_client s of
        None \<Rightarrow> (Some (Sentinel idempotency_ErrUnavailable), r)
      | Some (st, c) \<Rightarrow>
          (case rc_Ping c r of
             (Some err, r') \<Rightarrow> (Some (unavailable err), r')
           | (None, r') \<Rightarrow> (None, r')))"

section \<open>Redis as a key-value server\<close>

text \<open>
  What Redis documents about the commands, with \<open>look\<close> the value a key has in a server state:
  SET NX sets the value exactly when the key has none and says whether it did, GET returns the
  value or \<^verbatim>\<open>redis.Nil\<close>, DEL removes it.  Any command may fail instead; a SET NX or SET that
  fails may or may not have taken effect.  The laws describe single commands: a client that
  resends a SET NX whose answer was lost may report false although the key was absent, which makes a
  claim fail that could have succeeded, never the reverse.
\<close>

definition redis_laws :: "('r \<Rightarrow> string \<Rightarrow> stored option) \<Rightarrow> 'r redis_client \<Rightarrow> bool" where
  "redis_laws look c \<longleftrightarrow>
     (\<forall>k v ttl r ok r'. rc_SetNX c k v ttl r = (Inr ok, r') \<longrightarrow>
        ok = (look r k = None) \<and> look r' = (if ok then (look r)(k \<mapsto> v) else look r))
     \<and> (\<forall>k r v r'. rc_Get c k r = (Inr v, r') \<longrightarrow> look r k = Some v \<and> look r' = look r)
     \<and> (\<forall>k r err r'. rc_Get c k r = (Inl err, r') \<longrightarrow> look r' = look r \<and> (errors_is err redis_Nil \<longrightarrow> look r k = None))
     \<and> (\<forall>k v ttl r r'. rc_Set c k v ttl r = (None, r') \<longrightarrow> look r' = (look r)(k \<mapsto> v))
     \<and> (\<forall>k r r'. rc_Del c k r = (None, r') \<longrightarrow> look r' = (look r)(k := None))"

lemma redis_lawsD:
  assumes "redis_laws look c"
  shows "rc_SetNX c k v ttl r = (Inr ok, r') \<Longrightarrow>
      ok = (look r k = None) \<and> look r' = (if ok then (look r)(k \<mapsto> v) else look r)"
    and "rc_Get c k r = (Inr v, r') \<Longrightarrow> look r k = Some v \<and> look r' = look r"
    and "rc_Get c k r = (Inl err, r') \<Longrightarrow> look r' = look r \<and> (errors_is err redis_Nil \<longrightarrow> look r k = None)"
    and "rc_Set c k v ttl r = (None, r') \<Longrightarrow> look r' = (look r)(k \<mapsto> v)"
    and "rc_Del c k r = (None, r') \<Longrightarrow> look r' = (look r)(k := None)"
  using assms unfolding redis_laws_def by - (elim conjE, metis)+

text \<open>A server kept in a map, without expiry: an instance of the laws.\<close>

definition map_client :: "(string \<Rightarrow> stored option) redis_client" where
  "map_client =
     \<lparr>rc_SetNX = (\<lambda>k v ttl m. if m k = None then (Inr True, m(k \<mapsto> v)) else (Inr False, m)),
      rc_Get = (\<lambda>k m. case m k of None \<Rightarrow> (Inl (Sentinel redis_Nil), m) | Some v \<Rightarrow> (Inr v, m)),
      rc_Set = (\<lambda>k v ttl m. (None, m(k \<mapsto> v))),
      rc_Del = (\<lambda>k m. (None, m(k := None))),
      rc_Ping = (\<lambda>m. (None, m))\<rparr>"

definition map_store :: "(string \<Rightarrow> stored option) Store" where
  "map_store = \<lparr>s_client = Some map_client, s_ttl = 3600, s_processingTTL = 30\<rparr>"

lemma redis_laws_map: "redis_laws (\<lambda>m. m) map_client"
  by (auto simp: redis_laws_def map_client_def split: if_splits option.splits)

section \<open>Facts\<close>

lemma Record_Matches_claim [simp]: "Record_Matches (claim_record now f) g \<longleftrightarrow> f = g"
  by (simp add: Record_Matches_def claim_record_def Fingerprint_String_inj)

lemma Record_Matches_completed [simp]: "Record_Matches (completed_record n1 n2 f t) g \<longleftrightarrow> f = g"
  by (simp add: Record_Matches_def completed_record_def Fingerprint_String_inj)

lemma acquire_loop_acquired:
  assumes laws: "redis_laws look c"
  shows "acquire_loop n c ttl rec key r = (Inr cl, r') \<Longrightarrow> cl_Acquired cl \<Longrightarrow>
     look r' (RedisKey key) = Some (Encoded rec)"
proof (induction n arbitrary: r)
  case 0
  then show ?case by simp
next
  case (Suc n)
  obtain b r1 where set: "rc_SetNX c (RedisKey key) (Encoded rec) ttl r = (b, r1)" by fastforce
  consider err where "b = Inl err" | "b = Inr True" | "b = Inr False" by (cases b) auto
  then show ?case
  proof cases
    case 2
    with Suc.prems set redis_lawsD(1) [OF laws set [unfolded 2]] show ?thesis by auto
  next
    case 3
    with Suc set show ?thesis
      by (auto simp: zero_Claim_def split: prod.splits sum.splits option.splits)
  qed (use Suc set in simp)
qed

lemma store_get_laws:
  assumes "redis_laws look c" and "look r (RedisKey key) = Some (Encoded rec)" and "store_get c key r = (x, r')"
  shows "look r' = look r \<and> (x = Inr (Some rec) \<or> (\<exists>err. x = Inl (unavailable err)))"
  using assms
  by (auto simp: store_get_def split: prod.splits sum.splits stored.splits if_splits
      dest!: redis_lawsD(2,3) [OF assms(1)])

lemma acquire_loop_held:
  assumes laws: "redis_laws look c" and held: "look r (RedisKey key) = Some (Encoded rec0)"
    and "acquire_loop (Suc n) c ttl rec key r = (x, r')"
  shows "x = Inr \<lparr>cl_Acquired = False, cl_Existing = rec0\<rparr> \<or> (\<exists>err. x = Inl (unavailable err))"
proof -
  obtain b r1 where set: "rc_SetNX c (RedisKey key) (Encoded rec) ttl r = (b, r1)" by fastforce
  obtain y r2 where get: "store_get c key r1 = (y, r2)" by fastforce
  consider err where "b = Inl err" | "b = Inr True" | "b = Inr False" by (cases b) auto
  then show ?thesis
  proof cases
    case 2
    with redis_lawsD(1) [OF laws set [unfolded 2]] held show ?thesis by simp
  next
    case 3
    have "look r1 (RedisKey key) = Some (Encoded rec0)"
      using redis_lawsD(1) [OF laws set [unfolded 3]] held by simp
    from store_get_laws [OF laws this get] assms(3) set 3 get show ?thesis
      by (auto simp: zero_Claim_def)
  qed (use assms(3) set in auto)
qed

text \<open>C19: Mutual exclusion of claims: once a request has acquired a key, no later request
  acquires it as long as the record stays: it sees the holder's record, whose fingerprint
  matches exactly the same payment, or learns that Redis is unavailable.\<close>

theorem Acquire_exclusive:
  assumes "redis_laws look c" and "store_client s = Some (st, c)"
    and "Acquire s now key f r = (Inr cl, r1)" and "cl_Acquired cl"
    and "look r2 (RedisKey key) = look r1 (RedisKey key)"
    and "Acquire s now2 key g r2 = (x, r3)"
  shows "(\<exists>err. x = Inl err \<and> errors_is err idempotency_ErrUnavailable)
    \<or> (\<exists>rec. x = Inr \<lparr>cl_Acquired = False, cl_Existing = rec\<rparr> \<and> r_State rec = StateProcessing
         \<and> (Record_Matches rec g \<longleftrightarrow> f = g))"
proof -
  have "look r1 (RedisKey key) = Some (Encoded (claim_record now f))"
    using acquire_loop_acquired [OF assms(1)] assms(2-4) by (auto simp: Acquire_def)
  then have "look r2 (RedisKey key) = Some (Encoded (claim_record now f))" using assms(5) by simp
  from acquire_loop_held [OF assms(1) this, of 2] assms(2,6)
  have "x = Inr \<lparr>cl_Acquired = False, cl_Existing = claim_record now f\<rparr> \<or> (\<exists>err. x = Inl (unavailable err))"
    by (auto simp: Acquire_def maxAttempts_def numeral_3_eq_3 numeral_2_eq_2)
  then show ?thesis by (auto simp: claim_record_def unavailable_def) (simp flip: claim_record_def)+
qed

theorem Acquire_exclusive_witness:
  "\<exists>r1 x r3. Acquire (Some map_store) ''t1'' ''pay_1'' [1] (\<lambda>_. None) = (Inr (zero_Claim\<lparr>cl_Acquired := True\<rparr>), r1)
     \<and> Acquire (Some map_store) ''t2'' ''pay_1'' [2] r1 = (x, r3)
     \<and> ((\<exists>err. x = Inl err \<and> errors_is err idempotency_ErrUnavailable)
        \<or> (\<exists>rec. x = Inr \<lparr>cl_Acquired = False, cl_Existing = rec\<rparr> \<and> r_State rec = StateProcessing
             \<and> (Record_Matches rec [2] \<longleftrightarrow> [1] = [2 :: byte])))"
proof -
  have st: "store_client (Some map_store) = Some (map_store, map_client)"
    by (simp add: store_client_def map_store_def)
  obtain r1 where first: "Acquire (Some map_store) ''t1'' ''pay_1'' [1] (\<lambda>_. None) =
      (Inr (zero_Claim\<lparr>cl_Acquired := True\<rparr>), r1)"
    by (simp add: Acquire_def st maxAttempts_def numeral_3_eq_3 map_client_def)
  obtain x r3 where second: "Acquire (Some map_store) ''t2'' ''pay_1'' [2] r1 = (x, r3)" by fastforce
  from Acquire_exclusive [OF redis_laws_map st first _ refl second] first second show ?thesis by auto
qed

end
