(* ===== verification/Idempotent.thy ===== *)
theory Idempotent
  imports PostRetry IdemStore
begin

text \<open>
  The idempotent posting of \<^verbatim>\<open>src/internal/transfer/idempotent.go\<close>, over the pair of the
  committed database and the Redis server state.  \<open>idem_env\<close> is what the environment decides:
  the attempts of the retried posting, the time texts, and for each of the two lookups what
  other sessions commit before it and the error it meets.
\<close>

record 'r Service =
  sv_retry :: RetryPolicy
  sv_idem :: "'r Store option"

definition WithIdempotency :: "'r Store option \<Rightarrow> 'q Service \<Rightarrow> 'r Service" where
  "WithIdempotency store s = \<lparr>sv_retry = sv_retry s, sv_idem = store\<rparr>"

record idem_env =
  ie_attempts :: "int \<Rightarrow> attempt_env"
  ie_claimedAt :: string
  ie_completed :: "string \<times> string"
  ie_lookup_others :: "db \<Rightarrow> db"
  ie_lookup_fault :: "go_error option"
  ie_recover_others :: "db \<Rightarrow> db"
  ie_recover_fault :: "go_error option"

definition zero_Transfer :: Transfer where
  "zero_Transfer = \<lparr>t_ID = uuid_Nil, t_SourceAccountID = uuid_Nil, t_DestinationAccountID = uuid_Nil,
     t_AmountMinor = 0, t_Currency = '''', t_Status = StatusOther '''', t_CreatedAt = 0, t_CompletedAt = None\<rparr>"

record Result =
  rs_Transfer :: Transfer
  rs_Attempts :: Attempts
  rs_Replayed :: bool
  rs_RecoveredFromDatabase :: bool
  rs_CoordinationDegraded :: bool

definition zero_Result :: Result where
  "zero_Result = \<lparr>rs_Transfer = zero_Transfer, rs_Attempts = no_attempts, rs_Replayed = False,
     rs_RecoveredFromDatabase = False, rs_CoordinationDegraded = False\<rparr>"

section \<open>Operations\<close>

definition isDuplicateIdempotencyKey :: "go_error \<Rightarrow> bool" where
  "isDuplicateIdempotencyKey err =
     (case errors_as_pg err of
        None \<Rightarrow> False
      | Some (code, constraint) \<Rightarrow> code = ''23505'' \<and> constraint = ''transfers_idempotency_key_unique'')"

definition select_by_key :: "Key \<Rightarrow> db \<Rightarrow> transfer_row option" where
  "select_by_key key d = find (\<lambda>t. t_idempotency_key t = Some key) (transfers d)"

definition conflict_error :: "Key \<Rightarrow> go_error" where
  "conflict_error key =
     Errorf ''%w: key %s was first used for a different payment'' [AStr key] [Sentinel transfer_ErrIdempotencyConflict]"

definition in_progress_error :: "Key \<Rightarrow> go_error" where
  "in_progress_error key = Errorf ''%w: key %s'' [AStr key] [Sentinel transfer_ErrIdempotencyInProgress]"

text \<open>\<open>Inr None\<close> is not found; a NULL fingerprint scans as an empty slice.\<close>

definition recoverFromDatabase ::
  "go_error option \<Rightarrow> Key \<Rightarrow> Fingerprint \<Rightarrow> db \<Rightarrow> Result option result" where
  "recoverFromDatabase flt key fingerprint d =
     (let failed = (\<lambda>err. if errors_is err pgx_ErrNoRows then Inr None
                          else Inl (Errorf ''transfer: recover by idempotency key: %w'' [] [err])) in
      case flt of
        Some err \<Rightarrow> failed err
      | None \<Rightarrow>
          (case select_by_key key d of
             None \<Rightarrow> failed (Sentinel pgx_ErrNoRows)
           | Some t \<Rightarrow>
               (case FingerprintFromBytes (case t_request_fingerprint t of None \<Rightarrow> [] | Some b \<Rightarrow> b) of
                  Inl err \<Rightarrow> Inl (Errorf ''transfer: stored fingerprint for key %s: %w'' [AStr key] [err])
                | Inr storedFingerprint \<Rightarrow>
                    if storedFingerprint \<noteq> fingerprint then Inl (conflict_error key)
                    else Inr (Some (zero_Result\<lparr>rs_Transfer := Transfer.truncate t, rs_Replayed := True,
                                                rs_RecoveredFromDatabase := True\<rparr>)))))"

definition cacheCompletion ::
  "'r Store option \<Rightarrow> (uuid \<Rightarrow> string) \<Rightarrow> idem_env \<Rightarrow> Key \<Rightarrow> Fingerprint \<Rightarrow> uuid \<Rightarrow> 'r \<Rightarrow> bool \<times> 'r" where
  "cacheCompletion idem uuid_String env key fingerprint transferID r =
     (if \<not> Available idem then (False, r)
      else (case Complete idem (fst (ie_completed env)) (snd (ie_completed env)) key fingerprint
                   (uuid_String transferID) r of
              (Some err, r') \<Rightarrow> (False, r')
            | (None, r') \<Rightarrow> (True, r')))"

definition releaseClaim :: "'r Store option \<Rightarrow> Key \<Rightarrow> 'r \<Rightarrow> 'r" where
  "releaseClaim idem key r = (if \<not> Available idem then r else snd (Release idem key r))"

type_synonym 'r idem_outcome = "(Result \<times> go_error option) \<times> db \<times> 'r"

definition postClaimed ::
  "'r Service \<Rightarrow> (uuid \<Rightarrow> string) \<Rightarrow> idem_env \<Rightarrow> Key \<Rightarrow> Fingerprint \<Rightarrow> Command \<Rightarrow> bool \<Rightarrow> db \<Rightarrow> 'r \<Rightarrow> 'r idem_outcome" where
  "postClaimed s uuid_String env key fingerprint cmd degraded d r =
     (let stamp = Some \<lparr>st_key = Key_String key, st_fingerprint = Fingerprint_Bytes fingerprint\<rparr> in
      case postWithRetry (sv_retry s) (ie_attempts env) cmd stamp d of
        (Inl err, attempts, d1) \<Rightarrow>
          if isDuplicateIdempotencyKey err then
            (let d2 = ie_recover_others env d1 in
             case recoverFromDatabase (ie_recover_fault env) key fingerprint d2 of
               Inl recErr \<Rightarrow> ((zero_Result, Some recErr), d2, r)
             | Inr None \<Rightarrow> ((zero_Result, Some (in_progress_error key)), d2, r)
             | Inr (Some result) \<Rightarrow>
                 let result = result\<lparr>rs_Attempts := attempts, rs_CoordinationDegraded := degraded\<rparr> in
                 ((result, None), d2,
                  snd (cacheCompletion (sv_idem s) uuid_String env key fingerprint (t_ID (rs_Transfer result)) r)))
          else
            ((zero_Result\<lparr>rs_Attempts := attempts, rs_CoordinationDegraded := degraded\<rparr>, Some err), d1,
             releaseClaim (sv_idem s) key r)
      | (Inr posted, attempts, d1) \<Rightarrow>
          (case cacheCompletion (sv_idem s) uuid_String env key fingerprint (t_ID posted) r of
             (cached, r') \<Rightarrow>
               ((zero_Result\<lparr>rs_Transfer := posted, rs_Attempts := attempts,
                             rs_CoordinationDegraded := degraded \<or> \<not> cached \<and> Available (sv_idem s)\<rparr>, None),
                d1, r')))"

definition resolveExisting ::
  "'r Service \<Rightarrow> (uuid \<Rightarrow> string) \<Rightarrow> idem_env \<Rightarrow> Key \<Rightarrow> Fingerprint \<Rightarrow> Command \<Rightarrow> Record \<Rightarrow> db \<Rightarrow> 'r \<Rightarrow> 'r idem_outcome" where
  "resolveExisting s uuid_String env key fingerprint cmd existing d r =
     (if \<not> Record_Matches existing fingerprint then ((zero_Result, Some (conflict_error key)), d, r)
      else
        (let d1 = ie_lookup_others env d in
         case recoverFromDatabase (ie_lookup_fault env) key fingerprint d1 of
           Inl err \<Rightarrow> ((zero_Result, Some err), d1, r)
         | Inr (Some result) \<Rightarrow> ((result, None), d1, r)
         | Inr None \<Rightarrow>
             (case r_State existing of
                StateCompleted \<Rightarrow> postClaimed s uuid_String env key fingerprint cmd False d1 r
              | _ \<Rightarrow> ((zero_Result, Some (in_progress_error key)), d1, r))))"

definition command_fingerprint :: "(uuid \<Rightarrow> string) \<Rightarrow> Command \<Rightarrow> Fingerprint" where
  "command_fingerprint uuid_String cmd =
     Request_Fingerprint uuid_String
       \<lparr>rq_SourceAccountID = c_SourceAccountID cmd, rq_DestinationAccountID = c_DestinationAccountID cmd,
        rq_AmountMinor = c_AmountMinor cmd, rq_Currency = Currency_String (c_Currency cmd)\<rparr>"

definition PostIdempotent ::
  "'r Service \<Rightarrow> (uuid \<Rightarrow> string) \<Rightarrow> idem_env \<Rightarrow> Key \<Rightarrow> Command \<Rightarrow> db \<Rightarrow> 'r \<Rightarrow> 'r idem_outcome" where
  "PostIdempotent s uuid_String env key cmd d r =
     (case ParseKey (Key_String key) of
        Inl err \<Rightarrow> ((zero_Result, Some err), d, r)
      | Inr _ \<Rightarrow>
     (case Command_Validate cmd of
        Some err \<Rightarrow> ((zero_Result, Some err), d, r)
      | None \<Rightarrow>
     (let fingerprint = command_fingerprint uuid_String cmd in
      if \<not> Available (sv_idem s) then postClaimed s uuid_String env key fingerprint cmd True d r
      else (case Acquire (sv_idem s) (ie_claimedAt env) key fingerprint r of
        (Inl err, r1) \<Rightarrow>
          if errors_is err idempotency_ErrUnavailable then
            postClaimed s uuid_String env key fingerprint cmd True d r1
          else if errors_is err idempotency_ErrInProgress then
            ((zero_Result, Some (in_progress_error key)), d, r1)
          else ((zero_Result, Some err), d, r1)
      | (Inr claim, r1) \<Rightarrow>
          if \<not> cl_Acquired claim then
            resolveExisting s uuid_String env key fingerprint cmd (cl_Existing claim) d r1
          else postClaimed s uuid_String env key fingerprint cmd False d r1))))"

definition GetByIdempotencyKey :: "go_error option \<Rightarrow> Key \<Rightarrow> db \<Rightarrow> Transfer result" where
  "GetByIdempotencyKey flt key d =
     (let failed = (\<lambda>err. if errors_is err pgx_ErrNoRows
            then Inl (Errorf ''transfer for idempotency key %s: %w'' [AStr key] [Sentinel transfer_ErrNotFound])
            else Inl (Errorf ''transfer: get by idempotency key %s: %w'' [AStr key] [err])) in
      case flt of
        Some err \<Rightarrow> failed err
      | None \<Rightarrow>
          (case select_by_key key d of
             None \<Rightarrow> failed (Sentinel pgx_ErrNoRows)
           | Some t \<Rightarrow> Inr (Transfer.truncate t)))"

section \<open>Facts\<close>

definition idem_others :: "idem_env \<Rightarrow> (db \<Rightarrow> db) set" where
  "idem_others env = {ie_lookup_others env, ie_recover_others env} \<union> others_of (ie_attempts env)"

definition idem_env_ok :: "idem_env \<Rightarrow> bool" where
  "idem_env_ok env \<longleftrightarrow> env_ok (ie_attempts env)
     \<and> well_behaved (ie_lookup_others env) \<and> well_behaved (ie_recover_others env)"

abbreviation key_stamp :: "Key \<Rightarrow> Fingerprint \<Rightarrow> idempotencyStamp option" where
  "key_stamp key f \<equiv> Some \<lparr>st_key = key, st_fingerprint = f\<rparr>"

text \<open>The row that answers a key.\<close>

definition answers :: "db \<Rightarrow> Key \<Rightarrow> Fingerprint \<Rightarrow> Transfer \<Rightarrow> bool" where
  "answers d key f t \<longleftrightarrow> (\<exists>row \<in> set (transfers d). t_idempotency_key row = Some key
     \<and> t_request_fingerprint row = Some f \<and> t = Transfer.truncate row)"

text \<open>
  What a call does: apart from other sessions' work it posts nothing, or it posts its command
  once under its key (and then other sessions go on); if it succeeds, the transfer it returns is
  the one recorded for the key, and if it reports a replay it posted nothing unless an
  acknowledgement was lost.
\<close>

definition idem_spec ::
  "idem_env \<Rightarrow> Key \<Rightarrow> Fingerprint \<Rightarrow> Command \<Rightarrow> db \<Rightarrow> Result \<Rightarrow> go_error option \<Rightarrow> db \<Rightarrow> bool" where
  "idem_spec env key f cmd d res e d' \<longleftrightarrow>
     (e = None \<longrightarrow> answers d' key f (rs_Transfer res))
     \<and> (others_steps (idem_others env) d d' \<and> (e = None \<longrightarrow> rs_Replayed res)
        \<or> (\<exists>d0 n. others_steps (idem_others env) d d0
             \<and> can_post (ie_attempts env n) cmd (key_stamp key f) d0
             \<and> others_steps (idem_others env) (posted_db (ie_attempts env n) cmd (key_stamp key f) d0) d'
             \<and> (e = None \<and> \<not> rs_Replayed res \<or> (\<exists>err. ae_commit (ie_attempts env n) = LostAck err))))"

lemma recoverFromDatabase_found:
  assumes "recoverFromDatabase flt key f d = Inr (Some res)" and "length f = 32"
  shows "answers d key f (rs_Transfer res) \<and> rs_Replayed res"
  using assms
  by (auto simp: recoverFromDatabase_def answers_def select_by_key_def FingerprintFromBytes_def Let_def
      split: option.splits if_splits sum.splits dest!: find_SomeD)

lemma idem_specI_quiet:
  "others_steps (idem_others env) d d' \<Longrightarrow> (e = None \<Longrightarrow> rs_Replayed res \<and> answers d' key f (rs_Transfer res)) \<Longrightarrow>
     idem_spec env key f cmd d res e d'"
  by (auto simp: idem_spec_def)

lemma idem_spec_error: "others_steps (idem_others env) d d' \<Longrightarrow> idem_spec env key f cmd d res (Some err) d'"
  by (rule idem_specI_quiet) auto

lemma answers_posted:
  "answers (posted_db env cmd (key_stamp key f) d) key f (Transfer.truncate (posted_row env cmd (key_stamp key f)))"
  by (auto simp: answers_def keyOrNil_def fingerprintOrNil_def)

lemma idem_others_sub: "others_of (ie_attempts env) \<subseteq> idem_others env"
  by (auto simp: idem_others_def)

lemma idem_spec_failed:
  assumes "call_outcome (ie_attempts env) cmd (key_stamp key f) d (Inl err) d1"
    and later: "others_steps (idem_others env) d1 d'"
    and "e = None \<Longrightarrow> rs_Replayed res \<and> answers d' key f (rs_Transfer res)"
  shows "idem_spec env key f cmd d res e d'"
proof -
  obtain d0 where d0: "others_steps (idem_others env) d d0"
      and "d1 = d0 \<or> (\<exists>n e. can_post (ie_attempts env n) cmd (key_stamp key f) d0
        \<and> d1 = posted_db (ie_attempts env n) cmd (key_stamp key f) d0 \<and> ae_commit (ie_attempts env n) = LostAck e)"
    using assms(1) others_steps_mono [OF _ idem_others_sub] by (auto simp: call_outcome_def)
  then show ?thesis
    using later assms(3) others_steps_trans [OF later]
    by (auto simp: idem_spec_def)
qed

lemma idem_spec_posted:
  assumes "call_outcome (ie_attempts env) cmd (key_stamp key f) d (Inr t) d'"
  shows "idem_spec env key f cmd d
    (zero_Result\<lparr>rs_Transfer := t, rs_Attempts := a, rs_CoordinationDegraded := b\<rparr>) None d'"
proof -
  obtain d0 n where "others_steps (others_of (ie_attempts env)) d d0"
      "can_post (ie_attempts env n) cmd (key_stamp key f) d0"
      "d' = posted_db (ie_attempts env n) cmd (key_stamp key f) d0"
      "t = Transfer.truncate (posted_row (ie_attempts env n) cmd (key_stamp key f))"
    using assms by (auto simp: call_outcome_def)
  then show ?thesis
    using others_steps_mono [OF _ idem_others_sub]
    by (auto simp: idem_spec_def answers_posted zero_Result_def intro: others_refl)
qed

lemma postClaimed_spec:
  assumes "db_ok d" and "idem_env_ok env" and "c_AmountMinor cmd < 2 ^ 63" and f: "length f = 32"
    and "postClaimed s u env key f cmd degraded d r = ((res, e), d', r')"
  shows "idem_spec env key f cmd d res e d'"
proof -
  obtain x a d1 where call: "postWithRetry (sv_retry s) (ie_attempts env) cmd (key_stamp key f) d = (x, a, d1)"
    by (cases "postWithRetry (sv_retry s) (ie_attempts env) cmd (key_stamp key f) d")
  have out: "call_outcome (ie_attempts env) cmd (key_stamp key f) d x d1"
    using assms(1-3) call by (intro postWithRetry_outcome) (simp_all add: idem_env_ok_def)
  note defs = postClaimed_def Key_String_def Fingerprint_Bytes_def call Let_def
  have later: "others_steps (idem_others env) d1 (ie_recover_others env d1)"
    by (rule others_steps_one) (simp add: idem_others_def)
  show ?thesis
  proof (cases x)
    case (Inr t)
    with assms(5) out show ?thesis
      by (auto simp: defs split: prod.splits intro: idem_spec_posted)
  next
    case (Inl err)
    note failed = idem_spec_failed [OF out [unfolded Inl]]
    show ?thesis
    proof (cases "isDuplicateIdempotencyKey err")
      case True
      with assms(5) Inl recoverFromDatabase_found [OF _ f] show ?thesis
        by (auto simp: defs split: sum.splits option.splits intro: failed [OF later])
    next
      case False
      with assms(5) Inl have "d' = d1 \<and> e = Some err" by (auto simp: defs)
      with failed [OF others_refl, of e res] show ?thesis by simp
    qed
  qed
qed

lemma idem_spec_later:
  assumes "idem_spec env key f cmd d1 res e d'" and "others_steps (idem_others env) d d1"
  shows "idem_spec env key f cmd d res e d'"
  using assms others_steps_trans [OF _ assms(2)] by (auto simp: idem_spec_def)

lemma resolveExisting_spec:
  assumes d: "db_ok d" and env: "idem_env_ok env" and "c_AmountMinor cmd < 2 ^ 63" and f: "length f = 32"
    and "resolveExisting s u env key f cmd existing d r = ((res, e), d', r')"
  shows "idem_spec env key f cmd d res e d'"
proof -
  let ?d1 = "ie_lookup_others env d"
  have later: "others_steps (idem_others env) d ?d1"
    by (rule others_steps_one) (simp add: idem_others_def)
  have "db_ok ?d1" using d env by (simp add: idem_env_ok_def well_behavedD)
  note claimed = idem_spec_later [OF postClaimed_spec [OF this env assms(3) f] later]
  show ?thesis
    using assms(5) recoverFromDatabase_found [OF _ f]
    by (auto simp: resolveExisting_def Let_def split: if_splits sum.splits option.splits State.splits
        intro: idem_spec_error others_refl later claimed idem_specI_quiet [OF later])
qed

lemma length_command_fingerprint [simp]: "length (command_fingerprint u cmd) = 32"
  by (simp add: command_fingerprint_def)

lemma PostIdempotent_spec:
  assumes "db_ok d" and "idem_env_ok env" and "c_AmountMinor cmd < 2 ^ 63"
    and "PostIdempotent s u env key cmd d r = ((res, e), d', r')"
  shows "idem_spec env key (command_fingerprint u cmd) cmd d res e d'"
proof (cases "Command_Validate cmd")
  case (Some err)
  with assms(4) have "d' = d \<and> (\<exists>err. e = Some err)"
    by (cases "ParseKey (Key_String key)") (simp_all add: PostIdempotent_def, metis+)
  then show ?thesis by (auto intro: idem_spec_error others_refl)
next
  case None
  with assms(4) show ?thesis
    by (auto simp: PostIdempotent_def Let_def split: if_splits sum.splits prod.splits
        intro: idem_spec_error others_refl postClaimed_spec [OF assms(1-3)] resolveExisting_spec [OF assms(1-3)])
qed

lemma idem_spec_keeps:
  assumes "idem_spec env key f cmd d res e d'" and d: "db_ok d" and env: "idem_env_ok env" and cmd: "valid_cmd cmd"
  shows "db_ok d' \<and> extends d d' \<and> unexplained d' = unexplained d
     \<and> (\<forall>c. currency_total c d' = currency_total c d)"
proof -
  have F: "\<forall>f \<in> idem_others env. well_behaved f"
    using env by (auto simp: idem_env_ok_def env_ok_def idem_others_def)
  note keep = others_steps_keep [OF _ F]
  have "others_steps (idem_others env) d d' \<or> (\<exists>d0 n. others_steps (idem_others env) d d0
      \<and> can_post (ie_attempts env n) cmd (key_stamp key f) d0
      \<and> others_steps (idem_others env) (posted_db (ie_attempts env n) cmd (key_stamp key f) d0) d')"
    using assms(1) by (auto simp: idem_spec_def)
  then show ?thesis
  proof (elim disjE exE conjE)
    fix d0 n
    let ?d1 = "posted_db (ie_attempts env n) cmd (key_stamp key f) d0"
    assume steps: "others_steps (idem_others env) d d0" "others_steps (idem_others env) ?d1 d'"
      and can: "can_post (ie_attempts env n) cmd (key_stamp key f) d0"
    note d0 = keep [OF steps(1) d]
    then have d1: "db_ok ?d1" using can cmd by (simp add: db_ok_posted)
    from d0 keep [OF steps(2) d1] show ?thesis
      using can cmd extends_trans extends_posted
      by (metis unexplained_posted currency_total_posted)
  qed (use keep d in blast)
qed

section \<open>The deduplication barrier\<close>

lemma check_new_row:
  assumes cmd: "valid_cmd cmd" and "ParseKey key = Inr k" and "length f = 32"
  shows "check_transfer (new_transfer_row env cmd (key_stamp key f)) = None"
  using valid_cmdD [OF cmd] ParseKey_fits_column [OF assms(2)] assms(3) assms(2) [unfolded ParseKey_Inr]
  by (auto simp: check_transfer_def keyOrNil_def fingerprintOrNil_def) (simp add: new_transfer_row_def)

lemma post_duplicate:
  assumes cmd: "valid_cmd cmd" and "refusal cmd d = None"
    and row: "check_transfer (new_transfer_row env cmd stamp) = None"
    and "ae_transferID env \<notin> t_ID ` set (transfers d)"
    and "keyOrNil stamp \<noteq> None" and "keyOrNil stamp \<in> t_idempotency_key ` set (transfers d)"
    and no_fault: "\<And>s. ae_fault env s = None"
  shows "postOnce env cmd stamp d =
    (Inl (Errorf ''transfer: insert: %w'' [] [PgError ''23505'' ''transfers_idempotency_key_unique'']), d)"
proof -
  obtain a b where ab: "sql_select_account (c_SourceAccountID cmd) d = Some a"
      "sql_select_account (c_DestinationAccountID cmd) d = Some b"
      "a_Currency a = c_Currency cmd" "a_Currency b = c_Currency cmd" "\<not> a_BalanceMinor a < c_AmountMinor cmd"
    using assms(2) by (auto simp: refusal_def Let_def split: option.splits if_splits)
  have lock: "lockAccounts (ae_fault env) (c_SourceAccountID cmd) (c_DestinationAccountID cmd) (begin_tx d) =
      Inr (as_account a, as_account b)"
    using ab no_fault valid_cmdD(5) [OF cmd] by (intro lockAccounts_roles) auto
  have "sql_insert_transfer (new_transfer_row env cmd stamp) (begin_tx d) =
      Inl (PgError ''23505'' ''transfers_idempotency_key_unique'')"
    using row assms(4-6) by (auto simp: sql_insert_transfer_def Let_def)
  then show ?thesis
    using lock ab no_fault by (simp add: postOnce_def post_def exec_def as_account_def Let_def)
qed

lemma select_by_key_iff:
  assumes "db_ok d"
  shows "select_by_key key d = Some t \<longleftrightarrow> t \<in> set (transfers d) \<and> t_idempotency_key t = Some key"
proof
  assume "t \<in> set (transfers d) \<and> t_idempotency_key t = Some key"
  moreover from this obtain t' where "select_by_key key d = Some t'"
    by (cases "select_by_key key d") (auto simp: select_by_key_def find_None_iff)
  moreover from this have "t' \<in> set (transfers d) \<and> t_idempotency_key t' = Some key"
    by (auto simp: select_by_key_def dest: find_SomeD)
  ultimately show "select_by_key key d = Some t"
    using db_ok_key_unique [OF assms, of t' t key] by auto
qed (auto simp: select_by_key_def dest: find_SomeD)

text \<open>Without a usable Redis the call is the retried posting with the stamp.\<close>

lemma PostIdempotent_without_store:
  assumes "\<not> Available (sv_idem s)" and "ParseKey key = Inr k" and "Command_Validate cmd = None"
  shows "PostIdempotent s u env key cmd d r =
    postClaimed s u env key (command_fingerprint u cmd) cmd True d r"
  using assms by (simp add: PostIdempotent_def Key_String_def)

lemma attempt_quiet: "ae_others (env 1) d = d \<Longrightarrow> attempt_once env cmd stamp 1 d = postOnce (env 1) cmd stamp d"
  by (simp add: attempt_once_def)

text \<open>A rejected posting reaches the caller as it is, and the claim is released.\<close>

lemma postClaimed_reject:
  assumes "Command_Validate cmd = None"
    and "attempt_once (ie_attempts env) cmd (key_stamp key f) 1 d = (Inl err, d1)"
    and "\<not> retryable err" and "\<not> isDuplicateIdempotencyKey err"
  shows "postClaimed s u env key f cmd degraded d r =
    ((zero_Result\<lparr>rs_Attempts := no_attempts\<lparr>at_Total := 1\<rparr>, rs_CoordinationDegraded := degraded\<rparr>, Some err), d1,
     releaseClaim (sv_idem s) key r)"
  using assms(4) postWithRetry_reject [OF assms(1-3)]
  by (simp add: postClaimed_def Key_String_def Fingerprint_Bytes_def Let_def)

lemma postClaimed_duplicate:
  assumes "Command_Validate cmd = None"
    and "attempt_once (ie_attempts env) cmd (key_stamp key f) 1 d =
      (Inl (Errorf ''transfer: insert: %w'' [] [PgError ''23505'' ''transfers_idempotency_key_unique'']), d1)"
    and "recoverFromDatabase (ie_recover_fault env) key f (ie_recover_others env d1) = Inr (Some res)"
  shows "\<exists>r'. postClaimed s u env key f cmd degraded d r =
    ((res\<lparr>rs_Attempts := no_attempts\<lparr>at_Total := 1\<rparr>, rs_CoordinationDegraded := degraded\<rparr>, None),
     ie_recover_others env d1, r')"
  using assms(3) postWithRetry_reject [OF assms(1,2)]
  by (simp add: postClaimed_def Key_String_def Fingerprint_Bytes_def Let_def isDuplicateIdempotencyKey_def
      retryableCode_def)

section \<open>A key that already has its transfer\<close>

lemma can_post_key_fresh:
  "can_post env cmd (key_stamp key f) d \<Longrightarrow> t \<in> set (transfers d) \<Longrightarrow> t_idempotency_key t \<noteq> Some key"
  by (auto simp: can_post_def keyOrNil_def image_iff)

lemma idem_others_well: "idem_env_ok env \<Longrightarrow> \<forall>f \<in> idem_others env. well_behaved f"
  by (auto simp: idem_env_ok_def env_ok_def idem_others_def)

lemma idem_spec_known_key:
  assumes d: "db_ok d" and env: "idem_env_ok env" and ans: "answers d key f1 t1"
    and spec: "idem_spec env key f cmd d res e d'"
  shows "others_steps (idem_others env) d d' \<and> (e = None \<longrightarrow> rs_Replayed res \<and> rs_Transfer res = t1 \<and> f = f1)"
proof -
  note keep = others_steps_keep [OF _ idem_others_well [OF env] d]
  obtain row where row: "row \<in> set (transfers d)" "t_idempotency_key row = Some key"
      "t_request_fingerprint row = Some f1" "t1 = Transfer.truncate row"
    using ans by (auto simp: answers_def)
  have quiet: "others_steps (idem_others env) d d' \<and> (e = None \<longrightarrow> rs_Replayed res)"
    using spec keep extends_transfers row(1,2) can_post_key_fresh unfolding idem_spec_def by metis
  have "rs_Transfer res = t1 \<and> f = f1" if "e = None"
  proof -
    have "answers d' key f (rs_Transfer res)" using spec that by (simp add: idem_spec_def)
    then obtain row' where row': "row' \<in> set (transfers d')" "t_idempotency_key row' = Some key"
        "t_request_fingerprint row' = Some f" "rs_Transfer res = Transfer.truncate row'"
      by (auto simp: answers_def)
    have "row \<in> set (transfers d')" using quiet keep row(1) extends_transfers by blast
    then have "row' = row" using db_ok_key_unique row' row quiet keep by blast
    with row row' show ?thesis by simp
  qed
  with quiet show ?thesis by blast
qed

lemma answers_extends: "answers d key f t \<Longrightarrow> extends d d' \<Longrightarrow> answers d' key f t"
  by (auto simp: answers_def dest: extends_transfers)

section \<open>Calls that meet no fault\<close>

definition quiet_attempt :: "attempt_env \<Rightarrow> bool" where
  "quiet_attempt env \<longleftrightarrow> (\<forall>s. ae_fault env s = None) \<and> ae_commit env = NoFault \<and> (\<forall>d. ae_others env d = d)"

lemma postWithRetry_posts:
  assumes "db_ok d" and "valid_cmd cmd" and "quiet_attempt (env 1)" and "can_post (env 1) cmd stamp d"
  shows "postWithRetry p env cmd stamp d =
    (Inr (Transfer.truncate (posted_row (env 1) cmd stamp)), no_attempts\<lparr>at_Total := 1\<rparr>, posted_db (env 1) cmd stamp d)"
  using postOnce_accepted [OF assms(1,2,4)] assms(2,3)
  by (simp add: postWithRetry_def valid_cmd_def attempt_once_def quiet_attempt_def retry_loop_ok)

lemma postClaimed_posts:
  assumes "db_ok d" and "valid_cmd cmd" and "quiet_attempt (ie_attempts env 1)"
    and "can_post (ie_attempts env 1) cmd (key_stamp key f) d"
  shows "\<exists>res r'. postClaimed s u env key f cmd degraded d r =
      ((res, None), posted_db (ie_attempts env 1) cmd (key_stamp key f) d, r')
    \<and> rs_Transfer res = Transfer.truncate (posted_row (ie_attempts env 1) cmd (key_stamp key f))
    \<and> \<not> rs_Replayed res \<and> (degraded \<longrightarrow> rs_CoordinationDegraded res)"
  using postWithRetry_posts [of d cmd "ie_attempts env" "key_stamp key f" "sv_retry s"] assms
  by (simp add: postClaimed_def Key_String_def Fingerprint_Bytes_def Let_def zero_Result_def split: prod.splits)

lemma recoverFromDatabase_answers:
  assumes "db_ok d" and "answers d key f t" and "length f = 32"
  shows "\<exists>res. recoverFromDatabase None key f d = Inr (Some res) \<and> rs_Transfer res = t \<and> rs_Replayed res"
proof -
  obtain row where row: "select_by_key key d = Some row" "t_request_fingerprint row = Some f" "t = Transfer.truncate row"
    using assms(2) by (auto simp: answers_def select_by_key_iff [OF assms(1)])
  then show ?thesis using assms(3) by (simp add: recoverFromDatabase_def)
qed

lemma postClaimed_replays:
  assumes "db_ok d" and cmd: "valid_cmd cmd" and "ParseKey key = Inr k" and "length f = 32"
    and quiet: "quiet_attempt (ie_attempts env 1)" "ie_recover_fault env = None" "ie_recover_others env d = d"
    and "refusal cmd d = None" and "ae_transferID (ie_attempts env 1) \<notin> t_ID ` set (transfers d)"
    and ans: "answers d key f t"
  shows "\<exists>res r'. postClaimed s u env key f cmd degraded d r = ((res, None), d, r')
    \<and> rs_Transfer res = t \<and> rs_Replayed res"
proof -
  have "keyOrNil (key_stamp key f) \<in> t_idempotency_key ` set (transfers d)"
    using ans by (force simp: answers_def keyOrNil_def)
  with post_duplicate [OF cmd assms(8) check_new_row [OF cmd assms(3,4)] assms(9)] quiet(1)
  have dup: "attempt_once (ie_attempts env) cmd (key_stamp key f) 1 d =
      (Inl (Errorf ''transfer: insert: %w'' [] [PgError ''23505'' ''transfers_idempotency_key_unique'']), d)"
    by (simp add: attempt_once_def quiet_attempt_def keyOrNil_def)
  obtain res where res: "recoverFromDatabase (ie_recover_fault env) key f (ie_recover_others env d) = Inr (Some res)"
      "rs_Transfer res = t" "rs_Replayed res"
    using recoverFromDatabase_answers [OF assms(1) ans assms(4)] quiet by auto
  have "Command_Validate cmd = None" using cmd by (simp add: valid_cmd_def)
  from postClaimed_duplicate [OF this dup res(1), of s u degraded r] res(2,3) quiet(3) show ?thesis by auto
qed

lemma postClaimed_refused:
  assumes cmd: "valid_cmd cmd" and "quiet_attempt (ie_attempts env 1)" and "refusal cmd d = Some k"
  shows "\<exists>res err r'. postClaimed s u env key f cmd degraded d r = ((res, Some err), d, r') \<and> errors_is err k"
proof -
  obtain fm as where "postOnce (ie_attempts env 1) cmd (key_stamp key f) d = (Inl (Errorf fm as [Sentinel k]), d)"
    using postOnce_refused [OF cmd assms(3), of "ie_attempts env 1" "key_stamp key f"] assms(2)
    by (auto simp: quiet_attempt_def)
  then have once: "attempt_once (ie_attempts env) cmd (key_stamp key f) 1 d = (Inl (Errorf fm as [Sentinel k]), d)"
    using assms(2) by (simp add: attempt_once_def quiet_attempt_def)
  have "\<not> retryable (Errorf fm as [Sentinel k])" "\<not> isDuplicateIdempotencyKey (Errorf fm as [Sentinel k])"
    by (simp_all add: retryableCode_def isDuplicateIdempotencyKey_def)
  moreover have "Command_Validate cmd = None" using cmd by (simp add: valid_cmd_def)
  ultimately show ?thesis using once by (subst postClaimed_reject) auto
qed

end
