(* ===== verification/Accounts.thy ===== *)
theory Accounts
  imports Invariant
begin

text \<open>
  Package account (\<^verbatim>\<open>src/internal/account/account.go\<close>): opening and reading accounts.
  The new id (\<^verbatim>\<open>uuid.New()\<close>), the server's \<^verbatim>\<open>now()\<close> and the way the statement ends
  are arguments.  Opening an account is a \<open>ledger_writer\<close>.
\<close>

definition Account_Create ::
  "fault \<Rightarrow> uuid \<Rightarrow> int \<Rightarrow> Currency \<Rightarrow> db \<Rightarrow> Account result \<times> db" where
  "Account_Create flt new_id now currency d =
     (case Currency_Validate currency of
        Some err \<Rightarrow> (Inl err, d)
      | None \<Rightarrow>
          let a = \<lparr>a_ID = new_id, a_Currency = currency, a_BalanceMinor = 0,
                   a_CreatedAt = now, a_UpdatedAt = now\<rparr>;
              wrap = (\<lambda>err. Inl (Errorf ''account: create: %w'' [] [err])) in
          (case flt of
             Fault err \<Rightarrow> (wrap err, d)
           | _ \<Rightarrow>
               (case sql_insert_account a d of
                  Inl err \<Rightarrow> (wrap err, d)
                | Inr d' \<Rightarrow>
                    (case flt of LostAck err \<Rightarrow> (wrap err, d') | _ \<Rightarrow> (Inr a, d')))))"

definition Account_Get :: "go_error option \<Rightarrow> uuid \<Rightarrow> db \<Rightarrow> Account result" where
  "Account_Get flt i d =
     (case flt of
        Some err \<Rightarrow>
          if errors_is err pgx_ErrNoRows
          then Inl (Errorf ''account %s: %w'' [AUuid i] [Sentinel account_ErrNotFound])
          else Inl (Errorf ''account: get %s: %w'' [AUuid i] [err])
      | None \<Rightarrow>
          (case sql_select_account i d of
             None \<Rightarrow> Inl (Errorf ''account %s: %w'' [AUuid i] [Sentinel account_ErrNotFound])
           | Some a \<Rightarrow> Inr a))"

section \<open>Opening an account as a ledger writer\<close>

lemma Account_Create_cases:
  assumes "Account_Create flt i now c d = (r, d')"
  shows "(\<exists>err. r = Inl err) \<and> d' = d
    \<or> (let a = \<lparr>a_ID = i, a_Currency = c, a_BalanceMinor = 0, a_CreatedAt = now, a_UpdatedAt = now\<rparr> in
        check_account a = None \<and> i \<notin> a_ID ` set (accounts d) \<and> d' = d\<lparr>accounts := accounts d @ [a]\<rparr>
        \<and> (r = Inr a \<or> (\<exists>err e. flt = LostAck e \<and> r = Inl err)))"
  using assms
  by (auto simp: Account_Create_def sql_insert_account_def Let_def
      split: option.splits fault.splits sum.splits if_splits)

lemma account_ledger_unknown: "db_ok d \<Longrightarrow> i \<notin> a_ID ` set (accounts d) \<Longrightarrow> account_ledger d i = 0"
proof -
  assume d: "db_ok d" and i: "i \<notin> a_ID ` set (accounts d)"
  then have "filter (\<lambda>e. e_AccountID e = i) (ledger_entries d) = []"
    by (auto simp: filter_empty_conv db_ok_def schema_ok_def entries_ok_def)
  then show ?thesis by (simp add: account_ledger_def sum_amounts_def)
qed

lemma opened_keeps:
  assumes d: "db_ok d" and a: "check_account a = None" "a_ID a \<notin> a_ID ` set (accounts d)" "a_BalanceMinor a = 0"
  defines "d' \<equiv> d\<lparr>accounts := accounts d @ [a]\<rparr>"
  shows "db_ok d' \<and> extends d d' \<and> unexplained d' = unexplained d \<and> currency_total c d' = currency_total c d"
proof -
  have "entries_of t d' = entries_of t d" for t by (simp add: entries_of_def d'_def)
  then have "db_ok d'"
    using d a
    by (auto simp: d'_def db_ok_def schema_ok_def ledger_ok_def accounts_ok_def transfers_ok_def
        entries_ok_def in_int64_def)
  moreover have "unexplained d' i = unexplained d i" for i
  proof (cases "i = a_ID a")
    case True
    then show ?thesis
      using a account_ledger_unknown [OF d a(2)] sql_select_account_None [of "a_ID a" d]
      by (auto simp: unexplained_def sql_select_account_def d'_def find_append account_ledger_def
          split: option.splits)
  next
    case False
    then show ?thesis
      by (auto simp: unexplained_def sql_select_account_def d'_def find_append account_ledger_def
          split: option.splits)
  qed
  ultimately show ?thesis using a(3) by (auto simp: d'_def extends_def currency_total_def)
qed

definition create_op :: "fault \<times> uuid \<times> int \<times> Currency \<Rightarrow> db \<Rightarrow> Account result \<times> db" where
  "create_op i d = (case i of (flt, new_id, now, currency) \<Rightarrow> Account_Create flt new_id now currency d)"

interpretation creation: ledger_writer create_op "\<lambda>_. True"
proof unfold_locales
  fix i :: "fault \<times> uuid \<times> int \<times> Currency"
  obtain flt new_id now cu where i: "i = (flt, new_id, now, cu)" by (cases i)
  have "db_ok d' \<and> extends d d' \<and> unexplained d' = unexplained d \<and> currency_total c d' = currency_total c d"
    if "db_ok d" "d' = snd (create_op i d)" for d d' c
    using Account_Create_cases [of flt new_id now cu d "fst (create_op i d)" d'] opened_keeps [of d _ c] that
    by (auto simp: create_op_def i Let_def)
  then show "well_behaved (\<lambda>d. snd (create_op i d))" by (simp add: well_behaved_def)
qed

end
