(* ===== verification/Reconcile.thy ===== *)
theory Reconcile
  imports Invariant "HOL-Library.Multiset"
begin

text \<open>
  Reconciliation (\<^verbatim>\<open>src/internal/reconcile/reconcile.go\<close>): the four queries of
  \<^verbatim>\<open>Check\<close> and the baseline snapshot.  Each query reads a committed state of its own
  (\<open>reads q\<close>), because nothing puts the queries of one pass into one transaction.  A query can
  fail when it is sent or while its rows are read (\<open>read_fault\<close>), and a sum that does not fit an \<^verbatim>\<open>int64\<close> fails to scan.  \<^verbatim>\<open>ORDER BY id\<close> is
  the byte order of UUIDs.  A formatted line is its format and its arguments.
\<close>

type_synonym Baseline = "uuid \<Rightarrow> int option"
type_synonym line = "string \<times> fmt_arg list"

record NegativeBalance =
  nb_AccountID :: uuid
  nb_BalanceMinor :: int

record BalanceMismatch =
  bm_AccountID :: uuid
  bm_StoredMinor :: int
  bm_BaselineMinor :: int
  bm_LedgerMinor :: int
  bm_ExpectedMinor :: int

definition Difference :: "BalanceMismatch \<Rightarrow> int" where
  "Difference m = wrap64 (bm_StoredMinor m - bm_ExpectedMinor m)"

record TransferProblem =
  tp_TransferID :: uuid
  tp_EntryCount :: nat
  tp_EntrySumMinor :: int
  tp_DebitCount :: nat
  tp_CreditCount :: nat
  tp_CurrencyMismatches :: nat
  tp_ForeignAccounts :: nat
  tp_WrongDebitAmount :: nat
  tp_WrongCreditAmount :: nat

definition TransferProblem_String :: "TransferProblem \<Rightarrow> line" where
  "TransferProblem_String p =
     (''transfer %s: entries=%d sum=%d debits=%d credits=%d currency_mismatches=%d foreign_accounts=%d wrong_debit=%d wrong_credit=%d'',
      [AUuid (tp_TransferID p), AInt (int (tp_EntryCount p)), AInt (tp_EntrySumMinor p),
       AInt (int (tp_DebitCount p)), AInt (int (tp_CreditCount p)), AInt (int (tp_CurrencyMismatches p)),
       AInt (int (tp_ForeignAccounts p)), AInt (int (tp_WrongDebitAmount p)), AInt (int (tp_WrongCreditAmount p))])"

record Report =
  rp_Accounts :: nat
  rp_CompletedTransfers :: nat
  rp_PendingTransfers :: nat
  rp_LedgerEntries :: nat
  rp_TotalBalanceMinor :: int
  rp_TotalLedgerMinor :: int
  rp_NegativeBalances :: "NegativeBalance list"
  rp_BalanceMismatches :: "BalanceMismatch list"
  rp_UnbalancedTransfers :: "TransferProblem list"

definition zero_Report :: Report where
  "zero_Report = \<lparr>rp_Accounts = 0, rp_CompletedTransfers = 0, rp_PendingTransfers = 0, rp_LedgerEntries = 0,
     rp_TotalBalanceMinor = 0, rp_TotalLedgerMinor = 0, rp_NegativeBalances = [], rp_BalanceMismatches = [],
     rp_UnbalancedTransfers = []\<rparr>"

definition Report_OK :: "Report \<Rightarrow> bool" where
  "Report_OK r \<longleftrightarrow> length (rp_NegativeBalances r) = 0 \<and> length (rp_BalanceMismatches r) = 0
     \<and> length (rp_UnbalancedTransfers r) = 0 \<and> rp_TotalLedgerMinor r = 0"

definition Violations :: "Report \<Rightarrow> nat" where
  "Violations r =
     (let n = length (rp_NegativeBalances r) + length (rp_BalanceMismatches r) + length (rp_UnbalancedTransfers r) in
      if rp_TotalLedgerMinor r \<noteq> 0 then n + 1 else n)"

definition Problems :: "Report \<Rightarrow> line list" where
  "Problems r =
     (if rp_TotalLedgerMinor r \<noteq> 0
      then [(''the whole ledger sums to %d, want 0'', [AInt (rp_TotalLedgerMinor r)])] else [])
     @ map (\<lambda>n. (''account %s has a negative balance of %d'', [AUuid (nb_AccountID n), AInt (nb_BalanceMinor n)]))
         (rp_NegativeBalances r)
     @ map (\<lambda>m. (''account %s holds %d but baseline %d plus ledger %d expects %d (difference %d)'',
                  [AUuid (bm_AccountID m), AInt (bm_StoredMinor m), AInt (bm_BaselineMinor m),
                   AInt (bm_LedgerMinor m), AInt (bm_ExpectedMinor m), AInt (Difference m)]))
         (rp_BalanceMismatches r)
     @ map TransferProblem_String (rp_UnbalancedTransfers r)"

section \<open>Queries\<close>

datatype recon_query = QTotals | QNegative | QUnbalanced | QMismatches

definition scan_error :: go_error where
  "scan_error = LibError ''cannot scan numeric into *int64''"

text \<open>The result of a query and the collection of its rows, with the two error formats.\<close>

definition collect_rows :: "read_fault \<Rightarrow> string \<Rightarrow> string \<Rightarrow> bool \<Rightarrow> 'a \<Rightarrow> 'a result" where
  "collect_rows flt query_fmt scan_fmt scans x =
     (case flt of
        QueryFault err \<Rightarrow> Inl (Errorf query_fmt [] [err])
      | ReadFault err \<Rightarrow> Inl (Errorf scan_fmt [] [err])
      | NoReadFault \<Rightarrow> if scans then Inr x else Inl (Errorf scan_fmt [] [scan_error]))"

definition countTotals :: "read_fault \<Rightarrow> db \<Rightarrow> Report \<Rightarrow> Report result" where
  "countTotals flt d report =
     (let failed = (\<lambda>err. Inl (Errorf ''reconcile: totals: %w'' [] [err]));
          balances = total_balance d; ledger = sum_amounts (ledger_entries d) in
      case flt of
        QueryFault err \<Rightarrow> failed err
      | ReadFault err \<Rightarrow> failed err
      | NoReadFault \<Rightarrow>
          if \<not> in_int64 balances \<or> \<not> in_int64 ledger then failed scan_error
          else Inr (report\<lparr>rp_Accounts := length (accounts d), rp_TotalBalanceMinor := balances,
                 rp_CompletedTransfers := length (filter (\<lambda>t. t_Status t = StatusCompleted) (transfers d)),
                 rp_PendingTransfers := length (filter (\<lambda>t. t_Status t = StatusPending) (transfers d)),
                 rp_LedgerEntries := length (ledger_entries d), rp_TotalLedgerMinor := ledger\<rparr>))"

definition findNegativeBalances :: "read_fault \<Rightarrow> db \<Rightarrow> Report \<Rightarrow> Report result" where
  "findNegativeBalances flt d report =
     collect_rows flt ''reconcile: negative balances: %w'' ''reconcile: scan negative balances: %w'' True
       (report\<lparr>rp_NegativeBalances :=
          map (\<lambda>a. \<lparr>nb_AccountID = a_ID a, nb_BalanceMinor = a_BalanceMinor a\<rparr>)
            (sort_key a_ID (filter (\<lambda>a. a_BalanceMinor a < 0) (accounts d)))\<rparr>)"

text \<open>One group of \<open>per_transfer\<close>.  The LEFT JOIN gives a transfer without entries one row of
  NULLs, whose currency is distinct from the transfer's.\<close>

definition count_where :: "('a \<Rightarrow> bool) \<Rightarrow> 'a list \<Rightarrow> nat" where
  "count_where P xs = length (filter P xs)"

definition per_transfer :: "db \<Rightarrow> transfer_row \<Rightarrow> TransferProblem" where
  "per_transfer d t =
     (let es = entries_of (t_ID t) d in
      \<lparr>tp_TransferID = t_ID t, tp_EntryCount = length es, tp_EntrySumMinor = sum_amounts es,
       tp_DebitCount = count_where (\<lambda>e. e_AmountMinor e < 0) es,
       tp_CreditCount = count_where (\<lambda>e. e_AmountMinor e > 0) es,
       tp_CurrencyMismatches = (if es = [] then 1 else count_where (\<lambda>e. e_Currency e \<noteq> t_Currency t) es),
       tp_ForeignAccounts = count_where (\<lambda>e. e_AccountID e \<noteq> t_SourceAccountID t \<and> e_AccountID e \<noteq> t_DestinationAccountID t) es,
       tp_WrongDebitAmount = count_where (\<lambda>e. e_AccountID e = t_SourceAccountID t \<and> e_AmountMinor e \<noteq> - t_AmountMinor t) es,
       tp_WrongCreditAmount = count_where (\<lambda>e. e_AccountID e = t_DestinationAccountID t \<and> e_AmountMinor e \<noteq> t_AmountMinor t) es\<rparr>)"

definition offending :: "TransferProblem \<Rightarrow> bool" where
  "offending p \<longleftrightarrow> tp_EntryCount p \<noteq> 2 \<or> tp_EntrySumMinor p \<noteq> 0 \<or> tp_DebitCount p \<noteq> 1 \<or> tp_CreditCount p \<noteq> 1
     \<or> tp_CurrencyMismatches p > 0 \<or> tp_ForeignAccounts p > 0 \<or> tp_WrongDebitAmount p > 0 \<or> tp_WrongCreditAmount p > 0"

definition findUnbalancedTransfers :: "read_fault \<Rightarrow> db \<Rightarrow> Report \<Rightarrow> Report result" where
  "findUnbalancedTransfers flt d report =
     (let rows = filter offending (map (per_transfer d)
                   (sort_key t_ID (filter (\<lambda>t. t_Status t = StatusCompleted) (transfers d)))) in
      collect_rows flt ''reconcile: unbalanced transfers: %w'' ''reconcile: scan unbalanced transfers: %w''
        (list_all (\<lambda>p. in_int64 (tp_EntrySumMinor p)) rows)
        (report\<lparr>rp_UnbalancedTransfers := rows\<rparr>))"

definition mismatch_row :: "Baseline \<Rightarrow> db \<Rightarrow> Account \<Rightarrow> BalanceMismatch" where
  "mismatch_row baseline d a =
     (let base = (case baseline (a_ID a) of None \<Rightarrow> 0 | Some b \<Rightarrow> b); ledger = account_ledger d (a_ID a) in
      \<lparr>bm_AccountID = a_ID a, bm_StoredMinor = a_BalanceMinor a, bm_BaselineMinor = base,
       bm_LedgerMinor = ledger, bm_ExpectedMinor = wrap64 (base + ledger)\<rparr>)"

definition findBalanceMismatches :: "read_fault \<Rightarrow> db \<Rightarrow> Baseline \<Rightarrow> Report \<Rightarrow> Report result" where
  "findBalanceMismatches flt d baseline report =
     (let rows = map (mismatch_row baseline d) (sort_key a_ID (accounts d)) in
      collect_rows flt ''reconcile: balance mismatches: %w'' ''reconcile: scan balance mismatches: %w''
        (list_all (\<lambda>m. in_int64 (bm_LedgerMinor m)) rows)
        (report\<lparr>rp_BalanceMismatches := rp_BalanceMismatches report
            @ filter (\<lambda>m. bm_StoredMinor m \<noteq> bm_ExpectedMinor m) rows\<rparr>))"

definition Check :: "(recon_query \<Rightarrow> read_fault) \<Rightarrow> (recon_query \<Rightarrow> db) \<Rightarrow> Baseline \<Rightarrow> Report result" where
  "Check flt reads baseline =
     (case countTotals (flt QTotals) (reads QTotals) zero_Report of Inl err \<Rightarrow> Inl err
      | Inr r1 \<Rightarrow>
     (case findNegativeBalances (flt QNegative) (reads QNegative) r1 of Inl err \<Rightarrow> Inl err
      | Inr r2 \<Rightarrow>
     (case findUnbalancedTransfers (flt QUnbalanced) (reads QUnbalanced) r2 of Inl err \<Rightarrow> Inl err
      | Inr r3 \<Rightarrow> findBalanceMismatches (flt QMismatches) (reads QMismatches) baseline r3)))"

definition SnapshotBaseline :: "read_fault \<Rightarrow> db \<Rightarrow> Baseline result" where
  "SnapshotBaseline flt d =
     (let rows = map (\<lambda>a. (a_ID a, a_BalanceMinor a - account_ledger d (a_ID a))) (accounts d) in
      case flt of
        QueryFault err \<Rightarrow> Inl (Errorf ''reconcile: snapshot baseline: %w'' [] [err])
      | ReadFault err \<Rightarrow> Inl (Errorf ''reconcile: read baseline: %w'' [] [err])
      | NoReadFault \<Rightarrow>
          if list_all (\<lambda>(i, u). in_int64 u) rows then Inr (map_of rows)
          else Inl (Errorf ''reconcile: scan baseline: %w'' [] [scan_error]))"

section \<open>Facts\<close>

lemma count_where_0 [simp]: "count_where P xs = 0 \<longleftrightarrow> (\<forall>x \<in> set xs. \<not> P x)"
  by (auto simp: count_where_def filter_empty_conv)

text \<open>What the SQL conditions say: the entries are the two legs of the transfer, in either order.\<close>

definition has_legs :: "transfer_row \<Rightarrow> Entry list \<Rightarrow> bool" where
  "has_legs t es \<longleftrightarrow> posted_legs t es \<or> posted_legs t (rev es)"

lemma length_2E: "length es = 2 \<Longrightarrow> (\<And>x y. es = [x, y] \<Longrightarrow> thesis) \<Longrightarrow> thesis"
  by (metis One_nat_def length_0_conv length_Suc_conv numeral_2_eq_2)

lemma posted_legs_length: "posted_legs t es \<Longrightarrow> length es = 2"
  by (induction t es rule: posted_legs.induct) auto

lemma has_legsD:
  assumes "has_legs t es"
  obtains x y where "es = [x, y]" "posted_legs t [x, y] \<or> posted_legs t [y, x]"
proof -
  have "length es = 2" using assms posted_legs_length [of t es] posted_legs_length [of t "rev es"]
    by (auto simp: has_legs_def)
  then obtain x y where "es = [x, y]" by (rule length_2E)
  with assms show ?thesis by (auto simp: has_legs_def intro: that)
qed

lemma offending_iff:
  assumes "0 < t_AmountMinor t" and "t_SourceAccountID t \<noteq> t_DestinationAccountID t"
  shows "\<not> offending (per_transfer d t) \<longleftrightarrow> has_legs t (entries_of (t_ID t) d)"
proof
  assume "has_legs t (entries_of (t_ID t) d)"
  then obtain x y where "entries_of (t_ID t) d = [x, y]" "posted_legs t [x, y] \<or> posted_legs t [y, x]"
    by (rule has_legsD)
  then show "\<not> offending (per_transfer d t)"
    using assms by (auto simp: offending_def per_transfer_def count_where_def sum_amounts_def)
next
  assume not: "\<not> offending (per_transfer d t)"
  then have "length (entries_of (t_ID t) d) = 2" by (simp add: offending_def per_transfer_def Let_def)
  then obtain x y where es: "entries_of (t_ID t) d = [x, y]" by (rule length_2E)
  have "posted_legs t [x, y] \<or> posted_legs t [y, x]"
    using not assms
    by (auto simp: offending_def per_transfer_def count_where_def sum_amounts_def es split: if_splits)
  then show "has_legs t (entries_of (t_ID t) d)" by (simp add: has_legs_def es)
qed

lemma OK_iff_Violations: "Report_OK r \<longleftrightarrow> Violations r = 0"
  by (auto simp: Report_OK_def Violations_def Let_def)

lemma length_Problems: "length (Problems r) = Violations r"
  by (simp add: Problems_def Violations_def Let_def)

text \<open>A pass that completes is clean exactly when the states it read satisfy the invariants.\<close>

lemma collect_rows_Inr [simp]:
  "collect_rows flt q s c x = Inr y \<longleftrightarrow> flt = NoReadFault \<and> c \<and> y = x"
  by (auto simp: collect_rows_def split: read_fault.splits)

definition expected_balance :: "Baseline \<Rightarrow> db \<Rightarrow> uuid \<Rightarrow> int" where
  "expected_balance baseline d i = wrap64 ((case baseline i of None \<Rightarrow> 0 | Some b \<Rightarrow> b) + account_ledger d i)"

lemma mismatch_row_simps [simp]:
  "bm_StoredMinor (mismatch_row b d a) = a_BalanceMinor a"
  "bm_ExpectedMinor (mismatch_row b d a) = expected_balance b d (a_ID a)"
  "bm_LedgerMinor (mismatch_row b d a) = account_ledger d (a_ID a)"
  by (simp_all add: mismatch_row_def expected_balance_def Let_def)

lemma Check_Inr_OK:
  assumes "Check flt reads baseline = Inr rep"
  shows "Report_OK rep \<longleftrightarrow>
     sum_amounts (ledger_entries (reads QTotals)) = 0
     \<and> (\<forall>a \<in> set (accounts (reads QNegative)). 0 \<le> a_BalanceMinor a)
     \<and> (\<forall>t \<in> set (transfers (reads QUnbalanced)).
          t_Status t = StatusCompleted \<longrightarrow> \<not> offending (per_transfer (reads QUnbalanced) t))
     \<and> (\<forall>a \<in> set (accounts (reads QMismatches)).
          a_BalanceMinor a = expected_balance baseline (reads QMismatches) (a_ID a))"
  using assms
  by (auto simp: Check_def countTotals_def findNegativeBalances_def findUnbalancedTransfers_def
      findBalanceMismatches_def Let_def Report_OK_def zero_Report_def filter_empty_conv not_less
      split: sum.splits read_fault.splits if_splits)

text \<open>
  The violations themselves, independent of how they are found: the accounts with a negative balance,
  the completed transfers without their two legs, the accounts whose balance is not explained; and the
  line that has to name each of them.
\<close>

definition overdrawn :: "db \<Rightarrow> Account list" where
  "overdrawn d = filter (\<lambda>a. a_BalanceMinor a < 0) (accounts d)"

definition broken :: "db \<Rightarrow> transfer_row list" where
  "broken d = filter (\<lambda>t. t_Status t = StatusCompleted \<and> \<not> has_legs t (entries_of (t_ID t) d)) (transfers d)"

definition unexplained_accounts :: "Baseline \<Rightarrow> db \<Rightarrow> Account list" where
  "unexplained_accounts baseline d = filter (\<lambda>a. a_BalanceMinor a \<noteq> expected_balance baseline d (a_ID a)) (accounts d)"

definition overdrawn_line :: "Account \<Rightarrow> line" where
  "overdrawn_line a = (''account %s has a negative balance of %d'', [AUuid (a_ID a), AInt (a_BalanceMinor a)])"

definition broken_line :: "db \<Rightarrow> transfer_row \<Rightarrow> line" where
  "broken_line d t =
     (let es = entries_of (t_ID t) d; n = (\<lambda>P. AInt (int (length (filter P es)))) in
      (''transfer %s: entries=%d sum=%d debits=%d credits=%d currency_mismatches=%d foreign_accounts=%d wrong_debit=%d wrong_credit=%d'',
       [AUuid (t_ID t), AInt (int (length es)), AInt (sum_list (map e_AmountMinor es)),
        n (\<lambda>e. e_AmountMinor e < 0), n (\<lambda>e. e_AmountMinor e > 0),
        (if es = [] then AInt 1 else n (\<lambda>e. e_Currency e \<noteq> t_Currency t)),
        n (\<lambda>e. e_AccountID e \<notin> {t_SourceAccountID t, t_DestinationAccountID t}),
        n (\<lambda>e. e_AccountID e = t_SourceAccountID t \<and> e_AmountMinor e \<noteq> - t_AmountMinor t),
        n (\<lambda>e. e_AccountID e = t_DestinationAccountID t \<and> e_AmountMinor e \<noteq> t_AmountMinor t)]))"

definition unexplained_line :: "Baseline \<Rightarrow> db \<Rightarrow> Account \<Rightarrow> line" where
  "unexplained_line baseline d a =
     (''account %s holds %d but baseline %d plus ledger %d expects %d (difference %d)'',
      [AUuid (a_ID a), AInt (a_BalanceMinor a), AInt (case baseline (a_ID a) of None \<Rightarrow> 0 | Some b \<Rightarrow> b),
       AInt (account_ledger d (a_ID a)), AInt (expected_balance baseline d (a_ID a)),
       AInt (wrap64 (a_BalanceMinor a - expected_balance baseline d (a_ID a)))])"

lemma broken_line_String: "TransferProblem_String (per_transfer d t) = broken_line d t"
  by (simp add: TransferProblem_String_def per_transfer_def broken_line_def count_where_def sum_amounts_def Let_def)

lemma unexplained_line_row:
  "(''account %s holds %d but baseline %d plus ledger %d expects %d (difference %d)'',
    [AUuid (bm_AccountID (mismatch_row baseline d a)), AInt (bm_StoredMinor (mismatch_row baseline d a)),
     AInt (bm_BaselineMinor (mismatch_row baseline d a)), AInt (bm_LedgerMinor (mismatch_row baseline d a)),
     AInt (bm_ExpectedMinor (mismatch_row baseline d a)), AInt (Difference (mismatch_row baseline d a))]) = unexplained_line baseline d a"
  by (simp add: mismatch_row_def unexplained_line_def Difference_def expected_balance_def Let_def)

lemma schema_ok_offending:
  assumes "schema_ok d" and "t \<in> set (transfers d)"
  shows "offending (per_transfer d t) \<longleftrightarrow> \<not> has_legs t (entries_of (t_ID t) d)"
proof -
  have "check_transfer t = None" using assms by (simp add: schema_ok_def transfers_ok_def)
  then have "0 < t_AmountMinor t" "t_SourceAccountID t \<noteq> t_DestinationAccountID t"
    by (auto simp: check_transfer_def split: if_splits)
  from offending_iff [OF this] show ?thesis by blast
qed

text \<open>The report of a pass that completes, list by list, up to the order of the rows.\<close>

lemma Check_Inr_lists:
  assumes "Check flt reads baseline = Inr rep"
  shows "rp_TotalLedgerMinor rep = sum_amounts (ledger_entries (reads QTotals))"
    "mset (rp_NegativeBalances rep) =
       mset (map (\<lambda>a. \<lparr>nb_AccountID = a_ID a, nb_BalanceMinor = a_BalanceMinor a\<rparr>) (overdrawn (reads QNegative)))"
    "mset (rp_UnbalancedTransfers rep) = mset (map (per_transfer (reads QUnbalanced))
       (filter (\<lambda>t. t_Status t = StatusCompleted \<and> offending (per_transfer (reads QUnbalanced) t)) (transfers (reads QUnbalanced))))"
    "mset (rp_BalanceMismatches rep) =
       mset (map (mismatch_row baseline (reads QMismatches)) (unexplained_accounts baseline (reads QMismatches)))"
proof -
  have rep: "rp_TotalLedgerMinor rep = sum_amounts (ledger_entries (reads QTotals))"
    "rp_NegativeBalances rep = map (\<lambda>a. \<lparr>nb_AccountID = a_ID a, nb_BalanceMinor = a_BalanceMinor a\<rparr>)
       (sort_key a_ID (filter (\<lambda>a. a_BalanceMinor a < 0) (accounts (reads QNegative))))"
    "rp_UnbalancedTransfers rep = filter offending (map (per_transfer (reads QUnbalanced))
       (sort_key t_ID (filter (\<lambda>t. t_Status t = StatusCompleted) (transfers (reads QUnbalanced)))))"
    "rp_BalanceMismatches rep = filter (\<lambda>m. bm_StoredMinor m \<noteq> bm_ExpectedMinor m)
       (map (mismatch_row baseline (reads QMismatches)) (sort_key a_ID (accounts (reads QMismatches))))"
    using assms
    by (auto simp: Check_def countTotals_def findNegativeBalances_def findUnbalancedTransfers_def
        findBalanceMismatches_def Let_def zero_Report_def split: sum.splits read_fault.splits if_splits)
  show "rp_TotalLedgerMinor rep = sum_amounts (ledger_entries (reads QTotals))" by (rule rep)
  show "mset (rp_NegativeBalances rep) =
      mset (map (\<lambda>a. \<lparr>nb_AccountID = a_ID a, nb_BalanceMinor = a_BalanceMinor a\<rparr>) (overdrawn (reads QNegative)))"
    by (simp add: rep overdrawn_def)
  show "mset (rp_UnbalancedTransfers rep) = mset (map (per_transfer (reads QUnbalanced))
      (filter (\<lambda>t. t_Status t = StatusCompleted \<and> offending (per_transfer (reads QUnbalanced) t)) (transfers (reads QUnbalanced))))"
    by (simp add: rep filter_map comp_def filter_mset_image_mset filter_filter_mset conj_commute mset_filter)
  show "mset (rp_BalanceMismatches rep) =
      mset (map (mismatch_row baseline (reads QMismatches)) (unexplained_accounts baseline (reads QMismatches)))"
    by (simp add: rep unexplained_accounts_def filter_map comp_def mset_filter)
qed

text \<open>The lines of the report are exactly the lines of the violations, each of them once.\<close>

lemma Check_Inr_Problems:
  assumes "Check flt reads baseline = Inr rep" and "schema_ok (reads QUnbalanced)"
  shows "mset (Problems rep) =
    mset ((if sum_amounts (ledger_entries (reads QTotals)) = 0 then []
           else [(''the whole ledger sums to %d, want 0'', [AInt (sum_amounts (ledger_entries (reads QTotals)))])])
      @ map overdrawn_line (overdrawn (reads QNegative))
      @ map (unexplained_line baseline (reads QMismatches)) (unexplained_accounts baseline (reads QMismatches))
      @ map (broken_line (reads QUnbalanced)) (broken (reads QUnbalanced)))"
proof -
  note lists = Check_Inr_lists [OF assms(1)]
  have broken: "filter (\<lambda>t. t_Status t = StatusCompleted \<and> offending (per_transfer (reads QUnbalanced) t)) (transfers (reads QUnbalanced))
      = broken (reads QUnbalanced)"
    unfolding broken_def using schema_ok_offending [OF assms(2)] by (intro filter_cong) auto
  have neg: "mset (map (\<lambda>n. (''account %s has a negative balance of %d'', [AUuid (nb_AccountID n), AInt (nb_BalanceMinor n)])) (rp_NegativeBalances rep))
      = mset (map overdrawn_line (overdrawn (reads QNegative)))"
    unfolding mset_map lists(2) by (simp add: overdrawn_line_def [abs_def] multiset.map_comp comp_def)
  have mis: "mset (map (\<lambda>m. (''account %s holds %d but baseline %d plus ledger %d expects %d (difference %d)'',
                  [AUuid (bm_AccountID m), AInt (bm_StoredMinor m), AInt (bm_BaselineMinor m),
                   AInt (bm_LedgerMinor m), AInt (bm_ExpectedMinor m), AInt (Difference m)])) (rp_BalanceMismatches rep))
      = mset (map (unexplained_line baseline (reads QMismatches)) (unexplained_accounts baseline (reads QMismatches)))"
    unfolding mset_map lists(4) by (simp only: mset_map multiset.map_comp comp_def unexplained_line_row)
  have unb: "mset (map TransferProblem_String (rp_UnbalancedTransfers rep)) = mset (map (broken_line (reads QUnbalanced)) (broken (reads QUnbalanced)))"
    unfolding mset_map lists(3) broken by (simp only: mset_map multiset.map_comp comp_def broken_line_String)
  show ?thesis unfolding Problems_def lists(1) mset_append neg mis unb by simp
qed

section \<open>The ledger of a well-formed database sums to zero\<close>

lemma sum_list_grouped:
  fixes f :: "'a \<Rightarrow> int"
  assumes "distinct ks" and "\<forall>x \<in> set xs. key x \<in> set ks"
  shows "sum_list (map f xs) = sum_list (map (\<lambda>k. sum_list (map f (filter (\<lambda>x. key x = k) xs))) ks)"
  using assms(2)
proof (induction xs)
  case Nil
  then show ?case by simp
next
  case (Cons x xs)
  have "sum_list (map (\<lambda>k. sum_list (map f (filter (\<lambda>y. key y = k) (x # xs)))) ks) =
      sum_list (map (\<lambda>k. (if k = key x then f x else 0) + sum_list (map f (filter (\<lambda>y. key y = k) xs))) ks)"
    by (intro arg_cong [of _ _ sum_list] map_cong) auto
  also have "\<dots> = f x + sum_list (map (\<lambda>k. sum_list (map f (filter (\<lambda>y. key y = k) xs))) ks)"
    using Cons.prems assms(1) sum_list_key [of "\<lambda>k. k" ks "key x" "f x"] by (simp add: sum_list_addf)
  finally show ?case using Cons by simp
qed

lemma posted_legs_sum: "posted_legs t es \<Longrightarrow> sum_amounts es = 0"
  by (induction t es rule: posted_legs.induct) (auto simp: sum_amounts_def)

lemma db_ok_ledger_zero:
  assumes "db_ok d"
  shows "sum_amounts (ledger_entries d) = 0"
proof -
  have "sum_amounts (ledger_entries d) =
      sum_list (map (\<lambda>k. sum_amounts (entries_of k d)) (map t_ID (transfers d)))"
    unfolding sum_amounts_def entries_of_def
    by (rule sum_list_grouped) (use assms in \<open>auto simp: db_ok_def schema_ok_def transfers_ok_def entries_ok_def\<close>)
  also have "\<dots> = sum_list (map (\<lambda>t. 0) (transfers d))"
    unfolding map_map
    by (intro arg_cong [of _ _ sum_list] map_cong) (use assms in \<open>auto simp: db_ok_def ledger_ok_def posted_legs_sum\<close>)
  finally show ?thesis by simp
qed

lemma db_ok_not_offending:
  assumes "db_ok d" and "t \<in> set (transfers d)"
  shows "\<not> offending (per_transfer d t)"
proof -
  have "check_transfer t = None" "posted_legs t (entries_of (t_ID t) d)"
    using assms by (auto simp: db_ok_def schema_ok_def transfers_ok_def ledger_ok_def)
  then show ?thesis
    by (subst offending_iff) (auto simp: check_transfer_def has_legs_def split: if_splits)
qed

section \<open>A clean pass\<close>

text \<open>The sums a pass scans into \<^verbatim>\<open>int64\<close> variables fit.\<close>

definition sums_fit :: "db \<Rightarrow> bool" where
  "sums_fit d \<longleftrightarrow> in_int64 (total_balance d) \<and> (\<forall>a \<in> set (accounts d). in_int64 (account_ledger d (a_ID a)))"

definition baseline_of :: "db \<Rightarrow> Baseline" where
  "baseline_of d = map_of (map (\<lambda>a. (a_ID a, a_BalanceMinor a - account_ledger d (a_ID a))) (accounts d))"

lemma expected_balance_unexplained:
  assumes d: "db_ok d" and a: "a \<in> set (accounts d)"
    and b: "(case baseline (a_ID a) of None \<Rightarrow> 0 | Some b \<Rightarrow> b) = unexplained d (a_ID a)"
  shows "a_BalanceMinor a = expected_balance baseline d (a_ID a)"
proof -
  have "sql_select_account (a_ID a) d = Some a" using a by (simp add: sql_select_account_iff [OF d])
  then have "(case baseline (a_ID a) of None \<Rightarrow> 0 | Some b \<Rightarrow> b) + account_ledger d (a_ID a) = a_BalanceMinor a"
    using b by (simp add: unexplained_def)
  moreover have "in_int64 (a_BalanceMinor a)" using d a by (simp add: db_ok_def schema_ok_def accounts_ok_def)
  ultimately show ?thesis by (simp add: expected_balance_def)
qed

lemma Check_clean:
  assumes reads: "\<And>q. db_ok (reads q)" "\<And>q. sums_fit (reads q)"
    and base: "\<And>a. a \<in> set (accounts (reads QMismatches)) \<Longrightarrow>
      (case baseline (a_ID a) of None \<Rightarrow> 0 | Some b \<Rightarrow> b) = unexplained (reads QMismatches) (a_ID a)"
  shows "\<exists>rep. Check (\<lambda>_. NoReadFault) reads baseline = Inr rep \<and> Report_OK rep"
proof -
  have un: "filter offending (map (per_transfer (reads q)) (sort_key t_ID (filter P (transfers (reads q))))) = []" for q P
    using db_ok_not_offending [OF reads(1)] by (auto simp: filter_empty_conv)
  have "\<exists>rep. Check (\<lambda>_. NoReadFault) reads baseline = Inr rep"
    using reads(2) db_ok_ledger_zero [OF reads(1)]
    by (simp add: Check_def countTotals_def findNegativeBalances_def findUnbalancedTransfers_def collect_rows_def
        findBalanceMismatches_def Let_def un sums_fit_def in_int64_def list_all_iff)
  then obtain rep where rep: "Check (\<lambda>_. NoReadFault) reads baseline = Inr rep" ..
  moreover have "Report_OK rep"
    unfolding Check_Inr_OK [OF rep]
    using db_ok_ledger_zero [OF reads(1)] db_ok_nonneg [OF reads(1)] db_ok_not_offending [OF reads(1)]
      expected_balance_unexplained [of "reads QMismatches" _ baseline, OF reads(1)] base by blast
  ultimately show ?thesis by blast
qed

lemma SnapshotBaseline_Inr:
  "SnapshotBaseline flt d = Inr b \<Longrightarrow> b = baseline_of d"
  by (auto simp: SnapshotBaseline_def baseline_of_def Let_def split: read_fault.splits if_splits)

lemma baseline_of_unexplained:
  assumes d: "db_ok d"
  shows "(case baseline_of d i of None \<Rightarrow> 0 | Some b \<Rightarrow> b) = unexplained d i"
proof (cases "sql_select_account i d")
  case None
  then have "baseline_of d i = None"
    by (auto simp: baseline_of_def map_of_eq_None_iff sql_select_account_None)
  with None show ?thesis by (simp add: unexplained_def)
next
  case (Some a)
  then have a: "a \<in> set (accounts d)" "a_ID a = i" by (simp_all add: sql_select_account_iff [OF d])
  then have "baseline_of d i = Some (a_BalanceMinor a - account_ledger d i)"
    using db_ok_accounts [OF d] unfolding baseline_of_def
    by (intro map_of_is_SomeI) (auto simp: comp_def)
  with Some show ?thesis by (simp add: unexplained_def)
qed

end
