(* ===== verification/System.thy ===== *)
theory System
  imports Idempotent Accounts Reconcile
begin

text \<open>
  The service as a whole: any number of requests, in any order, against one PostgreSQL database and
  one Redis server, with Redis free to change by itself (expiry, flush, restart) at any moment.
  Requests that overlap are covered by the environments of their attempts and lookups, which say
  what other sessions commit in between.
\<close>

section \<open>The three kinds of request as ledger writers\<close>

definition post_op ::
  "RetryPolicy \<times> (int \<Rightarrow> attempt_env) \<times> Command \<Rightarrow> db \<Rightarrow> Transfer result \<times> db" where
  "post_op i d = (case i of (p, env, cmd) \<Rightarrow> Post p env cmd d)"

definition idem_op ::
  "'r Service \<times> (uuid \<Rightarrow> string) \<times> idem_env \<times> Key \<times> Command \<times> 'r \<Rightarrow> db \<Rightarrow> (Result \<times> go_error option) \<times> db" where
  "idem_op i d = (case i of (s, u, env, key, cmd, r) \<Rightarrow>
     (case PostIdempotent s u env key cmd d r of (out, d', r') \<Rightarrow> (out, d')))"

text \<open>Amounts are \<^verbatim>\<open>int64\<close> values.\<close>

definition int64_cmd :: "Command \<Rightarrow> bool" where
  "int64_cmd cmd \<longleftrightarrow> in_int64 (c_AmountMinor cmd)"

lemma well_behavedI:
  assumes "\<And>d. db_ok d \<Longrightarrow> db_ok (f d) \<and> extends d (f d) \<and> unexplained (f d) = unexplained d
     \<and> (\<forall>c. currency_total c (f d) = currency_total c d)"
  shows "well_behaved f"
  using assms by (simp add: well_behaved_def)

lemma postWithRetry_keeps:
  assumes d: "db_ok d" and env: "env_ok env" and cmd: "int64_cmd cmd"
    and call: "postWithRetry p env cmd stamp d = (r, a, d')"
  shows "db_ok d' \<and> extends d d' \<and> unexplained d' = unexplained d \<and> (\<forall>c. currency_total c d' = currency_total c d)"
proof (cases "Command_Validate cmd")
  case (Some err)
  with call d show ?thesis by (simp add: postWithRetry_def)
next
  case None
  have "c_AmountMinor cmd < 2 ^ 63" using cmd by (simp add: int64_cmd_def in_int64_def)
  with None have "valid_cmd cmd" by (simp add: valid_cmd_def)
  with call_outcome_keeps [OF postWithRetry_outcome [OF d env \<open>c_AmountMinor cmd < 2 ^ 63\<close> call] d env] show ?thesis by blast
qed

lemma PostIdempotent_keeps:
  assumes d: "db_ok d" and env: "idem_env_ok env" and cmd: "int64_cmd cmd"
    and call: "PostIdempotent s u env key cmd d r = (out, d', r')"
  shows "db_ok d' \<and> extends d d' \<and> unexplained d' = unexplained d \<and> (\<forall>c. currency_total c d' = currency_total c d)"
proof (cases "Command_Validate cmd")
  case (Some err)
  with call d show ?thesis by (auto simp: PostIdempotent_def split: sum.splits)
next
  case None
  have amount: "c_AmountMinor cmd < 2 ^ 63" using cmd by (simp add: int64_cmd_def in_int64_def)
  with None have "valid_cmd cmd" by (simp add: valid_cmd_def)
  moreover obtain res e where "out = (res, e)" by (cases out)
  ultimately show ?thesis
    using idem_spec_keeps [OF PostIdempotent_spec [OF d env amount, of s u key r res e d' r'] d env] call by simp
qed

interpretation posts: ledger_writer post_op "\<lambda>(p, env, cmd). env_ok env \<and> int64_cmd cmd"
proof unfold_locales
  fix i :: "RetryPolicy \<times> (int \<Rightarrow> attempt_env) \<times> Command"
  assume "case i of (p, env, cmd) \<Rightarrow> env_ok env \<and> int64_cmd cmd"
  moreover obtain p env cmd where i: "i = (p, env, cmd)" by (cases i)
  ultimately show "well_behaved (\<lambda>d. snd (post_op i d))"
    by (intro well_behavedI)
      (auto simp: post_op_def Post_def PostWithAttempts_def split: prod.splits dest!: postWithRetry_keeps [rotated -1])
qed

interpretation idem_posts: ledger_writer idem_op "\<lambda>(s, u, env, key, cmd, r). idem_env_ok env \<and> int64_cmd cmd"
proof unfold_locales
  fix i :: "'r Service \<times> (uuid \<Rightarrow> string) \<times> idem_env \<times> Key \<times> Command \<times> 'r"
  assume "case i of (s, u, env, key, cmd, r) \<Rightarrow> idem_env_ok env \<and> int64_cmd cmd"
  moreover obtain s u env key cmd r where i: "i = (s, u, env, key, cmd, r)" by (cases i)
  ultimately show "well_behaved (\<lambda>d. snd (idem_op i d))"
    by (intro well_behavedI)
      (auto simp: idem_op_def split: prod.splits dest!: PostIdempotent_keeps [rotated -1])
qed

section \<open>Histories\<close>

inductive sys_step :: "db \<times> 'r \<Rightarrow> db \<times> 'r \<Rightarrow> bool" where
  create: "Account_Create flt new_id now cu d = (res, d') \<Longrightarrow> sys_step (d, r) (d', r)"
| post: "Post p env cmd d = (res, d') \<Longrightarrow> env_ok env \<Longrightarrow> int64_cmd cmd \<Longrightarrow> sys_step (d, r) (d', r)"
| post_idempotent: "PostIdempotent s u env key cmd d r = (out, d', r') \<Longrightarrow> idem_env_ok env \<Longrightarrow> int64_cmd cmd \<Longrightarrow>
    sys_step (d, r) (d', r')"
| redis: "sys_step (d, r) (d, r')"

inductive history :: "db \<times> 'r \<Rightarrow> db \<times> 'r \<Rightarrow> bool" where
  start: "history w w"
| continue: "history w w' \<Longrightarrow> sys_step w' w'' \<Longrightarrow> history w w''"

inductive_cases sys_stepE: "sys_step (d, r) (d', r')"

lemma sys_step_keeps:
  assumes "sys_step (d, r) (d', r')" and "db_ok d"
  shows "db_ok d' \<and> extends d d' \<and> unexplained d' = unexplained d \<and> (\<forall>c. currency_total c d' = currency_total c d)"
  using assms(1)
proof (rule sys_stepE)
  fix flt new_id now cu res
  assume "Account_Create flt new_id now cu d = (res, d')"
  with creation.writes_well [of "(flt, new_id, now, cu)"] assms(2) show ?thesis
    by (auto simp: create_op_def well_behaved_def)
next
  fix p env cmd res
  assume "Post p env cmd d = (res, d')" "env_ok env" "int64_cmd cmd"
  with posts.writes_well [of "(p, env, cmd)"] assms(2) show ?thesis
    by (auto simp: post_op_def well_behaved_def)
next
  fix s :: "'a Service" and u env key cmd out
  assume "PostIdempotent s u env key cmd d r = (out, d', r')" "idem_env_ok env" "int64_cmd cmd"
  with idem_posts.writes_well [of "(s, u, env, key, cmd, r)"] assms(2) show ?thesis
    by (auto simp: idem_op_def well_behaved_def)
qed (use assms(2) in simp)

lemma history_keeps:
  assumes "history w w'" and "db_ok (fst w)"
  shows "db_ok (fst w') \<and> extends (fst w) (fst w') \<and> unexplained (fst w') = unexplained (fst w)
    \<and> (\<forall>c. currency_total c (fst w') = currency_total c (fst w))"
  using assms
proof (induction rule: history.induct)
  case (continue w w' w'')
  have "sys_step (fst w', snd w') (fst w'', snd w'')" using continue(2) by simp
  from sys_step_keeps [OF this] continue show ?case by (auto intro: extends_trans)
qed simp

end
