(* ===== verification/Samples.thy ===== *)
theory Samples
  imports Idempotent Accounts
begin

text \<open>
  A small concrete ledger on which the properties are instantiated: two USD accounts, a seeded
  balance of 100 on the first, a command that moves 30 and an environment without faults.
\<close>

definition acct_a :: uuid where "acct_a = UUID 1"
definition acct_b :: uuid where "acct_b = UUID 2"

definition sample_db :: db where
  "sample_db =
     \<lparr>accounts = [\<lparr>a_ID = acct_a, a_Currency = ''USD'', a_BalanceMinor = 100, a_CreatedAt = 0, a_UpdatedAt = 0\<rparr>,
                  \<lparr>a_ID = acct_b, a_Currency = ''USD'', a_BalanceMinor = 0, a_CreatedAt = 0, a_UpdatedAt = 0\<rparr>],
      transfers = [], ledger_entries = []\<rparr>"

definition sample_cmd :: Command where
  "sample_cmd = \<lparr>c_SourceAccountID = acct_a, c_DestinationAccountID = acct_b, c_AmountMinor = 30, c_Currency = ''USD''\<rparr>"

definition sample_env :: attempt_env where
  "sample_env =
     \<lparr>ae_others = (\<lambda>d. d), ae_fault = (\<lambda>_. None), ae_commit = NoFault, ae_transferID = UUID 10,
      ae_debitID = UUID 11, ae_creditID = UUID 12, ae_now = 7, ae_cancelled = (\<lambda>_. None),
      ae_int64N = (\<lambda>n. n - 1)\<rparr>"

text \<open>The first attempt meets a serialization failure at COMMIT, the later ones none.\<close>

definition sample_envs :: "int \<Rightarrow> attempt_env" where
  "sample_envs n = (if n = 1 then sample_env\<lparr>ae_commit := Fault (PgError ''40001'' '''')\<rparr> else sample_env)"

lemma db_ok_sample [simp]: "db_ok sample_db"
  by code_simp

lemma valid_cmd_sample [simp]: "valid_cmd sample_cmd"
  by code_simp

lemma amount_sample [simp]: "c_AmountMinor sample_cmd < 2 ^ 63"
  by (simp add: sample_cmd_def)

lemma env_ok_sample [simp]: "env_ok sample_envs" "env_ok (\<lambda>_. sample_env)"
  by (auto simp: env_ok_def others_of_def sample_envs_def sample_env_def split: if_splits)

lemma can_post_sample [simp]: "can_post sample_env sample_cmd None sample_db"
  by code_simp

definition sample_idem :: idem_env where
  "sample_idem =
     \<lparr>ie_attempts = (\<lambda>_. sample_env), ie_claimedAt = ''t1'', ie_completed = (''t2'', ''t3''),
      ie_lookup_others = (\<lambda>d. d), ie_lookup_fault = None,
      ie_recover_others = (\<lambda>d. d), ie_recover_fault = None\<rparr>"

definition sample_idem2 :: idem_env where
  "sample_idem2 = sample_idem\<lparr>ie_attempts := (\<lambda>_. sample_env\<lparr>ae_transferID := UUID 20, ae_debitID := UUID 21, ae_creditID := UUID 22\<rparr>)\<rparr>"

text \<open>A service without Redis.\<close>

definition plain_service :: "unit Service" where
  "plain_service = \<lparr>sv_retry = DefaultRetryPolicy, sv_idem = None\<rparr>"

lemma idem_env_ok_sample [simp]: "idem_env_ok sample_idem" "idem_env_ok sample_idem2"
  by (auto simp: idem_env_ok_def env_ok_def others_of_def sample_idem_def sample_idem2_def sample_env_def)

section \<open>The sample command under a key\<close>

abbreviation sample_key :: Key where "sample_key \<equiv> ''pay_1''"

definition sample_fp :: Fingerprint where
  "sample_fp = command_fingerprint plain_uuid_String sample_cmd"

abbreviation sample_stamp :: "idempotencyStamp option" where
  "sample_stamp \<equiv> key_stamp sample_key sample_fp"

definition posted_sample :: db where
  "posted_sample = posted_db sample_env sample_cmd sample_stamp sample_db"

lemma ParseKey_sample [simp]: "ParseKey sample_key = Inr sample_key"
  by code_simp

lemma length_sample_fp [simp]: "length sample_fp = 32"
  by (simp add: sample_fp_def)

lemma quiet_sample [simp]:
  "quiet_attempt (ie_attempts sample_idem 1)" "quiet_attempt (ie_attempts sample_idem2 1)" "quiet_attempt sample_env"
  by (simp_all add: quiet_attempt_def sample_idem_def sample_idem2_def sample_env_def)

lemma can_post_sample_key [simp]: "can_post sample_env sample_cmd sample_stamp sample_db"
proof -
  have "refusal sample_cmd sample_db = None" by code_simp
  moreover have "credit_fits sample_cmd sample_db" by code_simp
  moreover have "fresh_rows sample_env sample_cmd sample_stamp sample_db"
    using check_new_row [OF valid_cmd_sample ParseKey_sample length_sample_fp, of sample_env]
    by (simp add: fresh_rows_def) (simp add: sample_db_def sample_env_def)
  ultimately show ?thesis by (simp add: can_post_iff)
qed

lemma db_ok_posted_sample [simp]: "db_ok posted_sample"
  unfolding posted_sample_def by (rule db_ok_posted) simp_all

lemma answers_sample [simp]:
  "answers posted_sample sample_key sample_fp (Transfer.truncate (posted_row sample_env sample_cmd sample_stamp))"
  unfolding posted_sample_def by (rule answers_posted)

lemma plain_unavailable [simp]: "\<not> Available (sv_idem plain_service)"
  by (simp add: plain_service_def Available_def store_client_def)

lemma refusal_posted_sample [simp]: "refusal sample_cmd posted_sample = None"
  by (simp add: posted_sample_def refusal_def sql_select_account_def moved_def sample_db_def sample_cmd_def
      acct_a_def acct_b_def)

lemma first_call:
  "\<exists>res. PostIdempotent plain_service plain_uuid_String sample_idem sample_key sample_cmd sample_db ()
       = ((res, None), posted_sample, ())
     \<and> rs_Transfer res = Transfer.truncate (posted_row sample_env sample_cmd sample_stamp) \<and> \<not> rs_Replayed res"
proof -
  have env: "ie_attempts sample_idem 1 = sample_env" by (simp add: sample_idem_def)
  have "Command_Validate sample_cmd = None" using valid_cmd_sample by (simp add: valid_cmd_def)
  note eq = PostIdempotent_without_store [OF plain_unavailable ParseKey_sample this]
  from postClaimed_posts [of sample_db sample_cmd sample_idem sample_key sample_fp plain_service plain_uuid_String True "()"]
  show ?thesis by (auto simp: eq env posted_sample_def simp flip: sample_fp_def)
qed

lemma second_call:
  "\<exists>res. PostIdempotent plain_service plain_uuid_String sample_idem2 sample_key sample_cmd posted_sample ()
       = ((res, None), posted_sample, ())
     \<and> rs_Transfer res = Transfer.truncate (posted_row sample_env sample_cmd sample_stamp) \<and> rs_Replayed res"
proof -
  have "Command_Validate sample_cmd = None" using valid_cmd_sample by (simp add: valid_cmd_def)
  note eq = PostIdempotent_without_store [OF plain_unavailable ParseKey_sample this]
  have "ae_transferID (ie_attempts sample_idem2 1) \<notin> t_ID ` set (transfers posted_sample)"
    by (simp add: posted_sample_def sample_idem2_def sample_db_def sample_env_def)
  moreover have "ie_recover_fault sample_idem2 = None" "ie_recover_others sample_idem2 posted_sample = posted_sample"
    by (simp_all add: sample_idem2_def sample_idem_def)
  ultimately show ?thesis
    using postClaimed_replays [OF db_ok_posted_sample valid_cmd_sample ParseKey_sample length_sample_fp quiet_sample(2)
        _ _ refusal_posted_sample _ answers_sample, of plain_service plain_uuid_String True "()"]
    by (auto simp: eq simp flip: sample_fp_def)
qed

text \<open>A command that can be posted once but not twice.\<close>

definition big_cmd :: Command where
  "big_cmd = sample_cmd\<lparr>c_AmountMinor := 60\<rparr>"

end
