(* ===== verification/Bank.thy ===== *)
theory Bank
  imports System Samples
begin

text \<open>
  The abstract specification of the service: a bank that knows its accounts (currency and balance)
  and the moves it made, with two operations, opening an empty account and moving money under an
  optional key that no earlier move used.  Tables, rows, locks, retries, Redis, lost acknowledgements
  and fingerprints do not occur in it.  The refinement: whatever requests the service handles and
  however they interleave, the committed database goes through steps of this bank.
\<close>

section \<open>The bank\<close>

record bank =
  bk_accounts :: "uuid \<Rightarrow> (Currency \<times> int) option"
  bk_moves :: "(Key option \<times> uuid \<times> uuid \<times> Currency \<times> int) list"

inductive bank_step :: "bank \<Rightarrow> bank \<Rightarrow> bool" where
  bank_open: "bk_accounts b i = None \<Longrightarrow> currency_format c \<Longrightarrow>
    bank_step b (b\<lparr>bk_accounts := (bk_accounts b)(i \<mapsto> (c, 0))\<rparr>)"
| bank_move: "i \<noteq> j \<Longrightarrow> bk_accounts b i = Some (c, x) \<Longrightarrow> bk_accounts b j = Some (c, y) \<Longrightarrow>
    0 < n \<Longrightarrow> n \<le> x \<Longrightarrow> y + n < 2 ^ 63 \<Longrightarrow> key = None \<or> key \<notin> fst ` set (bk_moves b) \<Longrightarrow>
    bank_step b \<lparr>bk_accounts = (bk_accounts b)(i \<mapsto> (c, x - n), j \<mapsto> (c, y + n)), bk_moves = bk_moves b @ [(key, i, j, c, n)]\<rparr>"

inductive bank_steps :: "bank \<Rightarrow> bank \<Rightarrow> bool" where
  bank_refl: "bank_steps b b"
| bank_more: "bank_steps b b' \<Longrightarrow> bank_step b' b'' \<Longrightarrow> bank_steps b b''"

inductive_cases bank_stepE: "bank_step b b'"

lemma bank_steps_one: "bank_step b b' \<Longrightarrow> bank_steps b b'"
  by (rule bank_more [OF bank_refl])

lemma bank_steps_trans: "bank_steps b2 b3 \<Longrightarrow> bank_steps b1 b2 \<Longrightarrow> bank_steps b1 b3"
  by (induction rule: bank_steps.induct) (auto intro: bank_steps.intros)

text \<open>The balances are the replay of the moves: an account holds what it held before plus what the new
  moves brought it, and no balance is negative.\<close>

definition balance :: "bank \<Rightarrow> uuid \<Rightarrow> int" where
  "balance b i = (case bk_accounts b i of None \<Rightarrow> 0 | Some (c, x) \<Rightarrow> x)"

definition net :: "uuid \<Rightarrow> (Key option \<times> uuid \<times> uuid \<times> Currency \<times> int) list \<Rightarrow> int" where
  "net k ms = sum_list (map (\<lambda>(key, i, j, c, n). (if j = k then n else 0) - (if i = k then n else 0)) ms)"

lemma bank_step_replay:
  assumes "bank_step b b'"
  shows "\<exists>ms. bk_moves b' = bk_moves b @ ms \<and> (\<forall>k. balance b' k = balance b k + net k ms)"
  using assms by (cases rule: bank_step.cases) (auto simp: balance_def net_def)

lemma bank_steps_replay:
  "bank_steps b b' \<Longrightarrow> \<exists>ms. bk_moves b' = bk_moves b @ ms \<and> (\<forall>k. balance b' k = balance b k + net k ms)"
proof (induction rule: bank_steps.induct)
  case (bank_more b b' b'')
  then obtain ms ns where "bk_moves b' = bk_moves b @ ms" "\<forall>k. balance b' k = balance b k + net k ms"
      "bk_moves b'' = bk_moves b' @ ns" "\<forall>k. balance b'' k = balance b' k + net k ns"
    using bank_step_replay by blast
  then show ?case by (intro exI [of _ "ms @ ns"]) (simp add: net_def)
qed (simp add: net_def)

section \<open>The abstraction\<close>

definition bank_of :: "db \<Rightarrow> bank" where
  "bank_of d = \<lparr>bk_accounts = (\<lambda>i. map_option (\<lambda>a. (a_Currency a, a_BalanceMinor a)) (sql_select_account i d)),
     bk_moves = map (\<lambda>t. (t_idempotency_key t, t_SourceAccountID t, t_DestinationAccountID t, t_Currency t, t_AmountMinor t)) (transfers d)\<rparr>"

definition refines_bank :: "(db \<Rightarrow> db) \<Rightarrow> bool" where
  "refines_bank f \<longleftrightarrow> (\<forall>d. db_ok d \<longrightarrow> bank_steps (bank_of d) (bank_of (f d)))"

lemma refines_bank_id [simp]: "refines_bank (\<lambda>d. d)"
  by (simp add: refines_bank_def bank_refl)

lemma refines_bank_comp:
  "refines_bank f \<Longrightarrow> well_behaved f \<Longrightarrow> refines_bank g \<Longrightarrow> refines_bank (\<lambda>d. g (f d))"
  unfolding refines_bank_def by (blast intro: bank_steps_trans dest: well_behavedD(1))

lemma moves_keys: "fst ` set (bk_moves (bank_of d)) = t_idempotency_key ` set (transfers d)"
  by (force simp: bank_of_def)

text \<open>A row opened is an account opened, and a posting is a move.\<close>

lemma bank_of_opened:
  assumes "a_ID a \<notin> a_ID ` set (accounts d)"
  shows "bank_of (d\<lparr>accounts := accounts d @ [a]\<rparr>) =
    (bank_of d)\<lparr>bk_accounts := (bk_accounts (bank_of d))(a_ID a \<mapsto> (a_Currency a, a_BalanceMinor a))\<rparr>"
proof -
  have "find (\<lambda>x. a_ID x = a_ID a) (accounts d) = None" using sql_select_account_None [of "a_ID a" d] assms by (simp add: sql_select_account_def)
  then show ?thesis by (auto simp: bank_of_def sql_select_account_def find_append split: option.splits)
qed

lemma opened_step:
  assumes "check_account a = None" and "a_ID a \<notin> a_ID ` set (accounts d)" and "a_BalanceMinor a = 0"
  shows "bank_step (bank_of d) (bank_of (d\<lparr>accounts := accounts d @ [a]\<rparr>))"
  unfolding bank_of_opened [OF assms(2)] assms(3)
proof (rule bank_open)
  show "bk_accounts (bank_of d) (a_ID a) = None" using assms(2) by (simp add: bank_of_def sql_select_account_None)
  show "currency_format (a_Currency a)" using assms(1) by (simp add: check_account_def split: if_splits)
qed

lemmas opened_steps = bank_steps_one [OF opened_step]

lemma bank_of_posted:
  assumes "c_SourceAccountID cmd \<noteq> c_DestinationAccountID cmd"
    and "sql_select_account (c_SourceAccountID cmd) d = Some a" and "sql_select_account (c_DestinationAccountID cmd) d = Some b"
  shows "bank_of (posted_db env cmd stamp d) =
    \<lparr>bk_accounts = (bk_accounts (bank_of d))(c_SourceAccountID cmd \<mapsto> (a_Currency a, a_BalanceMinor a - c_AmountMinor cmd),
       c_DestinationAccountID cmd \<mapsto> (a_Currency b, a_BalanceMinor b + c_AmountMinor cmd)),
     bk_moves = bk_moves (bank_of d) @ [(keyOrNil stamp, c_SourceAccountID cmd, c_DestinationAccountID cmd, c_Currency cmd, c_AmountMinor cmd)]\<rparr>"
proof -
  have "bk_accounts (bank_of (posted_db env cmd stamp d)) i =
      ((bk_accounts (bank_of d))(c_SourceAccountID cmd \<mapsto> (a_Currency a, a_BalanceMinor a - c_AmountMinor cmd),
        c_DestinationAccountID cmd \<mapsto> (a_Currency b, a_BalanceMinor b + c_AmountMinor cmd))) i" for i
    using assms sql_select_account_ID [of i d]
    by (cases "sql_select_account i d") (auto simp: bank_of_def sql_select_account_posted moved_def)
  then show ?thesis by (intro bank.equality ext) (simp_all add: bank_of_def)
qed

lemma posted_step:
  assumes cmd: "valid_cmd cmd" and can: "can_post env cmd stamp d"
  shows "bank_step (bank_of d) (bank_of (posted_db env cmd stamp d))"
proof -
  obtain a b where ab: "sql_select_account (c_SourceAccountID cmd) d = Some a" "sql_select_account (c_DestinationAccountID cmd) d = Some b"
      "a_Currency a = c_Currency cmd" "a_Currency b = c_Currency cmd"
      "c_AmountMinor cmd \<le> a_BalanceMinor a" "in_int64 (a_BalanceMinor b + c_AmountMinor cmd)"
    using can by (auto simp: can_post_def split: option.splits)
  note v = valid_cmdD [OF cmd]
  have key: "keyOrNil stamp = None \<or> keyOrNil stamp \<notin> fst ` set (bk_moves (bank_of d))"
    using can by (auto simp: can_post_def moves_keys)
  have accts: "bk_accounts (bank_of d) (c_SourceAccountID cmd) = Some (c_Currency cmd, a_BalanceMinor a)"
    "bk_accounts (bank_of d) (c_DestinationAccountID cmd) = Some (c_Currency cmd, a_BalanceMinor b)"
    using ab by (simp_all add: bank_of_def)
  show ?thesis
    unfolding bank_of_posted [OF v(5) ab(1,2)] ab(3,4)
    by (rule bank_move [OF v(5) accts _ ab(5) _ key]) (use v ab(6) in \<open>simp_all add: in_int64_def\<close>)
qed

section \<open>The contract of a bank client\<close>

locale bank_writer = ledger_writer op allowed for op :: "'i \<Rightarrow> db \<Rightarrow> 'o \<times> db" and allowed :: "'i \<Rightarrow> bool" +
  assumes refines: "allowed i \<Longrightarrow> refines_bank (\<lambda>d. snd (op i d))"
begin

lemma run_refines: "list_all allowed is \<Longrightarrow> refines_bank (run_ops op is)"
proof (induction "is")
  case Nil
  then show ?case by (simp add: refines_bank_def bank_refl)
next
  case (Cons i "is")
  then have "refines_bank (\<lambda>d. run_ops op is (snd (op i d)))"
    by (intro refines_bank_comp [OF refines writes_well]) auto
  then show ?case by (simp add: refines_bank_def)
qed

end

lemma others_refine:
  "others_steps F d d' \<Longrightarrow> (\<forall>f \<in> F. well_behaved f \<and> refines_bank f) \<Longrightarrow> db_ok d \<Longrightarrow>
     db_ok d' \<and> bank_steps (bank_of d) (bank_of d')"
proof (induction rule: others_steps.induct)
  case (others_step d d' f)
  then have "db_ok d'" "bank_steps (bank_of d) (bank_of d')" "well_behaved f" "refines_bank f" by auto
  then show ?case by (auto simp: refines_bank_def well_behavedD intro: bank_steps_trans)
qed (simp add: bank_refl)

interpretation bank_creation: bank_writer create_op "\<lambda>_. True"
proof unfold_locales
  fix i :: "fault \<times> uuid \<times> int \<times> Currency"
  obtain flt new_id now cu where i: "i = (flt, new_id, now, cu)" by (cases i)
  have "bank_steps (bank_of d) (bank_of (snd (create_op i d)))" for d
    using Account_Create_cases [of flt new_id now cu d "fst (create_op i d)" "snd (create_op i d)"]
    by (auto simp: create_op_def i Let_def bank_refl intro!: opened_steps)
  then show "refines_bank (\<lambda>d. snd (create_op i d))" by (simp add: refines_bank_def)
qed

lemma post_op_refines:
  assumes "env_ok env" and "int64_cmd cmd" and "\<forall>f \<in> others_of env. refines_bank f"
  shows "refines_bank (\<lambda>d. snd (post_op (p, env, cmd) d))"
  unfolding refines_bank_def
proof (intro allI impI)
  fix d
  assume d: "db_ok d"
  obtain r a d' where call: "postWithRetry p env cmd None d = (r, a, d')" by (cases "postWithRetry p env cmd None d")
  then have d': "snd (post_op (p, env, cmd) d) = d'" by (simp add: post_op_def Post_def PostWithAttempts_def)
  show "bank_steps (bank_of d) (bank_of (snd (post_op (p, env, cmd) d)))"
  proof (cases "Command_Validate cmd")
    case (Some err)
    with call have "d' = d" by (simp add: postWithRetry_def)
    then show ?thesis by (simp add: d' bank_refl)
  next
    case None
    have amount: "c_AmountMinor cmd < 2 ^ 63" using assms(2) by (simp add: int64_cmd_def in_int64_def)
    with None have cmd: "valid_cmd cmd" by (simp add: valid_cmd_def)
    obtain d0 where "others_steps (others_of env) d d0"
        and posted: "d' = d0 \<or> (\<exists>n. can_post (env n) cmd None d0 \<and> d' = posted_db (env n) cmd None d0)"
      using postWithRetry_outcome [OF d assms(1) amount call] by (auto simp: call_outcome_def)
    from others_refine [OF this(1) _ d] assms(1,3) have "bank_steps (bank_of d) (bank_of d0)" by (auto simp: env_ok_def)
    with posted show ?thesis by (auto simp: d' intro: bank_more posted_step [OF cmd])
  qed
qed

lemma idem_op_refines:
  assumes env: "idem_env_ok env" and "int64_cmd cmd" and "\<forall>f \<in> idem_others env. refines_bank f"
  shows "refines_bank (\<lambda>d. snd (idem_op (s, u, env, key, cmd, r) d))"
  unfolding refines_bank_def
proof (intro allI impI)
  fix d
  assume d: "db_ok d"
  obtain res e d' r' where call: "PostIdempotent s u env key cmd d r = ((res, e), d', r')"
    by (cases "PostIdempotent s u env key cmd d r") auto
  then have d': "snd (idem_op (s, u, env, key, cmd, r) d) = d'" by (simp add: idem_op_def)
  have others: "\<forall>f \<in> idem_others env. well_behaved f \<and> refines_bank f" using idem_others_well [OF env] assms(3) by blast
  show "bank_steps (bank_of d) (bank_of (snd (idem_op (s, u, env, key, cmd, r) d)))"
  proof (cases "Command_Validate cmd")
    case (Some err)
    with call have "d' = d" by (auto simp: PostIdempotent_def split: sum.splits)
    then show ?thesis by (simp add: d' bank_refl)
  next
    case None
    have amount: "c_AmountMinor cmd < 2 ^ 63" using assms(2) by (simp add: int64_cmd_def in_int64_def)
    with None have cmd: "valid_cmd cmd" by (simp add: valid_cmd_def)
    let ?f = "command_fingerprint u cmd"
    have "others_steps (idem_others env) d d' \<or> (\<exists>d0 n. others_steps (idem_others env) d d0
        \<and> can_post (ie_attempts env n) cmd (key_stamp key ?f) d0
        \<and> others_steps (idem_others env) (posted_db (ie_attempts env n) cmd (key_stamp key ?f) d0) d')"
      using PostIdempotent_spec [OF d env amount call] unfolding idem_spec_def by blast
    then show ?thesis
      unfolding d'
    proof (elim disjE exE conjE)
      assume "others_steps (idem_others env) d d'"
      from others_refine [OF this others d] show "bank_steps (bank_of d) (bank_of d')" ..
    next
      fix d0 n
      let ?d1 = "posted_db (ie_attempts env n) cmd (key_stamp key ?f) d0"
      assume steps: "others_steps (idem_others env) d d0" "others_steps (idem_others env) ?d1 d'"
        and can: "can_post (ie_attempts env n) cmd (key_stamp key ?f) d0"
      note d0 = others_refine [OF steps(1) others d]
      then have "db_ok ?d1" using can cmd by (simp add: db_ok_posted)
      from others_refine [OF steps(2) others this] d0 posted_step [OF cmd can]
      show "bank_steps (bank_of d) (bank_of d')" by (blast intro: bank_steps_trans bank_more)
    qed
  qed
qed

interpretation bank_posts: bank_writer post_op
  "\<lambda>(p, env, cmd). env_ok env \<and> int64_cmd cmd \<and> (\<forall>f \<in> others_of env. refines_bank f)"
  by unfold_locales (auto intro: posts.writes_well post_op_refines)

interpretation bank_idem_posts: bank_writer idem_op
  "\<lambda>(s, u, env, key, cmd, r). idem_env_ok env \<and> int64_cmd cmd \<and> (\<forall>f \<in> idem_others env. refines_bank f)"
  by unfold_locales (auto intro: idem_posts.writes_well idem_op_refines)

section \<open>Everything the service can commit\<close>

text \<open>
  What a session of the service can do to the database: requests one after the other, each of them
  interleaved with what other sessions of the service do.  A COMMIT whose acknowledgement was lost is not
  reported as one of the two retryable SQLSTATEs.
\<close>

definition honest_commits :: "(int \<Rightarrow> attempt_env) \<Rightarrow> bool" where
  "honest_commits env \<longleftrightarrow> (\<forall>n err. ae_commit (env n) = LostAck err \<longrightarrow> \<not> retryable err)"

inductive service_write :: "'r itself \<Rightarrow> (db \<Rightarrow> db) \<Rightarrow> bool" for T where
  write_nothing: "service_write T (\<lambda>d. d)"
| write_then: "service_write T f \<Longrightarrow> service_write T g \<Longrightarrow> service_write T (\<lambda>d. g (f d))"
| write_account: "service_write T (\<lambda>d. snd (Account_Create flt new_id now cu d))"
| write_post: "\<forall>n. service_write T (ae_others (env n)) \<Longrightarrow> honest_commits env \<Longrightarrow> int64_cmd cmd \<Longrightarrow>
    service_write T (\<lambda>d. snd (Post p env cmd d))"
| write_idempotent: "\<forall>n. service_write T (ae_others (ie_attempts env n)) \<Longrightarrow> honest_commits (ie_attempts env) \<Longrightarrow>
    service_write T (ie_lookup_others env) \<Longrightarrow> service_write T (ie_recover_others env) \<Longrightarrow> int64_cmd cmd \<Longrightarrow>
    service_write T (\<lambda>d. fst (snd (PostIdempotent (s :: 'r Service) u env key cmd d r)))"

lemma service_write_refines:
  "service_write T f \<Longrightarrow> well_behaved f \<and> refines_bank f"
proof (induction rule: service_write.induct)
  case (write_account flt new_id now cu)
  from bank_creation.refines [of "(flt, new_id, now, cu)"] creation.writes_well [of "(flt, new_id, now, cu)"]
  show ?case by (simp add: create_op_def)
next
  case (write_post env cmd p)
  then have "env_ok env \<and> int64_cmd cmd \<and> (\<forall>f \<in> others_of env. refines_bank f)"
    by (auto simp: env_ok_def others_of_def honest_commits_def)
  with bank_posts.refines [of "(p, env, cmd)"] bank_posts.writes_well [of "(p, env, cmd)"]
  show ?case by (simp add: post_op_def)
next
  case (write_idempotent env cmd s u key r)
  then have "idem_env_ok env \<and> int64_cmd cmd \<and> (\<forall>f \<in> idem_others env. refines_bank f)"
    by (auto simp: idem_env_ok_def env_ok_def idem_others_def others_of_def honest_commits_def)
  with bank_idem_posts.refines [of "(s, u, env, key, cmd, r)"] bank_idem_posts.writes_well [of "(s, u, env, key, cmd, r)"]
  show ?case by (simp add: idem_op_def case_prod_beta)
qed (auto intro: well_behaved_comp refines_bank_comp)

section \<open>Properties\<close>

text \<open>C2: The service refines the bank: whatever requests a session handles and whatever other sessions of
  the service commit in between, with Redis and connections failing at will, the committed database
  goes from a well-formed state to a well-formed state through steps of the abstract bank; so every
  balance is the replay of the transfers recorded since.\<close>

theorem service_refines_bank:
  assumes "service_write T f" and "db_ok d"
  shows "db_ok (f d) \<and> bank_steps (bank_of d) (bank_of (f d))
    \<and> (\<exists>ms. bk_moves (bank_of (f d)) = bk_moves (bank_of d) @ ms
         \<and> (\<forall>k. balance (bank_of (f d)) k = balance (bank_of d) k + net k ms))"
proof -
  have "db_ok (f d) \<and> bank_steps (bank_of d) (bank_of (f d))"
    using service_write_refines [OF assms(1)] assms(2) by (auto simp: refines_bank_def well_behavedD)
  with bank_steps_replay show ?thesis by blast
qed

theorem service_refines_bank_witness:
  "\<exists>ms. bk_moves (bank_of (snd (Post DefaultRetryPolicy (\<lambda>_. sample_env) sample_cmd sample_db))) = bk_moves (bank_of sample_db) @ ms
     \<and> ms \<noteq> [] \<and> balance (bank_of (snd (Post DefaultRetryPolicy (\<lambda>_. sample_env) sample_cmd sample_db))) (c_SourceAccountID sample_cmd)
         = balance (bank_of sample_db) (c_SourceAccountID sample_cmd) + net (c_SourceAccountID sample_cmd) ms"
proof -
  have others: "ae_others sample_env = (\<lambda>d. d)" and commit: "ae_commit sample_env = NoFault" by (simp_all add: sample_env_def)
  have "service_write TYPE(unit) (\<lambda>d. snd (Post DefaultRetryPolicy (\<lambda>_. sample_env) sample_cmd d))"
    by (rule write_post) (simp_all add: others commit write_nothing honest_commits_def int64_cmd_def in_int64_def sample_cmd_def)
  from service_refines_bank [OF this db_ok_sample]
  obtain ms where ms: "bk_moves (bank_of (snd (Post DefaultRetryPolicy (\<lambda>_. sample_env) sample_cmd sample_db))) = bk_moves (bank_of sample_db) @ ms"
      "\<forall>k. balance (bank_of (snd (Post DefaultRetryPolicy (\<lambda>_. sample_env) sample_cmd sample_db))) k = balance (bank_of sample_db) k + net k ms"
    by blast
  have "length (transfers (snd (Post DefaultRetryPolicy (\<lambda>_. sample_env) sample_cmd sample_db))) = length (transfers sample_db) + 1"
    by code_simp
  with arg_cong [OF ms(1), of length] have "ms \<noteq> []" by (auto simp: bank_of_def)
  with ms show ?thesis by blast
qed

end
