(* ===== verification/Ledger.thy ===== *)
theory Ledger
  imports Invariant "HOL-Library.Multiset"
begin

text \<open>
  Package ledger (\<^verbatim>\<open>src/internal/ledger/ledger.go\<close>): the read-only view of the entries.
  The theorem shows what that view says about a transfer of a well-formed ledger.
\<close>

definition Entry_IsDebit :: "Entry \<Rightarrow> bool" where
  "Entry_IsDebit e \<longleftrightarrow> e_AmountMinor e < 0"

definition Entry_IsCredit :: "Entry \<Rightarrow> bool" where
  "Entry_IsCredit e \<longleftrightarrow> e_AmountMinor e > 0"

text \<open>\<^verbatim>\<open>SELECT ... WHERE transfer_id = $1 ORDER BY amount_minor ASC\<close>.\<close>

definition EntriesForTransfer :: "read_fault \<Rightarrow> uuid \<Rightarrow> db \<Rightarrow> Entry list result" where
  "EntriesForTransfer flt tid d =
     (case flt of
        QueryFault err \<Rightarrow> Inl (Errorf ''ledger: entries for transfer %s: %w'' [AUuid tid] [err])
      | ReadFault err \<Rightarrow> Inl (Errorf ''ledger: scan entries for transfer %s: %w'' [AUuid tid] [err])
      | NoReadFault \<Rightarrow> Inr (sort_key e_AmountMinor (entries_of tid d)))"

text \<open>The Go loop adds in 64-bit arithmetic.\<close>

definition SumMinor :: "Entry list \<Rightarrow> int" where
  "SumMinor es = fold (\<lambda>e total. wrap64 (total + e_AmountMinor e)) es 0"

lemma SumMinor_fold:
  "fold (\<lambda>e total. wrap64 (total + e_AmountMinor e)) es (wrap64 x) = wrap64 (x + sum_amounts es)"
proof (induction es arbitrary: x)
  case Nil
  then show ?case by (simp add: sum_amounts_def)
next
  case (Cons e es)
  then show ?case
    by (simp add: wrap64_wrap64_add sum_amounts_def add.assoc)
qed

text \<open>\<open>SumMinor\<close> is the true sum reduced to 64 bits, whatever the order of the entries.\<close>

lemma SumMinor_eq: "SumMinor es = wrap64 (sum_amounts es)"
  using SumMinor_fold [of es 0] by (simp add: SumMinor_def in_int64_def)

text \<open>A table has no order: the rows of a query without ORDER BY may come in any order.\<close>

lemma mset_entries_of:
  "mset (ledger_entries d') = mset (ledger_entries d) \<Longrightarrow> mset (entries_of i d') = mset (entries_of i d)"
  by (simp add: entries_of_def mset_filter)

lemma sort_key_any_order:
  fixes f :: "'a \<Rightarrow> int"
  assumes "mset xs = {#x, y#}" and "f x < f y"
  shows "sort_key f xs = [x, y]"
proof -
  have "length xs = 2" using assms(1) by (metis size_mset size_add_mset size_single one_add_one add.commute plus_1_eq_Suc)
  then obtain a b where xs: "xs = [a, b]" by (metis One_nat_def length_0_conv length_Suc_conv numeral_2_eq_2)
  have "{a, b} = {x, y}" using arg_cong [OF assms(1), of set_mset] by (simp add: xs)
  then have "a = x \<and> b = y \<or> a = y \<and> b = x" by (auto simp: doubleton_eq_iff)
  with assms(2) xs show ?thesis by auto
qed

text \<open>C24: The entries of a transfer read back as its two legs, the debit of the source first and the credit of
  the destination second, in whatever order the table holds its rows, and they sum to zero; a transfer
  that does not exist has no entries, and that is not an error.\<close>

theorem EntriesForTransfer_legs:
  assumes "db_ok d" and "t \<in> set (transfers d)" and "mset (ledger_entries d') = mset (ledger_entries d)"
  shows "(\<exists>debit credit. EntriesForTransfer NoReadFault (t_ID t) d' = Inr [debit, credit]
      \<and> Entry_IsDebit debit \<and> e_AccountID debit = t_SourceAccountID t \<and> e_AmountMinor debit = - t_AmountMinor t
      \<and> Entry_IsCredit credit \<and> e_AccountID credit = t_DestinationAccountID t \<and> e_AmountMinor credit = t_AmountMinor t
      \<and> SumMinor [debit, credit] = 0)
    \<and> (EntriesForTransfer NoReadFault i d' = Inr [] \<longleftrightarrow> i \<notin> t_ID ` set (transfers d))"
proof -
  have legs: "posted_legs t (entries_of (t_ID t) d)" if "t \<in> set (transfers d)" for t
    using assms(1) that by (auto simp: db_ok_def ledger_ok_def)
  have "check_transfer t = None" using assms(1,2) by (auto simp: db_ok_def schema_ok_def transfers_ok_def)
  then have pos: "0 < t_AmountMinor t" by (auto simp: check_transfer_def split: if_splits)
  obtain x y where es: "entries_of (t_ID t) d = [x, y]"
    using legs [OF assms(2)] by (cases "(t, entries_of (t_ID t) d)" rule: posted_legs.cases) auto
  have "mset (entries_of (t_ID t) d') = {#x, y#}" using mset_entries_of [OF assms(3), of "t_ID t"] es by simp
  then have "sort_key e_AmountMinor (entries_of (t_ID t) d') = [x, y]"
    by (rule sort_key_any_order) (use legs [OF assms(2)] es pos in simp)
  moreover have "entries_of i d' = [] \<longleftrightarrow> i \<notin> t_ID ` set (transfers d)"
  proof -
    have "entries_of i d' = [] \<longleftrightarrow> entries_of i d = []" using mset_entries_of [OF assms(3), of i] by (metis mset_zero_iff)
    moreover have "entries_of i d = []" if "i \<notin> t_ID ` set (transfers d)"
      using assms(1) that by (auto simp: entries_of_def filter_empty_conv db_ok_def schema_ok_def entries_ok_def)
    moreover have "entries_of (t_ID u) d \<noteq> []" if "u \<in> set (transfers d)" for u
      using legs [OF that] by (cases "entries_of (t_ID u) d") auto
    ultimately show ?thesis by auto
  qed
  ultimately show ?thesis
    using es legs [OF assms(2)] pos
    by (simp add: EntriesForTransfer_def Entry_IsDebit_def Entry_IsCredit_def SumMinor_eq sum_amounts_def in_int64_def)
qed

definition one_transfer :: transfer_row where
  "one_transfer = \<lparr>t_ID = UUID 3, t_SourceAccountID = UUID 1, t_DestinationAccountID = UUID 2, t_AmountMinor = 5,
     t_Currency = ''USD'', t_Status = StatusCompleted, t_CreatedAt = 7, t_CompletedAt = Some 7,
     t_idempotency_key = None, t_request_fingerprint = None\<rparr>"

definition small_ledger :: db where
  "small_ledger =
     \<lparr>accounts = [\<lparr>a_ID = UUID 1, a_Currency = ''USD'', a_BalanceMinor = 4, a_CreatedAt = 0, a_UpdatedAt = 7\<rparr>,
                  \<lparr>a_ID = UUID 2, a_Currency = ''USD'', a_BalanceMinor = 5, a_CreatedAt = 0, a_UpdatedAt = 7\<rparr>],
      transfers = [one_transfer],
      ledger_entries = [\<lparr>e_ID = UUID 8, e_TransferID = UUID 3, e_AccountID = UUID 1, e_AmountMinor = -5, e_Currency = ''USD'', e_CreatedAt = 7\<rparr>,
                        \<lparr>e_ID = UUID 9, e_TransferID = UUID 3, e_AccountID = UUID 2, e_AmountMinor = 5, e_Currency = ''USD'', e_CreatedAt = 7\<rparr>]\<rparr>"

lemma small_ledger_ok: "db_ok small_ledger" "one_transfer \<in> set (transfers small_ledger)"
  by (code_simp, simp add: small_ledger_def)

text \<open>The same ledger with its rows the other way round.\<close>

theorem EntriesForTransfer_legs_witness:
  "\<exists>debit credit. EntriesForTransfer NoReadFault (UUID 3) (small_ledger\<lparr>ledger_entries := rev (ledger_entries small_ledger)\<rparr>) = Inr [debit, credit]
    \<and> Entry_IsDebit debit \<and> e_AmountMinor credit = 5 \<and> SumMinor [debit, credit] = 0"
  using EntriesForTransfer_legs [OF small_ledger_ok, of "small_ledger\<lparr>ledger_entries := rev (ledger_entries small_ledger)\<rparr>" uuid_Nil]
  by (auto simp: one_transfer_def)

end
