(* ===== verification/Locking.thy ===== *)
theory Locking
  imports PostRetry
begin

text \<open>
  Row locks and their order.  A posting takes its two row locks with the two
  \<^verbatim>\<open>SELECT ... FOR UPDATE\<close> of \<^verbatim>\<open>lockAccounts\<close>, one after the other, and keeps them until its
  transaction ends.  The lock table below has one entry per transaction: the rows it holds and
  the rows it has still to lock, in order.  The locale \<open>ordered_locking\<close> is the contract of a lock
  plan; deadlock freedom is proved there and interpreted on the plan \<open>lockOrder\<close> gives.
\<close>

section \<open>The lock machine\<close>

record txn =
  held :: "uuid list"
  wanted :: "uuid list"

type_synonym lock_table = "txn list"

definition fresh_txn :: "uuid list \<Rightarrow> txn" where
  "fresh_txn plan = \<lparr>held = [], wanted = plan\<rparr>"

definition txn_done :: "txn \<Rightarrow> bool" where
  "txn_done t \<longleftrightarrow> held t = [] \<and> wanted t = []"

definition holds :: "uuid \<Rightarrow> lock_table \<Rightarrow> bool" where
  "holds k ts \<longleftrightarrow> (\<exists>t \<in> set ts. k \<in> set (held t))"

text \<open>A transaction takes a row no transaction holds, or, with all its locks, ends and releases
  them (COMMIT or ROLLBACK).\<close>

inductive lock_step :: "lock_table \<Rightarrow> lock_table \<Rightarrow> bool" where
  acquire: "i < length ts \<Longrightarrow> wanted (ts ! i) = k # ks \<Longrightarrow> \<not> holds k ts \<Longrightarrow>
     lock_step ts (ts[i := \<lparr>held = k # held (ts ! i), wanted = ks\<rparr>])"
| finish: "i < length ts \<Longrightarrow> wanted (ts ! i) = [] \<Longrightarrow> held (ts ! i) \<noteq> [] \<Longrightarrow>
     lock_step ts (ts[i := \<lparr>held = [], wanted = []\<rparr>])"

inductive lock_steps :: "lock_table \<Rightarrow> lock_table \<Rightarrow> bool" where
  none: "lock_steps ts ts"
| more: "lock_steps ts us \<Longrightarrow> lock_step us vs \<Longrightarrow> lock_steps ts vs"

definition deadlocked :: "lock_table \<Rightarrow> bool" where
  "deadlocked ts \<longleftrightarrow> \<not> list_all txn_done ts \<and> (\<forall>us. \<not> lock_step ts us)"

text \<open>The invariant of ordered locking: what a transaction holds is below what it still wants.\<close>

definition ordered_txn :: "txn \<Rightarrow> bool" where
  "ordered_txn t \<longleftrightarrow> sorted_wrt (<) (wanted t) \<and> (\<forall>h \<in> set (held t). \<forall>w \<in> set (wanted t). h < w)"

lemma lock_step_ordered: "lock_step ts us \<Longrightarrow> list_all ordered_txn ts \<Longrightarrow> list_all ordered_txn us"
proof (induction rule: lock_step.induct)
  case (acquire i ts k ks)
  then have "ordered_txn (ts ! i)" by (simp add: list_all_length)
  with acquire(2) have "ordered_txn \<lparr>held = k # held (ts ! i), wanted = ks\<rparr>"
    by (auto simp: ordered_txn_def)
  with acquire(1,4) show ?case by (simp add: list_all_length nth_list_update)
next
  case (finish i ts)
  moreover have "ordered_txn \<lparr>held = [], wanted = []\<rparr>" by (simp add: ordered_txn_def)
  ultimately show ?case by (simp add: list_all_length nth_list_update)
qed

lemma waiting_head:
  assumes "list_all ordered_txn ts" and stuck: "\<forall>us. \<not> lock_step ts us"
    and t: "t \<in> set ts" "wanted t = k # ks"
  shows "\<exists>t' \<in> set ts. \<exists>k' ks'. wanted t' = k' # ks' \<and> k < k'"
proof -
  obtain i where i: "i < length ts" "ts ! i = t" using t(1) by (auto simp: in_set_conv_nth)
  have "holds k ts" using stuck acquire [OF i(1), of k ks] t(2) i(2) by auto
  then obtain t' where t': "t' \<in> set ts" "k \<in> set (held t')" by (auto simp: holds_def)
  then obtain j where j: "j < length ts" "ts ! j = t'" by (auto simp: in_set_conv_nth)
  have "held (ts ! j) \<noteq> []" using t'(2) j(2) by auto
  then have "wanted t' \<noteq> []" using stuck finish [OF j(1)] j(2) by auto
  then obtain k' ks' where "wanted t' = k' # ks'" by (cases "wanted t'") auto
  moreover have "ordered_txn t'" using assms(1) t'(1) by (simp add: list_all_iff)
  ultimately show ?thesis using t' by (auto simp: ordered_txn_def)
qed

lemma ordered_not_deadlocked:
  assumes ord: "list_all ordered_txn ts"
  shows "\<not> deadlocked ts"
proof
  assume "deadlocked ts"
  then have stuck: "\<forall>us. \<not> lock_step ts us" and "\<exists>t \<in> set ts. \<not> txn_done t"
    by (auto simp: deadlocked_def list_all_iff)
  let ?heads = "{k. \<exists>t \<in> set ts. \<exists>ks. wanted t = k # ks}"
  obtain t where t: "t \<in> set ts" "\<not> txn_done t" using \<open>\<exists>t \<in> set ts. \<not> txn_done t\<close> by blast
  then obtain i where i: "i < length ts" "ts ! i = t" by (auto simp: in_set_conv_nth)
  have "wanted t \<noteq> []" using stuck finish [OF i(1)] t(2) i(2) by (auto simp: txn_done_def)
  then have ne: "?heads \<noteq> {}" using t(1) by (cases "wanted t") auto
  have "?heads \<subseteq> (\<lambda>t. hd (wanted t)) ` set ts" by force
  then have fin: "finite ?heads" by (rule finite_subset) simp
  obtain t' ks where "t' \<in> set ts" "wanted t' = Max ?heads # ks"
    using Max_in [OF fin ne] by blast
  from waiting_head [OF ord stuck this] obtain k' where "k' \<in> ?heads" "Max ?heads < k'" by blast
  with Max_ge [OF fin, of k'] show False by simp
qed

text \<open>Every step makes progress, so every run ends.\<close>

definition txn_work :: "txn \<Rightarrow> nat" where
  "txn_work t = 2 * length (wanted t) + (if txn_done t then 0 else 1)"

definition work :: "lock_table \<Rightarrow> nat" where
  "work ts = sum_list (map txn_work ts)"

lemma work_update:
  assumes "i < length ts" and "txn_work t < txn_work (ts ! i)"
  shows "work (ts[i := t]) < work ts"
proof -
  have "work ts = work (take i ts) + txn_work (ts ! i) + work (drop (Suc i) ts)"
    using assms(1) by (subst id_take_nth_drop [OF assms(1)]) (simp add: work_def)
  moreover have "work (ts[i := t]) = work (take i ts) + txn_work t + work (drop (Suc i) ts)"
    using assms(1) by (simp add: work_def upd_conv_take_nth_drop)
  ultimately show ?thesis using assms(2) by simp
qed

lemma lock_step_work: "lock_step ts us \<Longrightarrow> work us < work ts"
  by (induction rule: lock_step.induct) (auto intro!: work_update simp: txn_work_def txn_done_def)

section \<open>The contract of a lock plan\<close>

locale ordered_locking =
  fixes plan :: "'c \<Rightarrow> uuid list"
  assumes ascending: "sorted_wrt (<) (plan c)"
begin

definition start :: "'c list \<Rightarrow> lock_table" where
  "start cs = map (\<lambda>c. fresh_txn (plan c)) cs"

lemma reachable_ordered: "lock_steps ts us \<Longrightarrow> ts = start cs \<Longrightarrow> list_all ordered_txn us"
  by (induction rule: lock_steps.induct)
    (auto simp: start_def list_all_iff ordered_txn_def fresh_txn_def ascending dest: lock_step_ordered)

lemma no_deadlock: "lock_steps (start cs) us \<Longrightarrow> \<not> deadlocked us"
  using reachable_ordered ordered_not_deadlocked by blast

lemma all_complete: "lock_steps (start cs) us \<Longrightarrow> \<exists>vs. lock_steps us vs \<and> list_all txn_done vs"
proof (induction "work us" arbitrary: us rule: less_induct)
  case less
  show ?case
  proof (cases "list_all txn_done us")
    case True
    then show ?thesis by (auto intro: lock_steps.none)
  next
    case False
    with no_deadlock [OF less.prems] obtain vs where vs: "lock_step us vs" by (auto simp: deadlocked_def)
    from less.hyps [OF lock_step_work [OF vs] lock_steps.more [OF less.prems vs]]
    obtain zs where "lock_steps vs zs" "list_all txn_done zs" by blast
    moreover have "lock_steps us zs"
      using \<open>lock_steps vs zs\<close> vs
    proof (induction rule: lock_steps.induct)
      case (none ts)
      then show ?case by (rule lock_steps.more [OF lock_steps.none])
    qed (auto intro: lock_steps.more)
    ultimately show ?thesis by blast
  qed
qed

end

section \<open>The plan of the program\<close>

text \<open>The rows \<^verbatim>\<open>lockAccounts\<close> locks for a command, in order.  Locking a row one already holds
  takes no new lock.\<close>

definition lock_plan :: "Command \<Rightarrow> uuid list" where
  "lock_plan cmd =
     (case lockOrder (c_SourceAccountID cmd) (c_DestinationAccountID cmd) of (first, second) \<Rightarrow>
        remdups [first, second])"

interpretation program_locks: ordered_locking lock_plan
  by unfold_locales (auto simp: lock_plan_def lockOrder_eq min_def max_def)

text \<open>What the order is for: source first deadlocks on two opposite transfers.\<close>

definition source_first :: "Command \<Rightarrow> uuid list" where
  "source_first cmd = [c_SourceAccountID cmd, c_DestinationAccountID cmd]"

lemma source_first_deadlocks:
  assumes "a \<noteq> b"
  shows "\<exists>us. lock_steps [fresh_txn [a, b], fresh_txn [b, a]] us \<and> deadlocked us"
proof -
  let ?t0 = "[fresh_txn [a, b], fresh_txn [b, a]]"
  let ?t1 = "[\<lparr>held = [a], wanted = [b]\<rparr>, fresh_txn [b, a]]"
  let ?t2 = "[\<lparr>held = [a], wanted = [b]\<rparr>, \<lparr>held = [b], wanted = [a]\<rparr>]"
  have "lock_step ?t0 ?t1"
    using acquire [of 0 ?t0 a "[b]"] by (simp add: fresh_txn_def holds_def)
  moreover have "lock_step ?t1 ?t2"
    using acquire [of 1 ?t1 b "[a]"] assms by (simp add: fresh_txn_def holds_def)
  moreover have "deadlocked ?t2"
    unfolding deadlocked_def
  proof (intro conjI allI notI)
    fix us
    assume "lock_step ?t2 us"
    then show False
      by cases (auto simp: less_Suc_eq holds_def)
  qed (simp add: txn_done_def)
  ultimately show ?thesis by (meson lock_steps.intros)
qed

text \<open>C6: No deadlock: whatever transfers run concurrently and in whatever order their lock requests
  are granted, as long as some transaction is unfinished one of them can proceed, and all of
  them can finish.\<close>

theorem posting_never_deadlocks:
  assumes "lock_steps (map (\<lambda>cmd. fresh_txn (lock_plan cmd)) cmds) ts"
  shows "\<not> deadlocked ts \<and> (\<exists>us. lock_steps ts us \<and> list_all txn_done us)"
  using assms program_locks.no_deadlock [of cmds ts] program_locks.all_complete [of cmds ts]
  by (simp add: program_locks.start_def)

definition cross_a :: Command where
  "cross_a = \<lparr>c_SourceAccountID = UUID 1, c_DestinationAccountID = UUID 2, c_AmountMinor = 1, c_Currency = ''USD''\<rparr>"

definition cross_b :: Command where
  "cross_b = \<lparr>c_SourceAccountID = UUID 2, c_DestinationAccountID = UUID 1, c_AmountMinor = 1, c_Currency = ''USD''\<rparr>"

theorem posting_never_deadlocks_witness:
  "\<not> deadlocked [fresh_txn [UUID 1, UUID 2], fresh_txn [UUID 1, UUID 2]]"
proof -
  have "lock_plan cross_a = [UUID 1, UUID 2]" "lock_plan cross_b = [UUID 1, UUID 2]" by code_simp+
  with posting_never_deadlocks [of "[cross_a, cross_b]", OF lock_steps.none] show ?thesis by simp
qed

text \<open>The lock order is a property of the pair: both directions of a transfer lock the smaller
  UUID (by the numeric value of its bytes) first.\<close>

theorem lockOrder_canonical:
  "lockOrder a b = lockOrder b a
   \<and> (case lockOrder a b of (first, second) \<Rightarrow>
        unat (uuid_word first) \<le> unat (uuid_word second) \<and> {first, second} = {a, b})"
  using uuid_le_iff [of a b] uuid_le_iff [of b a] by (auto simp: lockOrder_eq min_def max_def word_le_nat_alt)

end
