(* ===== verification/Auth.thy ===== *)
theory Auth
  imports GoStrings
begin

text \<open>
  Package auth (\<^verbatim>\<open>src/internal/auth\<close>): principals and scopes, extraction of a bearer token, and
  verification of access tokens.  The JWT library is third-party code and the PEM and X.509
  decoders are taken as given: \<open>crypto\<close> has the functions the verifier calls.
\<close>

section \<open>Principals\<close>

type_synonym Scope = string

definition ScopeAccountsRead :: Scope where "ScopeAccountsRead = ''accounts:read''"
definition ScopeAccountsWrite :: Scope where "ScopeAccountsWrite = ''accounts:write''"
definition ScopeTransfersRead :: Scope where "ScopeTransfersRead = ''transfers:read''"
definition ScopeTransfersWrite :: Scope where "ScopeTransfersWrite = ''transfers:write''"
definition ScopeLedgerRead :: Scope where "ScopeLedgerRead = ''ledger:read''"

record Principal =
  pr_Subject :: string
  pr_Issuer :: string
  pr_Audience :: string
  pr_Scopes :: "Scope list"

definition HasScope :: "Principal \<Rightarrow> Scope \<Rightarrow> bool" where
  "HasScope p s \<longleftrightarrow> s \<in> set (pr_Scopes p)"

definition ScopeStrings :: "Principal \<Rightarrow> string list" where
  "ScopeStrings p = map (\<lambda>s. s) (pr_Scopes p)"

text \<open>A request context, as far as the program uses it: the principal planted in it.\<close>

record Context =
  ctx_principal :: "Principal option"

definition WithPrincipal :: "Context \<Rightarrow> Principal \<Rightarrow> Context" where
  "WithPrincipal ctx p = ctx\<lparr>ctx_principal := Some p\<rparr>"

definition PrincipalFrom :: "Context \<Rightarrow> Principal option" where
  "PrincipalFrom ctx = ctx_principal ctx"

definition parseScopes :: "string \<Rightarrow> Scope list" where
  "parseScopes raw = Fields raw"

section \<open>Bearer tokens\<close>

definition bearerPrefix :: string where "bearerPrefix = ''bearer ''"

definition TokenFromAuthorization :: "string \<Rightarrow> string result" where
  "TokenFromAuthorization header =
     (if TrimSpace header = '''' then Inl (Sentinel auth_ErrNoCredentials)
      else if length header < length bearerPrefix
        \<or> \<not> EqualFold (take (length bearerPrefix) header) bearerPrefix then
        Inl (Errorf ''%w: expected a Bearer token'' [] [Sentinel auth_ErrMalformedCredentials])
      else
        (let token = TrimSpace (drop (length bearerPrefix) header) in
         if token = '''' then
           Inl (Errorf ''%w: Bearer scheme with no token'' [] [Sentinel auth_ErrMalformedCredentials])
         else if ContainsAny token [CHR '' '', CHR 0x09] then
           Inl (Errorf ''%w: token contains whitespace'' [] [Sentinel auth_ErrMalformedCredentials])
         else Inr token))"

section \<open>The verifier\<close>

datatype public_key = RSAKey string | OtherKey string

record parser_options =
  po_ValidMethods :: "string list"
  po_Issuer :: string
  po_Audience :: string
  po_ExpirationRequired :: bool
  po_Leeway :: int

record registeredClaims =
  jc_Subject :: string
  jc_Scope :: string
  jc_Scopes :: "string list"

text \<open>\<open>ParseWithClaims\<close> gives the claims and whether the token is marked valid.\<close>

record crypto =
  pem_Decode :: "string \<Rightarrow> (string \<times> string) option"
  ParsePKIXPublicKey :: "string \<Rightarrow> public_key result"
  ParsePKCS1PublicKey :: "string \<Rightarrow> string result"
  ParseWithClaims :: "parser_options \<Rightarrow> string \<Rightarrow> string \<Rightarrow> (registeredClaims \<times> bool) result"

record Verifier =
  v_parser :: parser_options
  v_key :: string
  v_issuer :: string
  v_audience :: string

record VerifierConfig =
  vc_PublicKeyPEM :: string
  vc_Issuer :: string
  vc_Audience :: string
  vc_Leeway :: int

definition contains_sub :: "string \<Rightarrow> string \<Rightarrow> bool" where
  "contains_sub s sub \<longleftrightarrow> list_ex (\<lambda>i. take (length sub) (drop i s) = sub) [0..<Suc (length s)]"

definition parseRSAPublicKey :: "crypto \<Rightarrow> string \<Rightarrow> string result" where
  "parseRSAPublicKey lib pemData =
     (case pem_Decode lib pemData of
        None \<Rightarrow> Inl (ErrorsNew ''auth: JWT verification key is not valid PEM'')
      | Some (block_type, block_bytes) \<Rightarrow>
          if contains_sub block_type ''PRIVATE'' then
            Inl (ErrorsNew ''auth: JWT verification key is a private key; configure the public key'')
          else
            (case ParsePKIXPublicKey lib block_bytes of
               Inl err \<Rightarrow>
                 (case ParsePKCS1PublicKey lib block_bytes of
                    Inr pkcs1 \<Rightarrow> Inr pkcs1
                  | Inl _ \<Rightarrow> Inl (Errorf ''auth: parsing JWT verification key: %w'' [] [err]))
             | Inr (RSAKey key) \<Rightarrow> Inr key
             | Inr (OtherKey ty) \<Rightarrow>
                 Inl (Errorf ''auth: JWT verification key is %T, want an RSA public key'' [AStr ty] [])))"

definition NewVerifier :: "crypto \<Rightarrow> VerifierConfig \<Rightarrow> Verifier result" where
  "NewVerifier lib cfg =
     (if TrimSpace (vc_PublicKeyPEM cfg) = '''' then
        Inl (ErrorsNew ''auth: no JWT verification key configured'')
      else if vc_Issuer cfg = '''' then Inl (ErrorsNew ''auth: no JWT issuer configured'')
      else if vc_Audience cfg = '''' then Inl (ErrorsNew ''auth: no JWT audience configured'')
      else
        (case parseRSAPublicKey lib (vc_PublicKeyPEM cfg) of
           Inl err \<Rightarrow> Inl err
         | Inr key \<Rightarrow>
             Inr \<lparr>v_parser = \<lparr>po_ValidMethods = [''RS256''], po_Issuer = vc_Issuer cfg,
                              po_Audience = vc_Audience cfg, po_ExpirationRequired = True,
                              po_Leeway = vc_Leeway cfg\<rparr>,
                  v_key = key, v_issuer = vc_Issuer cfg, v_audience = vc_Audience cfg\<rparr>))"

definition Verify :: "crypto \<Rightarrow> Verifier \<Rightarrow> string \<Rightarrow> Principal result" where
  "Verify lib v raw =
     (if raw = '''' then Inl (Sentinel auth_ErrNoCredentials)
      else
        (case ParseWithClaims lib (v_parser v) (v_key v) raw of
           Inl err \<Rightarrow> Inl (Errorf ''%w: %w'' [] [Sentinel auth_ErrInvalidToken, err])
         | Inr (claims, valid) \<Rightarrow>
             if \<not> valid then
               Inl (Errorf ''%w: token reported invalid'' [] [Sentinel auth_ErrInvalidToken])
             else
               (let subject = TrimSpace (jc_Subject claims) in
                if subject = '''' then
                  Inl (Errorf ''%w: token has no subject'' [] [Sentinel auth_ErrInvalidToken])
                else
                  Inr \<lparr>pr_Subject = subject, pr_Issuer = v_issuer v, pr_Audience = v_audience v,
                       pr_Scopes = parseScopes (jc_Scope claims)
                         @ filter (\<lambda>s. s \<noteq> '''') (map TrimSpace (jc_Scopes claims))\<rparr>)))"

lemma length_bearerPrefix: "length bearerPrefix = 7"
  by (simp add: bearerPrefix_def)

section \<open>Properties\<close>

text \<open>\<^verbatim>\<open>TokenFromAuthorization\<close> accepts only a header that starts with the Bearer scheme (in any
  case) and yields a non-empty token, a contiguous part of the rest of the header, without a
  space or tab; every refusal is \<^verbatim>\<open>ErrNoCredentials\<close> or \<^verbatim>\<open>ErrMalformedCredentials\<close>.\<close>

theorem TokenFromAuthorization_spec:
  "(case TokenFromAuthorization header of
      Inr token \<Rightarrow> EqualFold (take 7 header) ''bearer '' \<and> token \<noteq> ''''
        \<and> (\<exists>pre post. header = take 7 header @ pre @ token @ post)
        \<and> CHR '' '' \<notin> set token \<and> CHR 0x09 \<notin> set token
    | Inl err \<Rightarrow> errors_is err auth_ErrNoCredentials \<and> TrimSpace header = ''''
        \<or> errors_is err auth_ErrMalformedCredentials)"
proof (cases "TokenFromAuthorization header")
  case (Inl err)
  then show ?thesis by (auto simp: TokenFromAuthorization_def Let_def split: if_splits)
next
  case (Inr token)
  then have token: "token = TrimSpace (drop 7 header)" "EqualFold (take 7 header) ''bearer ''" "token \<noteq> ''''"
      "\<not> ContainsAny token [CHR '' '', CHR 0x09]"
    by (auto simp: TokenFromAuthorization_def length_bearerPrefix Let_def split: if_splits)
      (simp_all add: bearerPrefix_def)
  obtain pre post where "drop 7 header = pre @ token @ post" using TrimSpace_within token(1) by blast
  then have "header = take 7 header @ pre @ token @ post" by (metis append_take_drop_id)
  moreover have "CHR '' '' \<notin> set token" "CHR 0x09 \<notin> set token"
    using token(4) by (auto simp: ContainsAny_def list_ex_iff)
  ultimately show ?thesis using Inr token(2,3) by auto
qed

text \<open>C27: A principal comes only out of a token the library accepted and marked valid; its subject is
  not blank, its issuer and audience are the configured ones, no scope is empty, and a failure
  is \<^verbatim>\<open>ErrNoCredentials\<close> for an absent token and \<^verbatim>\<open>ErrInvalidToken\<close> for any other reason.\<close>

theorem Verify_spec:
  "(case Verify lib v raw of
      Inr p \<Rightarrow> raw \<noteq> '''' \<and> (\<exists>claims. ParseWithClaims lib (v_parser v) (v_key v) raw = Inr (claims, True)
                 \<and> pr_Subject p = TrimSpace (jc_Subject claims))
               \<and> pr_Subject p \<noteq> '''' \<and> pr_Issuer p = v_issuer v \<and> pr_Audience p = v_audience v
               \<and> list_all (\<lambda>s. s \<noteq> '''') (pr_Scopes p)
    | Inl err \<Rightarrow> if raw = '''' then errors_is err auth_ErrNoCredentials else errors_is err auth_ErrInvalidToken)"
  using Fields_nonempty
  by (auto simp: Verify_def parseScopes_def Let_def list_all_iff split: sum.splits prod.splits)

text \<open>A verifier that can be built has an RSA key and a non-empty issuer and audience, and its
  parser allows RS256 only and requires an expiry.\<close>

theorem NewVerifier_strict:
  assumes "NewVerifier lib cfg = Inr v"
  shows "po_ValidMethods (v_parser v) = [''RS256''] \<and> po_ExpirationRequired (v_parser v)
    \<and> po_Issuer (v_parser v) = vc_Issuer cfg \<and> po_Audience (v_parser v) = vc_Audience cfg
    \<and> vc_Issuer cfg \<noteq> '''' \<and> vc_Audience cfg \<noteq> ''''
    \<and> parseRSAPublicKey lib (vc_PublicKeyPEM cfg) = Inr (v_key v)"
  using assms by (auto simp: NewVerifier_def split: if_splits sum.splits)

definition sample_crypto :: crypto where
  "sample_crypto =
     \<lparr>pem_Decode = (\<lambda>s. Some (''PUBLIC KEY'', s)), ParsePKIXPublicKey = (\<lambda>b. Inr (RSAKey b)),
      ParsePKCS1PublicKey = (\<lambda>b. Inl (LibError ''asn1'')),
      ParseWithClaims = (\<lambda>opts key raw.
        if raw = ''g'' then Inr (\<lparr>jc_Subject = '' al '', jc_Scope = ''transfers:write ledger:read'', jc_Scopes = []\<rparr>, True)
        else Inl (LibError ''token is malformed''))\<rparr>"

definition sample_verifier_config :: VerifierConfig where
  "sample_verifier_config = \<lparr>vc_PublicKeyPEM = ''KEY'', vc_Issuer = ''iss'', vc_Audience = ''aud'', vc_Leeway = 0\<rparr>"

definition sample_verifier :: Verifier where
  "sample_verifier = \<lparr>v_parser = \<lparr>po_ValidMethods = [''RS256''], po_Issuer = ''iss'', po_Audience = ''aud'',
       po_ExpirationRequired = True, po_Leeway = 0\<rparr>, v_key = ''KEY'', v_issuer = ''iss'', v_audience = ''aud''\<rparr>"

theorem NewVerifier_strict_witness:
  "NewVerifier sample_crypto sample_verifier_config = Inr sample_verifier
   \<and> po_ValidMethods (v_parser sample_verifier) = [''RS256'']"
proof -
  have "NewVerifier sample_crypto sample_verifier_config = Inr sample_verifier" by code_simp
  with NewVerifier_strict [OF this] show ?thesis by blast
qed

end
