(* ===== verification/GrpcErrors.thy ===== *)
theory GrpcErrors
  imports Auth
begin

text \<open>
  The mapping of domain errors to gRPC statuses (\<^verbatim>\<open>src/internal/grpcapi/errors.go\<close>) and the
  interceptors (\<^verbatim>\<open>interceptors.go\<close>).  A handler is a function of the context, the request and
  the state of the world.  \<open>StatusError c m\<close> is \<^verbatim>\<open>status.Error(c, m)\<close>; the message of a
  validation error is the text of that error (\<open>ErrorText\<close>), every other message is fixed.
\<close>

section \<open>Error mapping\<close>

definition publicMessage :: "go_error \<Rightarrow> status_msg" where
  "publicMessage err = ErrorText err"

definition toStatus :: "go_error \<Rightarrow> go_error" where
  "toStatus err =
     (if errors_as_status err \<noteq> None then err
      else if errors_is err grpcapi_ErrInvalidRequest \<or> errors_is err transfer_ErrInvalidAmount
        \<or> errors_is err transfer_ErrSameAccount \<or> errors_is err money_ErrInvalidCurrency
        \<or> errors_is err idempotency_ErrInvalidKey then StatusError InvalidArgument (publicMessage err)
      else if errors_is err account_ErrNotFound then StatusError NotFound (FixedText ''account not found'')
      else if errors_is err transfer_ErrNotFound then StatusError NotFound (FixedText ''transfer not found'')
      else if errors_is err transfer_ErrSourceAccountNotFound then
        StatusError NotFound (FixedText ''source account not found'')
      else if errors_is err transfer_ErrDestinationAccountNotFound then
        StatusError NotFound (FixedText ''destination account not found'')
      else if errors_is err transfer_ErrInsufficientFunds then
        StatusError FailedPrecondition (FixedText ''insufficient funds'')
      else if errors_is err transfer_ErrCurrencyMismatch then
        StatusError FailedPrecondition (FixedText ''currency mismatch between transfer and accounts'')
      else if errors_is err transfer_ErrIdempotencyConflict then
        StatusError AlreadyExists (FixedText ''idempotency key was already used for a different payment'')
      else if errors_is err transfer_ErrIdempotencyInProgress then
        StatusError Aborted (FixedText ''a request with this idempotency key is already in progress; retry shortly'')
      else if errors_is err transfer_ErrRetriesExhausted then
        StatusError Unavailable (FixedText ''the ledger is busy; retry shortly'')
      else if errors_is err auth_ErrNoCredentials \<or> errors_is err auth_ErrMalformedCredentials
        \<or> errors_is err auth_ErrInvalidToken then
        StatusError Unauthenticated (FixedText ''invalid or missing credentials'')
      else if errors_is err auth_ErrMissingScope then
        StatusError PermissionDenied (FixedText ''the token does not carry the required scope'')
      else if errors_is err context_Canceled then StatusError Canceled (FixedText ''request cancelled'')
      else if errors_is err context_DeadlineExceeded then
        StatusError DeadlineExceeded (FixedText ''request deadline exceeded'')
      else StatusError Internal (FixedText ''internal error''))"

text \<open>\<^verbatim>\<open>status.Code\<close>.\<close>

definition status_Code :: "go_error option \<Rightarrow> grpc_code" where
  "status_Code e =
     (case e of None \<Rightarrow> OK
      | Some err \<Rightarrow> (case errors_as_status err of Some (c, _) \<Rightarrow> c | None \<Rightarrow> Unknown))"

section \<open>Methods and scopes\<close>

text \<open>\<open>serviceName\<close> is read from the generated descriptor.\<close>

definition serviceName :: string where "serviceName = ''payments.v1.PaymentsService''"

definition methodPath :: "string \<Rightarrow> string" where
  "methodPath rpc = ''/'' @ serviceName @ ''/'' @ rpc"

definition requiredScopes :: "(string \<times> Scope) list" where
  "requiredScopes =
     [(methodPath ''CreateAccount'', ScopeAccountsWrite),
      (methodPath ''GetAccount'', ScopeAccountsRead),
      (methodPath ''CreateTransfer'', ScopeTransfersWrite),
      (methodPath ''GetTransfer'', ScopeTransfersRead),
      (methodPath ''ListLedgerEntriesForTransfer'', ScopeLedgerRead)]"

definition RequiredScope :: "string \<Rightarrow> Scope option" where
  "RequiredScope fullMethod = map_of requiredScopes fullMethod"

definition unauthenticatedPrefixes :: "string list" where
  "unauthenticatedPrefixes =
     [''/grpc.health.v1.Health/'', ''/grpc.reflection.v1.ServerReflection/'',
      ''/grpc.reflection.v1alpha.ServerReflection/'']"

definition isUnauthenticated :: "string \<Rightarrow> bool" where
  "isUnauthenticated fullMethod = list_ex (\<lambda>prefix. HasPrefix fullMethod prefix) unauthenticatedPrefixes"

section \<open>Interceptors\<close>

type_synonym ('q, 'p, 'w) handler = "Context \<Rightarrow> 'q \<Rightarrow> 'w \<Rightarrow> 'p result \<times> 'w"

text \<open>What a call carries besides its request: the full method name and, if there is metadata, the
  values of its \<^verbatim>\<open>authorization\<close> key.\<close>

record call_info =
  ci_FullMethod :: string
  ci_authorization :: "string list option"

definition bad_credentials :: go_error where
  "bad_credentials = StatusError Unauthenticated (FixedText ''invalid or missing credentials'')"

definition no_scope :: go_error where
  "no_scope = StatusError PermissionDenied (FixedText ''the token does not carry the required scope'')"

definition authorization_header :: "string list \<Rightarrow> string" where
  "authorization_header values = (if length values > 0 then values ! 0 else '''')"

definition authenticate ::
  "crypto \<Rightarrow> Verifier option \<Rightarrow> call_info \<Rightarrow> ('q, 'p, 'w) handler \<Rightarrow> ('q, 'p, 'w) handler" where
  "authenticate lib verifier info handler ctx req w =
     (if isUnauthenticated (ci_FullMethod info) then handler ctx req w
      else
        (case verifier of
           None \<Rightarrow> (Inl (StatusError Unauthenticated (FixedText ''authentication is not configured'')), w)
         | Some v \<Rightarrow>
             (case ci_authorization info of
                None \<Rightarrow> (Inl bad_credentials, w)
              | Some values \<Rightarrow>
                  (case TokenFromAuthorization (authorization_header values) of
                     Inl err \<Rightarrow> (Inl bad_credentials, w)
                   | Inr raw \<Rightarrow>
                       (case Verify lib v raw of
                          Inl err \<Rightarrow> (Inl bad_credentials, w)
                        | Inr caller \<Rightarrow> handler (WithPrincipal ctx caller) req w)))))"

definition authorize :: "call_info \<Rightarrow> ('q, 'p, 'w) handler \<Rightarrow> ('q, 'p, 'w) handler" where
  "authorize info handler ctx req w =
     (if isUnauthenticated (ci_FullMethod info) then handler ctx req w
      else
        (case PrincipalFrom ctx of
           None \<Rightarrow> (Inl bad_credentials, w)
         | Some caller \<Rightarrow>
             (case RequiredScope (ci_FullMethod info) of
                None \<Rightarrow> (Inl no_scope, w)
              | Some required \<Rightarrow>
                  if \<not> HasScope caller required then (Inl no_scope, w)
                  else handler ctx req w)))"

datatype log_level = LevelDebug | LevelInfo

record log_line =
  ll_level :: log_level
  ll_method :: string
  ll_code :: grpc_code
  ll_subject :: "string option"

definition logRequests ::
  "call_info \<Rightarrow> ('q, 'p, 'w) handler \<Rightarrow> Context \<Rightarrow> 'q \<Rightarrow> 'w \<Rightarrow> ('p result \<times> 'w) \<times> log_line" where
  "logRequests info handler ctx req w =
     (case handler ctx req w of (resp, w') \<Rightarrow>
        let code = (case resp of Inr _ \<Rightarrow> OK | Inl err \<Rightarrow> status_Code (Some err)) in
        ((resp, w'),
         \<lparr>ll_level = (if code \<noteq> OK then LevelInfo else LevelDebug), ll_method = ci_FullMethod info, ll_code = code,
          ll_subject = map_option pr_Subject (PrincipalFrom ctx)\<rparr>))"

text \<open>The chain \<^verbatim>\<open>New\<close> installs: log, authenticate, authorize, handle.\<close>

definition serve ::
  "crypto \<Rightarrow> Verifier option \<Rightarrow> call_info \<Rightarrow> ('q, 'p, 'w) handler \<Rightarrow> Context \<Rightarrow> 'q \<Rightarrow> 'w \<Rightarrow> ('p result \<times> 'w) \<times> log_line" where
  "serve lib verifier info handler =
     logRequests info (authenticate lib verifier info (authorize info handler))"

section \<open>Facts\<close>

text \<open>The principal the credentials of a call stand for, and when it is entitled to the method.\<close>

definition caller_of :: "crypto \<Rightarrow> Verifier option \<Rightarrow> call_info \<Rightarrow> Principal option" where
  "caller_of lib verifier info =
     (case (verifier, ci_authorization info) of
        (Some v, Some values) \<Rightarrow>
          (case TokenFromAuthorization (authorization_header values) of
             Inl _ \<Rightarrow> None
           | Inr raw \<Rightarrow> (case Verify lib v raw of Inl _ \<Rightarrow> None | Inr p \<Rightarrow> Some p))
      | _ \<Rightarrow> None)"

definition entitled :: "crypto \<Rightarrow> Verifier option \<Rightarrow> call_info \<Rightarrow> Principal \<Rightarrow> bool" where
  "entitled lib verifier info p \<longleftrightarrow>
     caller_of lib verifier info = Some p
     \<and> (\<exists>scope. RequiredScope (ci_FullMethod info) = Some scope \<and> HasScope p scope)"

lemma authenticate_cases:
  assumes "\<not> isUnauthenticated (ci_FullMethod info)"
  shows "(case caller_of lib verifier info of
      Some p \<Rightarrow> authenticate lib verifier info handler ctx req w = handler (WithPrincipal ctx p) req w
    | None \<Rightarrow> \<exists>msg. authenticate lib verifier info handler ctx req w = (Inl (StatusError Unauthenticated (FixedText msg)), w))"
  using assms
  by (auto simp: authenticate_def caller_of_def bad_credentials_def split: option.splits sum.splits)

lemma serve_cases:
  assumes "\<not> isUnauthenticated (ci_FullMethod info)"
  shows "(\<exists>p. entitled lib verifier info p
            \<and> fst (serve lib verifier info handler ctx req w) = handler (WithPrincipal ctx p) req w)
     \<or> (\<forall>p. \<not> entitled lib verifier info p)
       \<and> (\<exists>code msg. fst (serve lib verifier info handler ctx req w) = (Inl (StatusError code (FixedText msg)), w)
            \<and> (code = Unauthenticated \<or> code = PermissionDenied))"
proof -
  let ?h = "authorize info handler"
  have fst: "fst (serve lib verifier info handler ctx req w) = authenticate lib verifier info ?h ctx req w"
    by (simp add: serve_def logRequests_def Let_def split: prod.splits)
  show ?thesis
    using authenticate_cases [OF assms, of lib verifier ?h ctx req w] assms
    by (cases "caller_of lib verifier info"; cases "RequiredScope (ci_FullMethod info)")
      (auto simp: fst entitled_def authorize_def WithPrincipal_def PrincipalFrom_def no_scope_def)
qed

section \<open>Properties\<close>

text \<open>C7: Closed door: a call to a method that is not a health or reflection method runs its handler
  only with a verified principal that holds the scope the table requires for that method; every
  other call is answered UNAUTHENTICATED or PERMISSION_DENIED with a fixed text, and the state
  of the world is untouched.\<close>

theorem serve_closed_door:
  assumes "\<not> isUnauthenticated (ci_FullMethod info)"
  shows "if (\<exists>p. entitled lib verifier info p)
    then \<exists>p. entitled lib verifier info p
           \<and> fst (serve lib verifier info handler ctx req w) = handler (WithPrincipal ctx p) req w
    else \<exists>code msg. fst (serve lib verifier info handler ctx req w) = (Inl (StatusError code (FixedText msg)), w)
           \<and> (code = Unauthenticated \<or> code = PermissionDenied)"
  using serve_cases [OF assms, of lib verifier handler ctx req w] by auto

definition sample_call :: call_info where
  "sample_call = \<lparr>ci_FullMethod = methodPath ''CreateTransfer'', ci_authorization = Some [''Basic abc'']\<rparr>"

theorem serve_closed_door_witness:
  "\<exists>code msg. fst (serve sample_crypto (Some sample_verifier) sample_call
       (\<lambda>ctx req w. (Inr (), w + 1)) \<lparr>ctx_principal = None\<rparr> () (0 :: int)) = (Inl (StatusError code (FixedText msg)), 0)
     \<and> (code = Unauthenticated \<or> code = PermissionDenied)"
proof -
  have un: "\<not> isUnauthenticated (ci_FullMethod sample_call)" by code_simp
  have "TokenFromAuthorization ''Basic abc'' =
      Inl (Errorf ''%w: expected a Bearer token'' [] [Sentinel auth_ErrMalformedCredentials])" by code_simp
  then have "\<not> (\<exists>p. entitled sample_crypto (Some sample_verifier) sample_call p)"
    by (auto simp: entitled_def caller_of_def authorization_header_def sample_call_def)
  with serve_closed_door [OF un, of sample_crypto "Some sample_verifier" "\<lambda>ctx req w. (Inr (), w + 1)"
      "\<lparr>ctx_principal = None\<rparr>" "()" "0 :: int"]
  show ?thesis by simp
qed

text \<open>Every payments RPC is behind the door: the five methods have a scope and none of them matches
  an unauthenticated prefix, while a method without an entry in the table is refused to everyone.\<close>

theorem payments_methods_protected:
  "list_all (\<lambda>m. \<not> isUnauthenticated m \<and> RequiredScope m \<noteq> None)
      (map methodPath [''CreateAccount'', ''GetAccount'', ''CreateTransfer'', ''GetTransfer'', ''ListLedgerEntriesForTransfer''])
   \<and> {info. \<exists>p. entitled lib verifier info p} \<subseteq> {info. RequiredScope (ci_FullMethod info) \<noteq> None}"
proof
  show "list_all (\<lambda>m. \<not> isUnauthenticated m \<and> RequiredScope m \<noteq> None)
      (map methodPath [''CreateAccount'', ''GetAccount'', ''CreateTransfer'', ''GetTransfer'', ''ListLedgerEntriesForTransfer''])"
    by code_simp
qed (auto simp: entitled_def)


text \<open>C28: The request log never names the caller: the logging interceptor is the outermost one and reads
  the principal from its own context, which the authentication inside it does not change.\<close>

theorem logRequests_no_subject:
  assumes "ctx_principal ctx = None"
  shows "ll_subject (snd (serve lib verifier info handler ctx req w)) = None"
  using assms by (simp add: serve_def logRequests_def PrincipalFrom_def Let_def split: prod.splits)

theorem logRequests_no_subject_witness:
  "ll_subject (snd (serve sample_crypto (Some sample_verifier) (sample_call\<lparr>ci_authorization := Some [''Bearer g'']\<rparr>)
         (\<lambda>ctx req w. (Inr (), w)) \<lparr>ctx_principal = None\<rparr> () ())) = None"
  by (rule logRequests_no_subject) simp

end
