(* ===== verification/Payments.thy ===== *)
theory Payments
  imports GrpcErrors Idempotent Accounts Ledger
begin

text \<open>
  The gRPC handlers (\<^verbatim>\<open>src/internal/grpcapi/service.go\<close>): validation of the request, one call of
  the service layer, and conversion of the answer.  \<open>uuid_lib\<close> has the two functions of the uuid
  package; a message of the generated protobuf code is a record of its fields.  The world is the
  pair of the database and the Redis server state.
\<close>

record uuid_lib =
  ul_String :: "uuid \<Rightarrow> string"
  ul_Parse :: "string \<Rightarrow> uuid result"

section \<open>Validation\<close>

definition parseUUID :: "uuid_lib \<Rightarrow> string \<Rightarrow> string \<Rightarrow> uuid result" where
  "parseUUID lib field raw =
     (if raw = '''' then Inl (Errorf ''%w: %s is required'' [AStr field] [Sentinel grpcapi_ErrInvalidRequest])
      else
        (case ul_Parse lib raw of
           Inl _ \<Rightarrow> Inl (Errorf ''%w: %s is not a valid UUID'' [AStr field] [Sentinel grpcapi_ErrInvalidRequest])
         | Inr i \<Rightarrow>
             if i = uuid_Nil then
               Inl (Errorf ''%w: %s must not be the zero UUID'' [AStr field] [Sentinel grpcapi_ErrInvalidRequest])
             else Inr i))"

definition parseCurrency :: "string \<Rightarrow> Currency result" where
  "parseCurrency raw = (case ParseCurrency raw of Inl err \<Rightarrow> Inl err | Inr c \<Rightarrow> Inr c)"

section \<open>Protobuf conversion\<close>

text \<open>Times are counted from the zero \<^verbatim>\<open>time.Time\<close>; an absent timestamp is \<open>None\<close>.\<close>

definition timestampToProto :: "int \<Rightarrow> int option" where
  "timestampToProto t = (if t = 0 then None else Some t)"

record pb_Account =
  pa_Id :: string
  pa_Currency :: string
  pa_BalanceMinor :: int
  pa_CreatedAt :: "int option"
  pa_UpdatedAt :: "int option"

definition accountToProto :: "uuid_lib \<Rightarrow> Account \<Rightarrow> pb_Account" where
  "accountToProto lib a =
     \<lparr>pa_Id = ul_String lib (a_ID a), pa_Currency = Currency_String (a_Currency a), pa_BalanceMinor = a_BalanceMinor a,
      pa_CreatedAt = timestampToProto (a_CreatedAt a), pa_UpdatedAt = timestampToProto (a_UpdatedAt a)\<rparr>"

datatype pb_TransferStatus = TRANSFER_STATUS_UNSPECIFIED | TRANSFER_STATUS_PENDING | TRANSFER_STATUS_COMPLETED
  | TRANSFER_STATUS_FAILED

fun transferStatusToProto :: "Status \<Rightarrow> pb_TransferStatus" where
  "transferStatusToProto StatusPending = TRANSFER_STATUS_PENDING"
| "transferStatusToProto StatusCompleted = TRANSFER_STATUS_COMPLETED"
| "transferStatusToProto StatusFailed = TRANSFER_STATUS_FAILED"
| "transferStatusToProto (StatusOther s) = TRANSFER_STATUS_UNSPECIFIED"

record pb_Transfer =
  pt_Id :: string
  pt_SourceAccountId :: string
  pt_DestinationAccountId :: string
  pt_AmountMinor :: int
  pt_Currency :: string
  pt_Status :: pb_TransferStatus
  pt_CreatedAt :: "int option"
  pt_CompletedAt :: "int option"

definition transferToProto :: "uuid_lib \<Rightarrow> Transfer \<Rightarrow> pb_Transfer" where
  "transferToProto lib t =
     \<lparr>pt_Id = ul_String lib (t_ID t), pt_SourceAccountId = ul_String lib (t_SourceAccountID t),
      pt_DestinationAccountId = ul_String lib (t_DestinationAccountID t), pt_AmountMinor = t_AmountMinor t,
      pt_Currency = Currency_String (t_Currency t), pt_Status = transferStatusToProto (t_Status t),
      pt_CreatedAt = timestampToProto (t_CreatedAt t),
      pt_CompletedAt = (case t_CompletedAt t of None \<Rightarrow> None | Some at \<Rightarrow> timestampToProto at)\<rparr>"

record pb_LedgerEntry =
  pl_Id :: string
  pl_TransferId :: string
  pl_AccountId :: string
  pl_AmountMinor :: int
  pl_Currency :: string
  pl_CreatedAt :: "int option"

definition ledgerEntryToProto :: "uuid_lib \<Rightarrow> Entry \<Rightarrow> pb_LedgerEntry" where
  "ledgerEntryToProto lib e =
     \<lparr>pl_Id = ul_String lib (e_ID e), pl_TransferId = ul_String lib (e_TransferID e),
      pl_AccountId = ul_String lib (e_AccountID e), pl_AmountMinor = e_AmountMinor e,
      pl_Currency = Currency_String (e_Currency e), pl_CreatedAt = timestampToProto (e_CreatedAt e)\<rparr>"

section \<open>Handlers\<close>

record pb_CreateTransferRequest =
  ct_IdempotencyKey :: string
  ct_SourceAccountId :: string
  ct_DestinationAccountId :: string
  ct_AmountMinor :: int
  ct_Currency :: string

record pb_CreateTransferResponse =
  cr_Transfer :: pb_Transfer
  cr_IdempotentReplay :: bool

definition CreateAccount ::
  "uuid_lib \<Rightarrow> fault \<Rightarrow> uuid \<Rightarrow> int \<Rightarrow> string \<Rightarrow> db \<Rightarrow> pb_Account result \<times> db" where
  "CreateAccount lib flt new_id now req_currency d =
     (case parseCurrency req_currency of
        Inl err \<Rightarrow> (Inl (toStatus err), d)
      | Inr currency \<Rightarrow>
          (case Account_Create flt new_id now currency d of
             (Inl err, d') \<Rightarrow> (Inl (toStatus err), d')
           | (Inr acct, d') \<Rightarrow> (Inr (accountToProto lib acct), d')))"

definition GetAccount :: "uuid_lib \<Rightarrow> go_error option \<Rightarrow> string \<Rightarrow> db \<Rightarrow> pb_Account result" where
  "GetAccount lib flt req_id d =
     (case parseUUID lib ''id'' req_id of
        Inl err \<Rightarrow> Inl (toStatus err)
      | Inr i \<Rightarrow>
          (case Account_Get flt i d of
             Inl err \<Rightarrow> Inl (toStatus err)
           | Inr acct \<Rightarrow> Inr (accountToProto lib acct)))"

definition CreateTransfer ::
  "uuid_lib \<Rightarrow> 'r Service \<Rightarrow> idem_env \<Rightarrow> pb_CreateTransferRequest \<Rightarrow> db \<Rightarrow> 'r \<Rightarrow>
   pb_CreateTransferResponse result \<times> db \<times> 'r" where
  "CreateTransfer lib s env req d r =
     (case ParseKey (ct_IdempotencyKey req) of
        Inl err \<Rightarrow> (Inl (toStatus err), d, r)
      | Inr key \<Rightarrow>
     (case parseUUID lib ''source_account_id'' (ct_SourceAccountId req) of
        Inl err \<Rightarrow> (Inl (toStatus err), d, r)
      | Inr source \<Rightarrow>
     (case parseUUID lib ''destination_account_id'' (ct_DestinationAccountId req) of
        Inl err \<Rightarrow> (Inl (toStatus err), d, r)
      | Inr destination \<Rightarrow>
     (case parseCurrency (ct_Currency req) of
        Inl err \<Rightarrow> (Inl (toStatus err), d, r)
      | Inr currency \<Rightarrow>
     if ct_AmountMinor req \<le> 0 then
       (Inl (toStatus (Errorf ''%w: amount_minor must be greater than zero, got %d''
               [AInt (ct_AmountMinor req)] [Sentinel transfer_ErrInvalidAmount])), d, r)
     else
       (case PostIdempotent s (ul_String lib) env key
               \<lparr>c_SourceAccountID = source, c_DestinationAccountID = destination,
                c_AmountMinor = ct_AmountMinor req, c_Currency = currency\<rparr> d r of
          ((result, Some err), d', r') \<Rightarrow> (Inl (toStatus err), d', r')
        | ((result, None), d', r') \<Rightarrow>
            (Inr \<lparr>cr_Transfer = transferToProto lib (rs_Transfer result),
                  cr_IdempotentReplay = rs_Replayed result\<rparr>, d', r'))))))"

definition GetTransfer :: "uuid_lib \<Rightarrow> go_error option \<Rightarrow> string \<Rightarrow> db \<Rightarrow> pb_Transfer result" where
  "GetTransfer lib flt req_id d =
     (case parseUUID lib ''id'' req_id of
        Inl err \<Rightarrow> Inl (toStatus err)
      | Inr i \<Rightarrow>
          (case Transfer_Get flt i d of
             Inl err \<Rightarrow> Inl (toStatus err)
           | Inr t \<Rightarrow> Inr (transferToProto lib t)))"

text \<open>The two reads see the states \<open>d\<close> and \<open>d'\<close>.\<close>

definition ListLedgerEntriesForTransfer ::
  "uuid_lib \<Rightarrow> go_error option \<Rightarrow> read_fault \<Rightarrow> string \<Rightarrow> db \<Rightarrow> db \<Rightarrow> pb_LedgerEntry list result" where
  "ListLedgerEntriesForTransfer lib flt flt2 req_id d d' =
     (case parseUUID lib ''transfer_id'' req_id of
        Inl err \<Rightarrow> Inl (toStatus err)
      | Inr transferID \<Rightarrow>
          (case Transfer_Get flt transferID d of
             Inl err \<Rightarrow> Inl (toStatus err)
           | Inr _ \<Rightarrow>
               (case EntriesForTransfer flt2 transferID d' of
                  Inl err \<Rightarrow> Inl (toStatus err)
                | Inr found \<Rightarrow> Inr (map (ledgerEntryToProto lib) found))))"

section \<open>Facts\<close>

lemma parseUUID_Inr: "parseUUID lib field raw = Inr i \<Longrightarrow> ul_Parse lib raw = Inr i \<and> i \<noteq> uuid_Nil"
  by (auto simp: parseUUID_def split: if_splits sum.splits)

lemma parseUUID_Inl: "parseUUID lib field raw = Inl err \<Longrightarrow> errors_is err grpcapi_ErrInvalidRequest"
  by (auto simp: parseUUID_def split: if_splits sum.splits)

text \<open>A request the transport accepts, with the key and the command it turns into.\<close>

definition request_ok :: "uuid_lib \<Rightarrow> pb_CreateTransferRequest \<Rightarrow> Key \<Rightarrow> Command \<Rightarrow> bool" where
  "request_ok lib req key cmd \<longleftrightarrow>
     ParseKey (ct_IdempotencyKey req) = Inr key
     \<and> parseUUID lib ''source_account_id'' (ct_SourceAccountId req) = Inr (c_SourceAccountID cmd)
     \<and> parseUUID lib ''destination_account_id'' (ct_DestinationAccountId req) = Inr (c_DestinationAccountID cmd)
     \<and> ParseCurrency (ct_Currency req) = Inr (c_Currency cmd)
     \<and> c_AmountMinor cmd = ct_AmountMinor req \<and> 0 < ct_AmountMinor req"

definition request_bad :: "uuid_lib \<Rightarrow> pb_CreateTransferRequest \<Rightarrow> bool" where
  "request_bad lib req \<longleftrightarrow>
     isl (ParseKey (ct_IdempotencyKey req))
     \<or> isl (parseUUID lib ''source_account_id'' (ct_SourceAccountId req))
     \<or> isl (parseUUID lib ''destination_account_id'' (ct_DestinationAccountId req))
     \<or> isl (ParseCurrency (ct_Currency req)) \<or> ct_AmountMinor req \<le> 0"

lemma request_cases: "request_bad lib req \<or> (\<exists>key cmd. request_ok lib req key cmd)"
proof (cases "request_bad lib req")
  case False
  then obtain key a b c where parts: "ParseKey (ct_IdempotencyKey req) = Inr key"
      "parseUUID lib ''source_account_id'' (ct_SourceAccountId req) = Inr a"
      "parseUUID lib ''destination_account_id'' (ct_DestinationAccountId req) = Inr b"
      "ParseCurrency (ct_Currency req) = Inr c" "0 < ct_AmountMinor req"
    unfolding request_bad_def de_Morgan_disj not_le by (metis sum.collapse(2))
  then have "request_ok lib req key \<lparr>c_SourceAccountID = a, c_DestinationAccountID = b,
      c_AmountMinor = ct_AmountMinor req, c_Currency = c\<rparr>"
    by (simp add: request_ok_def)
  then show ?thesis by blast
qed simp

lemma CreateTransfer_ok:
  assumes "request_ok lib req key cmd"
  shows "CreateTransfer lib s env req d r =
    (case PostIdempotent s (ul_String lib) env key cmd d r of
       ((result, Some err), d', r') \<Rightarrow> (Inl (toStatus err), d', r')
     | ((result, None), d', r') \<Rightarrow>
         (Inr \<lparr>cr_Transfer = transferToProto lib (rs_Transfer result), cr_IdempotentReplay = rs_Replayed result\<rparr>, d', r'))"
proof -
  have eq: "\<lparr>c_SourceAccountID = c_SourceAccountID cmd, c_DestinationAccountID = c_DestinationAccountID cmd,
      c_AmountMinor = ct_AmountMinor req, c_Currency = c_Currency cmd\<rparr> = cmd"
    using assms by (simp add: request_ok_def)
  show ?thesis
    using assms
    by (simp add: CreateTransfer_def request_ok_def parseCurrency_def eq split: prod.split option.split)
qed

lemma CreateTransfer_bad:
  assumes "request_bad lib req"
  shows "\<exists>msg. CreateTransfer lib s env req d r = (Inl (StatusError InvalidArgument msg), d, r)"
proof -
  have key: "\<exists>msg. toStatus err = StatusError InvalidArgument msg" if "ParseKey k = Inl err" for err k
    using that by (auto simp: ParseKey_def toStatus_def split: if_splits)
  have uid: "\<exists>msg. toStatus err = StatusError InvalidArgument msg" if "parseUUID lib field raw = Inl err" for err field raw
    using that by (auto simp: parseUUID_def toStatus_def split: if_splits sum.splits)
  have cur: "\<exists>msg. toStatus err = StatusError InvalidArgument msg" if "ParseCurrency c = Inl err" for err c
    using that by (auto simp: ParseCurrency_def Currency_Validate_def toStatus_def split: if_splits option.splits)
  have amount: "\<exists>msg. toStatus (Errorf f as [Sentinel transfer_ErrInvalidAmount]) = StatusError InvalidArgument msg" for f as
    by (simp add: toStatus_def)
  show ?thesis
    using assms amount
    by (auto simp: CreateTransfer_def request_bad_def parseCurrency_def split: sum.split dest: key uid cur)
qed

lemma CreateTransfer_Inr:
  assumes "CreateTransfer lib s env req d r = (Inr resp, d', r')"
  shows "\<exists>key cmd result. request_ok lib req key cmd
    \<and> PostIdempotent s (ul_String lib) env key cmd d r = ((result, None), d', r')
    \<and> resp = \<lparr>cr_Transfer = transferToProto lib (rs_Transfer result), cr_IdempotentReplay = rs_Replayed result\<rparr>"
proof -
  have "\<not> request_bad lib req" using CreateTransfer_bad [of lib req s env d r] assms by auto
  then obtain key cmd where ok: "request_ok lib req key cmd" using request_cases by blast
  with assms show ?thesis
    by (auto simp: CreateTransfer_ok [OF ok] split: prod.splits option.splits)
qed

section \<open>Properties\<close>

text \<open>C25: A CreateTransfer request that fails the transport's own validation (key, account ids, currency,
  amount) is INVALID_ARGUMENT and reaches neither PostgreSQL nor Redis.\<close>

theorem CreateTransfer_invalid:
  "if request_bad lib req
   then \<exists>msg. CreateTransfer lib s env req d r = (Inl (StatusError InvalidArgument msg), d, r)
   else \<exists>key cmd. request_ok lib req key cmd"
  using CreateTransfer_bad [of lib req s env d r] request_cases [of lib req] by auto

end
