(* ===== verification/Health.thy ===== *)
theory Health
  imports Prelude "HOL-Library.AList" "HOL-Library.Multiset" "HOL-Library.Char_ord" "HOL-Library.List_Lexorder"
begin

text \<open>
  The health registry (\<^verbatim>\<open>src/internal/health/health.go\<close>).  A check is a function of the state of
  the world that passes, fails or panics.  \<^verbatim>\<open>Check\<close> runs the checks concurrently; the model takes
  the order in which they finish and enter their result under the mutex as an argument.  The Go
  map of results is an association list, the time each check takes is an argument.
\<close>

section \<open>Registry\<close>

datatype HealthStatus = StatusHealthy | StatusUnhealthy

datatype outcome = Passes | Fails string | Panics string

record HealthResult =
  hr_Status :: HealthStatus
  hr_Error :: string
  hr_Required :: bool
  hr_Duration :: int
  hr_LatencyMS :: int

record HealthReport =
  ht_Status :: HealthStatus
  ht_Degraded :: bool
  ht_Checks :: "(string \<times> HealthResult) list"

record 'w check =
  ck_name :: string
  ck_fn :: "'w \<Rightarrow> outcome"
  ck_required :: bool

record 'w Registry =
  rg_timeout :: int
  rg_checks :: "'w check list"

definition DefaultTimeout :: int where "DefaultTimeout = 2 * 1000000000"

definition Registry_New :: "int \<Rightarrow> 'w Registry" where
  "Registry_New timeout = \<lparr>rg_timeout = (if timeout \<le> 0 then DefaultTimeout else timeout), rg_checks = []\<rparr>"

fun set_check :: "'w check \<Rightarrow> 'w check list \<Rightarrow> 'w check list" where
  "set_check c [] = [c]"
| "set_check c (x # xs) =
     (if ck_name x = ck_name c then x\<lparr>ck_fn := ck_fn c, ck_required := ck_required c\<rparr> # xs
      else x # set_check c xs)"

text \<open>\<open>None\<close> is the panic on a nil check function.\<close>

definition register :: "string \<Rightarrow> ('w \<Rightarrow> outcome) option \<Rightarrow> bool \<Rightarrow> 'w Registry \<Rightarrow> 'w Registry option" where
  "register name fn required r =
     (case fn of None \<Rightarrow> None
      | Some f \<Rightarrow> Some (r\<lparr>rg_checks := set_check \<lparr>ck_name = name, ck_fn = f, ck_required = required\<rparr> (rg_checks r)\<rparr>))"

definition Register :: "string \<Rightarrow> ('w \<Rightarrow> outcome) option \<Rightarrow> 'w Registry \<Rightarrow> 'w Registry option" where
  "Register name fn r = register name fn True r"

definition RegisterOptional :: "string \<Rightarrow> ('w \<Rightarrow> outcome) option \<Rightarrow> 'w Registry \<Rightarrow> 'w Registry option" where
  "RegisterOptional name fn r = register name fn False r"

definition Names :: "'w Registry \<Rightarrow> string list" where
  "Names r = map ck_name (rg_checks r)"

definition Len :: "'w Registry \<Rightarrow> nat" where
  "Len r = length (rg_checks r)"

section \<open>Running the checks\<close>

definition safeRun :: "('w \<Rightarrow> outcome) \<Rightarrow> 'w \<Rightarrow> string option" where
  "safeRun fn w = (case fn w of Passes \<Rightarrow> None | Fails msg \<Rightarrow> Some msg | Panics v \<Rightarrow> Some (''check panicked: '' @ v))"

definition run_check :: "(string \<Rightarrow> int) \<Rightarrow> 'w \<Rightarrow> 'w check \<Rightarrow> HealthResult" where
  "run_check elapsed w c =
     (let res = \<lparr>hr_Status = StatusHealthy, hr_Error = '''', hr_Required = ck_required c,
                 hr_Duration = elapsed (ck_name c), hr_LatencyMS = elapsed (ck_name c) div 1000000\<rparr> in
      case safeRun (ck_fn c) w of
        None \<Rightarrow> res
      | Some err \<Rightarrow> res\<lparr>hr_Status := StatusUnhealthy, hr_Error := err\<rparr>)"

fun aggregate :: "(string \<times> HealthResult) list \<Rightarrow> HealthReport \<Rightarrow> HealthReport" where
  "aggregate [] report = report"
| "aggregate ((name, res) # rest) report =
     aggregate rest
       (if hr_Status res = StatusHealthy then report
        else if hr_Required res then report\<lparr>ht_Status := StatusUnhealthy\<rparr>
        else report\<lparr>ht_Degraded := True\<rparr>)"

text \<open>\<open>order\<close> is the order in which the goroutines of the snapshot finish.\<close>

definition Registry_Check :: "(string \<Rightarrow> int) \<Rightarrow> 'w \<Rightarrow> 'w check list \<Rightarrow> 'w Registry \<Rightarrow> HealthReport" where
  "Registry_Check elapsed w order r =
     (let report = \<lparr>ht_Status = StatusHealthy, ht_Degraded = False, ht_Checks = []\<rparr> in
      if rg_checks r = [] then report
      else
        (let results = fold (\<lambda>c. AList.update (ck_name c) (run_check elapsed w c)) order [] in
         aggregate results (report\<lparr>ht_Checks := results\<rparr>)))"

definition HealthReport_Healthy :: "HealthReport \<Rightarrow> bool" where
  "HealthReport_Healthy r \<longleftrightarrow> ht_Status r = StatusHealthy"

definition Failed :: "HealthReport \<Rightarrow> string list" where
  "Failed r = sort (map fst (filter (\<lambda>(name, res). hr_Status res \<noteq> StatusHealthy) (ht_Checks r)))"

definition FailedRequired :: "HealthReport \<Rightarrow> string list" where
  "FailedRequired r =
     sort (map fst (filter (\<lambda>(name, res). hr_Status res \<noteq> StatusHealthy \<and> hr_Required res) (ht_Checks r)))"

section \<open>Facts\<close>

lemma sort_Nil_iff: "sort xs = [] \<longleftrightarrow> xs = []"
  by (metis length_0_conv length_sort)

lemma aggregate_eq:
  "aggregate results report =
     report\<lparr>ht_Status := (if \<exists>x \<in> set results. hr_Status (snd x) \<noteq> StatusHealthy \<and> hr_Required (snd x)
                          then StatusUnhealthy else ht_Status report),
            ht_Degraded := (ht_Degraded report
              \<or> (\<exists>x \<in> set results. hr_Status (snd x) \<noteq> StatusHealthy \<and> \<not> hr_Required (snd x)))\<rparr>"
  by (induction results report rule: aggregate.induct) auto

lemma update_results:
  "distinct (map ck_name cs) \<Longrightarrow> (\<forall>c \<in> set cs. ck_name c \<notin> fst ` set acc) \<Longrightarrow>
     fold (\<lambda>c. AList.update (ck_name c) (f c)) cs acc = acc @ map (\<lambda>c. (ck_name c, f c)) cs"
proof (induction cs arbitrary: acc)
  case Nil
  then show ?case by simp
next
  case (Cons c cs)
  have "AList.update k v acc = acc @ [(k, v)]" if "k \<notin> fst ` set acc" for k v
    using that by (induction acc) auto
  then have "AList.update (ck_name c) (f c) acc = acc @ [(ck_name c, f c)]" using Cons.prems by simp
  moreover have "\<forall>c' \<in> set cs. ck_name c' \<notin> fst ` set (acc @ [(ck_name c, f c)])"
    using Cons.prems by (auto simp: image_iff)
  ultimately show ?case using Cons.IH [of "acc @ [(ck_name c, f c)]"] Cons.prems(1) by simp
qed

lemma set_check_names: "distinct (map ck_name cs) \<Longrightarrow>
    distinct (map ck_name (set_check c cs)) \<and> set (map ck_name (set_check c cs)) = insert (ck_name c) (set (map ck_name cs))"
  by (induction cs) auto

lemma order_names:
  "mset order = mset cs \<Longrightarrow> distinct (map ck_name cs) \<Longrightarrow> distinct (map ck_name order) \<and> set order = set cs"
  by (metis mset_eq_imp_distinct_iff mset_eq_setD mset_map)

definition check_fails :: "'w \<Rightarrow> 'w check \<Rightarrow> bool" where
  "check_fails w c \<longleftrightarrow> ck_fn c w \<noteq> Passes"

lemma run_check_status [simp]:
  "hr_Status (run_check elapsed w c) = (if check_fails w c then StatusUnhealthy else StatusHealthy)"
  "hr_Required (run_check elapsed w c) = ck_required c"
  by (auto simp: run_check_def safeRun_def check_fails_def Let_def split: outcome.splits)

lemma Check_eq:
  assumes "distinct (Names r)" and "mset order = mset (rg_checks r)"
  shows "Registry_Check elapsed w order r =
    \<lparr>ht_Status = (if \<exists>c \<in> set (rg_checks r). check_fails w c \<and> ck_required c then StatusUnhealthy else StatusHealthy),
     ht_Degraded = (\<exists>c \<in> set (rg_checks r). check_fails w c \<and> \<not> ck_required c),
     ht_Checks = map (\<lambda>c. (ck_name c, run_check elapsed w c)) order\<rparr>"
proof (cases "rg_checks r = []")
  case True
  with assms(2) show ?thesis by (simp add: Registry_Check_def)
next
  case False
  have "distinct (map ck_name order)" "set order = set (rg_checks r)"
    using order_names [OF assms(2)] assms(1) by (simp_all add: Names_def)
  with False update_results [of order "[]" "run_check elapsed w"] show ?thesis
    by (auto simp: Registry_Check_def aggregate_eq Let_def)
qed

section \<open>Properties\<close>

text \<open>Registration keeps the names of the checks distinct, and registering a name again replaces its
  check instead of adding one.\<close>

theorem register_distinct:
  assumes "distinct (Names r)" and "register name fn required r = Some r'"
  shows "distinct (Names r') \<and> set (Names r') = insert name (set (Names r))
    \<and> Len r' = (if name \<in> set (Names r) then Len r else Len r + 1)"
proof -
  obtain f where f: "r' = r\<lparr>rg_checks := set_check \<lparr>ck_name = name, ck_fn = f, ck_required = required\<rparr> (rg_checks r)\<rparr>"
    using assms(2) by (auto simp: register_def split: option.splits)
  have "length (set_check c cs) = (if ck_name c \<in> set (map ck_name cs) then length cs else length cs + 1)" for c :: "'a check" and cs
    by (induction cs) auto
  then show ?thesis
    using assms(1) set_check_names [of "rg_checks r" "\<lparr>ck_name = name, ck_fn = f, ck_required = required\<rparr>"]
    by (simp add: f Names_def Len_def)
qed

theorem register_distinct_witness:
  "\<exists>r1 r2. register ''redis'' (Some (\<lambda>w. Passes)) True (Registry_New 0 :: unit Registry) = Some r1
     \<and> register ''redis'' (Some (\<lambda>w. Fails ''down'')) False r1 = Some r2 \<and> Len r2 = 1"
proof -
  let ?r1 = "\<lparr>rg_timeout = DefaultTimeout, rg_checks = [\<lparr>ck_name = ''redis'', ck_fn = (\<lambda>w :: unit. Passes), ck_required = True\<rparr>]\<rparr>"
  have one: "register ''redis'' (Some (\<lambda>w. Passes)) True (Registry_New 0 :: unit Registry) = Some ?r1"
    by (simp add: register_def Registry_New_def)
  obtain r2 where two: "register ''redis'' (Some (\<lambda>w. Fails ''down'')) False ?r1 = Some r2"
    by (simp add: register_def)
  have "distinct (Names ?r1)" by (simp add: Names_def)
  from register_distinct [OF this two] one two show ?thesis by (auto simp: Names_def Len_def)
qed

text \<open>C29: Readiness is decided by the required checks alone, whatever the order in which the concurrent
  checks finish: the report is healthy exactly when every required check passes, degraded exactly
  when an optional one fails, a panic counts as a failure, and every check has its entry.\<close>

theorem Check_readiness:
  assumes "distinct (Names r)" and "mset order = mset (rg_checks r)"
  shows "(HealthReport_Healthy (Registry_Check elapsed w order r) \<longleftrightarrow> (\<forall>c \<in> set (rg_checks r). ck_required c \<longrightarrow> ck_fn c w = Passes))
    \<and> (ht_Degraded (Registry_Check elapsed w order r) \<longleftrightarrow> (\<exists>c \<in> set (rg_checks r). \<not> ck_required c \<and> ck_fn c w \<noteq> Passes))
    \<and> set (map fst (ht_Checks (Registry_Check elapsed w order r))) = set (Names r)"
proof -
  have "set order = set (rg_checks r)" using assms(2) by (rule mset_eq_setD)
  then show ?thesis
    by (auto simp: Check_eq [OF assms] HealthReport_Healthy_def check_fails_def Names_def)
qed

definition sample_registry :: "unit Registry" where
  "sample_registry = \<lparr>rg_timeout = 1, rg_checks =
     [\<lparr>ck_name = ''postgres'', ck_fn = (\<lambda>w. Passes), ck_required = True\<rparr>,
      \<lparr>ck_name = ''redis'', ck_fn = (\<lambda>w. Panics ''nil''), ck_required = False\<rparr>]\<rparr>"

theorem Check_readiness_witness:
  "HealthReport_Healthy (Registry_Check (\<lambda>_. 0) () (rev (rg_checks sample_registry)) sample_registry)
   \<and> ht_Degraded (Registry_Check (\<lambda>_. 0) () (rev (rg_checks sample_registry)) sample_registry)"
proof -
  have "distinct (Names sample_registry)" by (simp add: Names_def sample_registry_def)
  from Check_readiness [OF this, of "rev (rg_checks sample_registry)" "\<lambda>_. 0" "()"] show ?thesis
    by (simp add: sample_registry_def)
qed

text \<open>The failed lists are sorted and name exactly the failing checks, in any completion order.\<close>

theorem Failed_lists:
  assumes "distinct (Names r)" and "mset order = mset (rg_checks r)"
  shows "sorted (Failed (Registry_Check elapsed w order r))
    \<and> set (Failed (Registry_Check elapsed w order r)) = {ck_name c | c. c \<in> set (rg_checks r) \<and> ck_fn c w \<noteq> Passes}
    \<and> (FailedRequired (Registry_Check elapsed w order r) = [] \<longleftrightarrow> HealthReport_Healthy (Registry_Check elapsed w order r))"
proof -
  let ?rep = "Registry_Check elapsed w order r"
  have "set order = set (rg_checks r)" using assms(2) by (rule mset_eq_setD)
  then have checks: "set (ht_Checks ?rep) = (\<lambda>c. (ck_name c, run_check elapsed w c)) ` set (rg_checks r)"
    by (simp add: Check_eq [OF assms])
  have "FailedRequired ?rep = [] \<longleftrightarrow> (\<forall>x \<in> set (ht_Checks ?rep). hr_Status (snd x) \<noteq> StatusHealthy \<longrightarrow> \<not> hr_Required (snd x))"
    by (auto simp: FailedRequired_def filter_empty_conv split_beta sort_Nil_iff)
  moreover have "HealthReport_Healthy ?rep \<longleftrightarrow> (\<forall>c \<in> set (rg_checks r). \<not> (check_fails w c \<and> ck_required c))"
    by (simp add: Check_eq [OF assms] HealthReport_Healthy_def)
  moreover have "set (Failed ?rep) = fst ` {x \<in> set (ht_Checks ?rep). hr_Status (snd x) \<noteq> StatusHealthy}"
    by (auto simp: Failed_def split_beta)
  moreover have "fst ` {x \<in> set (ht_Checks ?rep). hr_Status (snd x) \<noteq> StatusHealthy} =
      {ck_name c | c. c \<in> set (rg_checks r) \<and> ck_fn c w \<noteq> Passes}"
    unfolding checks by (force simp: check_fails_def)
  moreover have "sorted (Failed ?rep)" by (simp add: Failed_def)
  ultimately show ?thesis by (simp add: checks)
qed

theorem Failed_lists_witness:
  "Failed (Registry_Check (\<lambda>_. 0) () (rg_checks sample_registry) sample_registry) = [''redis'']
   \<and> FailedRequired (Registry_Check (\<lambda>_. 0) () (rg_checks sample_registry) sample_registry) = []"
proof -
  have d: "distinct (Names sample_registry)" by (simp add: Names_def sample_registry_def)
  have "HealthReport_Healthy (Registry_Check (\<lambda>_. 0) () (rg_checks sample_registry) sample_registry)" by code_simp
  moreover have "Failed (Registry_Check (\<lambda>_. 0) () (rg_checks sample_registry) sample_registry) = [''redis'']" by code_simp
  ultimately show ?thesis using Failed_lists [OF d refl, of "\<lambda>_. 0" "()"] by blast
qed

end
