(* ===== verification/Config.thy ===== *)
theory Config
  imports GoStrings Fingerprint
begin

text \<open>
  Configuration (\<^verbatim>\<open>src/internal/config/config.go\<close>): the typed readers of environment variables,
  \<^verbatim>\<open>load\<close> with its defaults, validation, connection strings and redaction.  Durations are
  nanoseconds.  \<^verbatim>\<open>time.ParseDuration\<close> and \<^verbatim>\<open>strings.ToLower\<close> are arguments (\<open>go_std\<close>).
\<close>

section \<open>Records\<close>

type_synonym Environment = string

definition EnvProduction :: Environment where "EnvProduction = ''production''"

definition IsProduction :: "Environment \<Rightarrow> bool" where
  "IsProduction e \<longleftrightarrow> e = EnvProduction"

record App =
  app_Name :: string
  app_Environment :: Environment
  app_LogLevel :: string
  app_LogFormat :: string

record HTTP =
  http_Host :: string
  http_Port :: int
  http_ReadTimeout :: int
  http_WriteTimeout :: int
  http_IdleTimeout :: int
  http_ShutdownTimeout :: int

record GRPC =
  grpc_Host :: string
  grpc_Port :: int
  grpc_ShutdownTimeout :: int
  grpc_Reflection :: bool

record JWT =
  jwt_PublicKeyPEM :: string
  jwt_PublicKeyFile :: string
  jwt_Issuer :: string
  jwt_Audience :: string
  jwt_Leeway :: int

record Postgres =
  pg_Host :: string
  pg_Port :: int
  pg_User :: string
  pg_Password :: string
  pg_Database :: string
  pg_SSLMode :: string
  pg_MaxOpenConns :: int
  pg_MaxIdleConns :: int
  pg_ConnMaxLifetime :: int
  pg_ConnectTimeout :: int

record Redis =
  redis_Addr :: string
  redis_Password :: string
  redis_DB :: int
  redis_DialTimeout :: int
  redis_CommandTimeout :: int

record Idempotency =
  idem_TTL :: int
  idem_ProcessingTTL :: int

record Kafka =
  kafka_Brokers :: "string list"
  kafka_AuditTopic :: string

record Config =
  cfg_App :: App
  cfg_HTTP :: HTTP
  cfg_GRPC :: GRPC
  cfg_JWT :: JWT
  cfg_Postgres :: Postgres
  cfg_Redis :: Redis
  cfg_Kafka :: Kafka
  cfg_Idempotency :: Idempotency

section \<open>Addresses and secrets\<close>

definition JoinHostPort :: "string \<Rightarrow> string \<Rightarrow> string" where
  "JoinHostPort host port =
     (if ContainsAny host [CHR '':'', CHR ''%''] then ''['' @ host @ '']:'' @ port else host @ '':'' @ port)"

definition HTTP_Addr :: "HTTP \<Rightarrow> string" where
  "HTTP_Addr h = JoinHostPort (http_Host h) (FormatInt (http_Port h))"

definition GRPC_Addr :: "GRPC \<Rightarrow> string" where
  "GRPC_Addr g = JoinHostPort (grpc_Host g) (FormatInt (grpc_Port g))"

definition JWT_Configured :: "JWT \<Rightarrow> bool" where
  "JWT_Configured j \<longleftrightarrow> jwt_PublicKeyPEM j \<noteq> '''' \<and> jwt_Issuer j \<noteq> '''' \<and> jwt_Audience j \<noteq> ''''"

definition redacted :: string where "redacted = ''[REDACTED]''"

definition dsn :: "Postgres \<Rightarrow> string \<Rightarrow> string" where
  "dsn p password =
     ''postgres://'' @ pg_User p @ '':'' @ password @ ''@''
     @ JoinHostPort (pg_Host p) (FormatInt (pg_Port p)) @ ''/'' @ pg_Database p @ ''?sslmode='' @ pg_SSLMode p"

definition DSN :: "Postgres \<Rightarrow> string" where
  "DSN p = dsn p (pg_Password p)"

definition RedactedDSN :: "Postgres \<Rightarrow> string" where
  "RedactedDSN p = dsn p redacted"

definition Redacted :: "Config \<Rightarrow> Config" where
  "Redacted c =
     (let c = (if pg_Password (cfg_Postgres c) \<noteq> ''''
               then c\<lparr>cfg_Postgres := (cfg_Postgres c)\<lparr>pg_Password := redacted\<rparr>\<rparr> else c);
          c = (if redis_Password (cfg_Redis c) \<noteq> ''''
               then c\<lparr>cfg_Redis := (cfg_Redis c)\<lparr>redis_Password := redacted\<rparr>\<rparr> else c) in
      if jwt_PublicKeyPEM (cfg_JWT c) \<noteq> ''''
      then c\<lparr>cfg_JWT := (cfg_JWT c)\<lparr>jwt_PublicKeyPEM := redacted\<rparr>\<rparr> else c)"

section \<open>Reading the environment\<close>

type_synonym lookupFunc = "string \<Rightarrow> string option"

record go_std =
  std_ToLower :: "string \<Rightarrow> string"
  std_ParseDuration :: "string \<Rightarrow> int option"

fun digits_value :: "nat \<Rightarrow> string \<Rightarrow> nat option" where
  "digits_value acc [] = Some acc"
| "digits_value acc (c # cs) =
     (let b = byte_of c in if 48 \<le> b \<and> b \<le> 57 then digits_value (acc * 10 + (b - 48)) cs else None)"

text \<open>\<^verbatim>\<open>strconv.Atoi\<close>: an optional sign, at least one digit, and a value in range.\<close>

definition Atoi :: "string \<Rightarrow> int option" where
  "Atoi s =
     (let (neg, ds) = (case s of c # cs \<Rightarrow> if c = CHR ''-'' then (True, cs) else if c = CHR ''+'' then (False, cs) else (False, s)
                       | [] \<Rightarrow> (False, s)) in
      if ds = [] then None
      else (case digits_value 0 ds of
              None \<Rightarrow> None
            | Some n \<Rightarrow> let v = (if neg then - int n else int n) in if in_int64 v then Some v else None))"

definition ParseBool :: "string \<Rightarrow> bool option" where
  "ParseBool s =
     (if s \<in> set [''1'', ''t'', ''T'', ''TRUE'', ''true'', ''True''] then Some True
      else if s \<in> set [''0'', ''f'', ''F'', ''FALSE'', ''false'', ''False''] then Some False
      else None)"

text \<open>Each reader gives its value and the errors it adds to the accumulated ones.\<close>

definition env_str :: "lookupFunc \<Rightarrow> string \<Rightarrow> string \<Rightarrow> string" where
  "env_str lookup key def = (case lookup key of Some v \<Rightarrow> v | None \<Rightarrow> def)"

definition env_value :: "(string \<Rightarrow> 'a option) \<Rightarrow> string \<Rightarrow> lookupFunc \<Rightarrow> string \<Rightarrow> 'a \<Rightarrow> 'a \<times> go_error list" where
  "env_value parse fmt lookup key def =
     (case lookup key of
        None \<Rightarrow> (def, [])
      | Some raw \<Rightarrow>
          if raw = '''' then (def, [])
          else (case parse raw of
                  None \<Rightarrow> (def, [Errorf fmt [AStr key, AStr raw] []])
                | Some v \<Rightarrow> (v, [])))"

definition env_intVal :: "lookupFunc \<Rightarrow> string \<Rightarrow> int \<Rightarrow> int \<times> go_error list" where
  "env_intVal = env_value Atoi ''%s: %q is not an integer''"

definition env_boolVal :: "lookupFunc \<Rightarrow> string \<Rightarrow> bool \<Rightarrow> bool \<times> go_error list" where
  "env_boolVal = env_value ParseBool ''%s: %q is not a boolean (true/false)''"

definition env_duration :: "go_std \<Rightarrow> lookupFunc \<Rightarrow> string \<Rightarrow> int \<Rightarrow> int \<times> go_error list" where
  "env_duration std = env_value (std_ParseDuration std) ''%s: %q is not a duration (e.g. 5s, 30m)''"

definition env_list :: "lookupFunc \<Rightarrow> string \<Rightarrow> string list \<Rightarrow> string list" where
  "env_list lookup key def =
     (case lookup key of
        None \<Rightarrow> def
      | Some raw \<Rightarrow>
          if TrimSpace raw = '''' then def
          else (let out = filter (\<lambda>p. p \<noteq> '''') (map TrimSpace (Split raw CHR '','')) in
                if out = [] then def else out))"

section \<open>Validation\<close>

definition validSSLModes :: "string list" where
  "validSSLModes = [''disable'', ''allow'', ''prefer'', ''require'', ''verify-ca'', ''verify-full'']"
definition validLogLevels :: "string list" where
  "validLogLevels = [''debug'', ''info'', ''warn'', ''error'']"
definition validLogFormats :: "string list" where
  "validLogFormats = [''json'', ''text'']"
definition validEnvironments :: "string list" where
  "validEnvironments = [''development'', ''staging'', ''production'', ''test'']"

definition fail_if :: "bool \<Rightarrow> string \<Rightarrow> fmt_arg list \<Rightarrow> go_error list" where
  "fail_if c fmt as = (if c then [Errorf fmt as []] else [])"

definition positive :: "string \<Rightarrow> int \<Rightarrow> go_error list" where
  "positive name v = fail_if (v \<le> 0) (name @ '' must be greater than zero, got %s'') [AInt v]"

text \<open>The loop over the four HTTP timeouts.\<close>

definition positive_each :: "(string \<times> int) list \<Rightarrow> go_error list" where
  "positive_each ds =
     concat (map (\<lambda>(name, v). fail_if (v \<le> 0) ''%s must be greater than zero, got %s'' [AStr name, AInt v]) ds)"

definition seconds :: "int \<Rightarrow> int" where "seconds n = n * 1000000000"

definition validate :: "Config \<Rightarrow> go_error list" where
  "validate c =
     (let app = cfg_App c; http = cfg_HTTP c; pg = cfg_Postgres c; grpc = cfg_GRPC c; jwt = cfg_JWT c;
          redis = cfg_Redis c; idem = cfg_Idempotency c; kafka = cfg_Kafka c; prod = IsProduction (app_Environment app) in
      fail_if (TrimSpace (app_Name app) = '''') ''APP_NAME must not be empty'' []
      @ fail_if (app_Environment app \<notin> set validEnvironments)
          ''APP_ENV %q must be one of development, staging, production, test'' [AStr (app_Environment app)]
      @ fail_if (app_LogLevel app \<notin> set validLogLevels)
          ''LOG_LEVEL %q must be one of debug, info, warn, error'' [AStr (app_LogLevel app)]
      @ fail_if (app_LogFormat app \<notin> set validLogFormats)
          ''LOG_FORMAT %q must be one of json, text'' [AStr (app_LogFormat app)]
      @ fail_if (http_Host http = '''') ''HTTP_HOST must not be empty'' []
      @ fail_if (http_Port http < 0 \<or> http_Port http > 65535) ''HTTP_PORT %d must be between 0 and 65535'' [AInt (http_Port http)]
      @ positive_each [(''HTTP_READ_TIMEOUT'', http_ReadTimeout http), (''HTTP_WRITE_TIMEOUT'', http_WriteTimeout http),
          (''HTTP_IDLE_TIMEOUT'', http_IdleTimeout http), (''HTTP_SHUTDOWN_TIMEOUT'', http_ShutdownTimeout http)]
      @ fail_if (pg_Host pg = '''') ''POSTGRES_HOST must not be empty'' []
      @ fail_if (pg_Port pg < 1 \<or> pg_Port pg > 65535) ''POSTGRES_PORT %d must be between 1 and 65535'' [AInt (pg_Port pg)]
      @ fail_if (pg_User pg = '''') ''POSTGRES_USER must not be empty'' []
      @ fail_if (pg_Database pg = '''') ''POSTGRES_DB must not be empty'' []
      @ fail_if (pg_SSLMode pg \<notin> set validSSLModes) ''POSTGRES_SSLMODE %q is not a valid libpq sslmode'' [AStr (pg_SSLMode pg)]
      @ fail_if (pg_MaxOpenConns pg < 1) ''POSTGRES_MAX_OPEN_CONNS %d must be at least 1'' [AInt (pg_MaxOpenConns pg)]
      @ fail_if (pg_MaxIdleConns pg < 0) ''POSTGRES_MAX_IDLE_CONNS %d must not be negative'' [AInt (pg_MaxIdleConns pg)]
      @ fail_if (pg_MaxIdleConns pg > pg_MaxOpenConns pg) ''POSTGRES_MAX_IDLE_CONNS %d must not exceed POSTGRES_MAX_OPEN_CONNS %d''
          [AInt (pg_MaxIdleConns pg), AInt (pg_MaxOpenConns pg)]
      @ fail_if (pg_ConnMaxLifetime pg < 0) ''POSTGRES_CONN_MAX_LIFETIME must not be negative, got %s'' [AInt (pg_ConnMaxLifetime pg)]
      @ positive ''POSTGRES_CONNECT_TIMEOUT'' (pg_ConnectTimeout pg)
      @ fail_if (prod \<and> pg_SSLMode pg = ''disable'') ''POSTGRES_SSLMODE must not be 'disable' when APP_ENV is production'' []
      @ fail_if (grpc_Host grpc = '''') ''GRPC_HOST must not be empty'' []
      @ fail_if (grpc_Port grpc < 0 \<or> grpc_Port grpc > 65535) ''GRPC_PORT %d must be between 0 and 65535'' [AInt (grpc_Port grpc)]
      @ fail_if (grpc_Port grpc \<noteq> 0 \<and> grpc_Port grpc = http_Port http)
          ''GRPC_PORT and HTTP_PORT are both %d; the two servers cannot share a port'' [AInt (grpc_Port grpc)]
      @ positive ''GRPC_SHUTDOWN_TIMEOUT'' (grpc_ShutdownTimeout grpc)
      @ fail_if (jwt_Leeway jwt < 0) ''JWT_LEEWAY must not be negative, got %s'' [AInt (jwt_Leeway jwt)]
      @ fail_if (jwt_Leeway jwt > seconds 300)
          ''JWT_LEEWAY %s is too generous; it is a window in which expired tokens are accepted'' [AInt (jwt_Leeway jwt)]
      @ fail_if (jwt_PublicKeyPEM jwt \<noteq> '''' \<and> jwt_PublicKeyFile jwt \<noteq> '''')
          ''set JWT_PUBLIC_KEY or JWT_PUBLIC_KEY_FILE, not both'' []
      @ fail_if (prod \<and> jwt_Issuer jwt = '''') ''JWT_ISSUER is required when APP_ENV is production'' []
      @ fail_if (prod \<and> jwt_Audience jwt = '''') ''JWT_AUDIENCE is required when APP_ENV is production'' []
      @ fail_if (prod \<and> jwt_PublicKeyPEM jwt = '''' \<and> jwt_PublicKeyFile jwt = '''')
          ''JWT_PUBLIC_KEY or JWT_PUBLIC_KEY_FILE is required when APP_ENV is production'' []
      @ fail_if (prod \<and> grpc_Reflection grpc) ''GRPC_REFLECTION must not be enabled when APP_ENV is production'' []
      @ fail_if (redis_Addr redis = '''') ''REDIS_ADDR must not be empty'' []
      @ fail_if (redis_DB redis < 0) ''REDIS_DB %d must not be negative'' [AInt (redis_DB redis)]
      @ positive ''REDIS_DIAL_TIMEOUT'' (redis_DialTimeout redis)
      @ positive ''REDIS_COMMAND_TIMEOUT'' (redis_CommandTimeout redis)
      @ positive ''IDEMPOTENCY_TTL'' (idem_TTL idem)
      @ positive ''IDEMPOTENCY_PROCESSING_TTL'' (idem_ProcessingTTL idem)
      @ fail_if (idem_ProcessingTTL idem > idem_TTL idem) ''IDEMPOTENCY_PROCESSING_TTL %s must not exceed IDEMPOTENCY_TTL %s''
          [AInt (idem_ProcessingTTL idem), AInt (idem_TTL idem)]
      @ fail_if (kafka_Brokers kafka = []) ''KAFKA_BROKERS must list at least one broker'' []
      @ fail_if (kafka_AuditTopic kafka = '''') ''KAFKA_AUDIT_TOPIC must not be empty'' [])"

section \<open>Loading\<close>

definition read_http :: "go_std \<Rightarrow> lookupFunc \<Rightarrow> HTTP \<times> go_error list" where
  "read_http std lookup =
     (let port = env_intVal lookup ''HTTP_PORT'' 8080;
          rd = env_duration std lookup ''HTTP_READ_TIMEOUT'' (seconds 5);
          wr = env_duration std lookup ''HTTP_WRITE_TIMEOUT'' (seconds 10);
          idle = env_duration std lookup ''HTTP_IDLE_TIMEOUT'' (seconds 60);
          sd = env_duration std lookup ''HTTP_SHUTDOWN_TIMEOUT'' (seconds 15) in
      (\<lparr>http_Host = env_str lookup ''HTTP_HOST'' ''0.0.0.0'', http_Port = fst port, http_ReadTimeout = fst rd,
        http_WriteTimeout = fst wr, http_IdleTimeout = fst idle, http_ShutdownTimeout = fst sd\<rparr>,
       snd port @ snd rd @ snd wr @ snd idle @ snd sd))"

definition read_grpc :: "go_std \<Rightarrow> lookupFunc \<Rightarrow> bool \<Rightarrow> GRPC \<times> go_error list" where
  "read_grpc std lookup isProduction =
     (let port = env_intVal lookup ''GRPC_PORT'' 9090;
          sd = env_duration std lookup ''GRPC_SHUTDOWN_TIMEOUT'' (seconds 15);
          refl = env_boolVal lookup ''GRPC_REFLECTION'' (\<not> isProduction) in
      (\<lparr>grpc_Host = env_str lookup ''GRPC_HOST'' ''0.0.0.0'', grpc_Port = fst port, grpc_ShutdownTimeout = fst sd,
        grpc_Reflection = fst refl\<rparr>,
       snd port @ snd sd @ snd refl))"

definition read_jwt :: "go_std \<Rightarrow> lookupFunc \<Rightarrow> JWT \<times> go_error list" where
  "read_jwt std lookup =
     (let leeway = env_duration std lookup ''JWT_LEEWAY'' (seconds 30) in
      (\<lparr>jwt_PublicKeyPEM = env_str lookup ''JWT_PUBLIC_KEY'' '''', jwt_PublicKeyFile = env_str lookup ''JWT_PUBLIC_KEY_FILE'' '''',
        jwt_Issuer = env_str lookup ''JWT_ISSUER'' '''', jwt_Audience = env_str lookup ''JWT_AUDIENCE'' '''',
        jwt_Leeway = fst leeway\<rparr>, snd leeway))"

definition read_postgres :: "go_std \<Rightarrow> lookupFunc \<Rightarrow> Postgres \<times> go_error list" where
  "read_postgres std lookup =
     (let port = env_intVal lookup ''POSTGRES_PORT'' 5432;
          mo = env_intVal lookup ''POSTGRES_MAX_OPEN_CONNS'' 25;
          mi = env_intVal lookup ''POSTGRES_MAX_IDLE_CONNS'' 25;
          life = env_duration std lookup ''POSTGRES_CONN_MAX_LIFETIME'' (seconds 1800);
          ct = env_duration std lookup ''POSTGRES_CONNECT_TIMEOUT'' (seconds 10) in
      (\<lparr>pg_Host = env_str lookup ''POSTGRES_HOST'' ''localhost'', pg_Port = fst port,
        pg_User = env_str lookup ''POSTGRES_USER'' ''ledger'', pg_Password = env_str lookup ''POSTGRES_PASSWORD'' ''ledger'',
        pg_Database = env_str lookup ''POSTGRES_DB'' ''ledger'', pg_SSLMode = env_str lookup ''POSTGRES_SSLMODE'' ''disable'',
        pg_MaxOpenConns = fst mo, pg_MaxIdleConns = fst mi, pg_ConnMaxLifetime = fst life, pg_ConnectTimeout = fst ct\<rparr>,
       snd port @ snd mo @ snd mi @ snd life @ snd ct))"

definition read_redis :: "go_std \<Rightarrow> lookupFunc \<Rightarrow> Redis \<times> go_error list" where
  "read_redis std lookup =
     (let dbn = env_intVal lookup ''REDIS_DB'' 0;
          dial = env_duration std lookup ''REDIS_DIAL_TIMEOUT'' (seconds 3);
          cmd = env_duration std lookup ''REDIS_COMMAND_TIMEOUT'' (seconds 1) in
      (\<lparr>redis_Addr = env_str lookup ''REDIS_ADDR'' ''localhost:6379'', redis_Password = env_str lookup ''REDIS_PASSWORD'' '''',
        redis_DB = fst dbn, redis_DialTimeout = fst dial, redis_CommandTimeout = fst cmd\<rparr>,
       snd dbn @ snd dial @ snd cmd))"

definition read_idempotency :: "go_std \<Rightarrow> lookupFunc \<Rightarrow> Idempotency \<times> go_error list" where
  "read_idempotency std lookup =
     (let ttl = env_duration std lookup ''IDEMPOTENCY_TTL'' (seconds 86400);
          pttl = env_duration std lookup ''IDEMPOTENCY_PROCESSING_TTL'' (seconds 30) in
      (\<lparr>idem_TTL = fst ttl, idem_ProcessingTTL = fst pttl\<rparr>, snd ttl @ snd pttl))"

definition load :: "go_std \<Rightarrow> lookupFunc \<Rightarrow> Config result" where
  "load std lookup =
     (let isProduction = IsProduction (env_str lookup ''APP_ENV'' ''development'');
          http = read_http std lookup; grpc = read_grpc std lookup isProduction; jwt = read_jwt std lookup;
          pg = read_postgres std lookup; redis = read_redis std lookup; idem = read_idempotency std lookup;
          cfg = \<lparr>cfg_App = \<lparr>app_Name = env_str lookup ''APP_NAME'' ''payments-ledger'',
                            app_Environment = env_str lookup ''APP_ENV'' ''development'',
                            app_LogLevel = std_ToLower std (env_str lookup ''LOG_LEVEL'' ''info''),
                            app_LogFormat = std_ToLower std (env_str lookup ''LOG_FORMAT'' ''json'')\<rparr>,
                 cfg_HTTP = fst http, cfg_GRPC = fst grpc, cfg_JWT = fst jwt, cfg_Postgres = fst pg,
                 cfg_Redis = fst redis,
                 cfg_Kafka = \<lparr>kafka_Brokers = env_list lookup ''KAFKA_BROKERS'' [''localhost:29092''],
                              kafka_AuditTopic = env_str lookup ''KAFKA_AUDIT_TOPIC'' ''ledger.audit.v1''\<rparr>,
                 cfg_Idempotency = fst idem\<rparr>;
          problems = (snd http @ snd grpc @ snd jwt @ snd pg @ snd redis @ snd idem) @ validate cfg in
      if length problems > 0 then Inl (Errorf ''invalid configuration: %w'' [] [Errorf '''' [] problems])
      else Inr cfg)"

section \<open>Facts\<close>

lemma fail_if_Nil [simp]: "fail_if c fmt as = [] \<longleftrightarrow> \<not> c"
  by (simp add: fail_if_def)

lemma positive_Nil [simp]: "positive name v = [] \<longleftrightarrow> 0 < v"
  by (auto simp: positive_def)

lemma positive_each_Nil [simp]: "positive_each ds = [] \<longleftrightarrow> list_all (\<lambda>d. 0 < snd d) ds"
  by (auto simp: positive_each_def list_all_iff)

lemma load_Inr: "load std lookup = Inr cfg \<Longrightarrow> validate cfg = []"
  by (simp add: load_def Let_def split: if_splits)

section \<open>Properties\<close>

text \<open>C30: A configuration that loads in production is closed: TLS to PostgreSQL is not disabled, issuer,
  audience and a verification key are set, and server reflection is off.\<close>

theorem load_production_safe:
  assumes "load std lookup = Inr cfg" and "IsProduction (app_Environment (cfg_App cfg))"
  shows "pg_SSLMode (cfg_Postgres cfg) \<noteq> ''disable'' \<and> jwt_Issuer (cfg_JWT cfg) \<noteq> '''' \<and> jwt_Audience (cfg_JWT cfg) \<noteq> ''''
    \<and> (jwt_PublicKeyPEM (cfg_JWT cfg) \<noteq> '''' \<or> jwt_PublicKeyFile (cfg_JWT cfg) \<noteq> '''') \<and> \<not> grpc_Reflection (cfg_GRPC cfg)"
  using load_Inr [OF assms(1)] assms(2) by (simp add: validate_def Let_def)

definition sample_std :: go_std where
  "sample_std = \<lparr>std_ToLower = map ascii_lower, std_ParseDuration = (\<lambda>s. None)\<rparr>"

definition production_env :: lookupFunc where
  "production_env = map_of [(''APP_ENV'', ''production''), (''APP_NAME'', ''p''), (''POSTGRES_SSLMODE'', ''require''),
     (''JWT_ISSUER'', ''i''), (''JWT_AUDIENCE'', ''a''), (''JWT_PUBLIC_KEY_FILE'', ''k'')]"

definition sample_config :: Config where
  "sample_config = projr (load sample_std production_env)"

lemma load_sample: "\<exists>cfg. load sample_std production_env = Inr cfg \<and> IsProduction (app_Environment (cfg_App cfg))"
proof -
  have "case load sample_std production_env of Inr cfg \<Rightarrow> IsProduction (app_Environment (cfg_App cfg)) | Inl _ \<Rightarrow> False"
    by code_simp
  then show ?thesis by (auto split: sum.splits)
qed

theorem load_production_safe_witness:
  "\<exists>cfg. load sample_std production_env = Inr cfg \<and> pg_SSLMode (cfg_Postgres cfg) \<noteq> ''disable'' \<and> \<not> grpc_Reflection (cfg_GRPC cfg)"
proof -
  obtain cfg where cfg: "load sample_std production_env = Inr cfg" "IsProduction (app_Environment (cfg_App cfg))"
    using load_sample by blast
  from load_production_safe [OF this] cfg(1) show ?thesis by blast
qed

text \<open>
  The configurations the service can run with, and those fit for production, section by section, in
  terms of what each setting has to satisfy.
\<close>

definition usable_app :: "App \<Rightarrow> bool" where
  "usable_app a \<longleftrightarrow> TrimSpace (app_Name a) \<noteq> '''' \<and> app_Environment a \<in> {''development'', ''staging'', ''production'', ''test''}
     \<and> app_LogLevel a \<in> {''debug'', ''info'', ''warn'', ''error''} \<and> app_LogFormat a \<in> {''json'', ''text''}"

definition usable_http :: "HTTP \<Rightarrow> bool" where
  "usable_http h \<longleftrightarrow> http_Host h \<noteq> '''' \<and> http_Port h \<in> {0..65535} \<and> 0 < http_ReadTimeout h \<and> 0 < http_WriteTimeout h
     \<and> 0 < http_IdleTimeout h \<and> 0 < http_ShutdownTimeout h"

definition usable_grpc :: "GRPC \<Rightarrow> bool" where
  "usable_grpc g \<longleftrightarrow> grpc_Host g \<noteq> '''' \<and> grpc_Port g \<in> {0..65535} \<and> 0 < grpc_ShutdownTimeout g"

definition usable_jwt :: "JWT \<Rightarrow> bool" where
  "usable_jwt j \<longleftrightarrow> 0 \<le> jwt_Leeway j \<and> jwt_Leeway j \<le> seconds 300 \<and> (jwt_PublicKeyPEM j = '''' \<or> jwt_PublicKeyFile j = '''')"

definition usable_postgres :: "Postgres \<Rightarrow> bool" where
  "usable_postgres p \<longleftrightarrow> pg_Host p \<noteq> '''' \<and> pg_Port p \<in> {1..65535} \<and> pg_User p \<noteq> '''' \<and> pg_Database p \<noteq> ''''
     \<and> pg_SSLMode p \<in> {''disable'', ''allow'', ''prefer'', ''require'', ''verify-ca'', ''verify-full''}
     \<and> 1 \<le> pg_MaxOpenConns p \<and> pg_MaxIdleConns p \<in> {0..pg_MaxOpenConns p} \<and> 0 \<le> pg_ConnMaxLifetime p \<and> 0 < pg_ConnectTimeout p"

definition usable_redis :: "Redis \<Rightarrow> bool" where
  "usable_redis r \<longleftrightarrow> redis_Addr r \<noteq> '''' \<and> 0 \<le> redis_DB r \<and> 0 < redis_DialTimeout r \<and> 0 < redis_CommandTimeout r"

definition usable_config :: "Config \<Rightarrow> bool" where
  "usable_config c \<longleftrightarrow> usable_app (cfg_App c) \<and> usable_http (cfg_HTTP c) \<and> usable_grpc (cfg_GRPC c) \<and> usable_jwt (cfg_JWT c)
     \<and> usable_postgres (cfg_Postgres c) \<and> usable_redis (cfg_Redis c)
     \<and> (grpc_Port (cfg_GRPC c) = 0 \<or> grpc_Port (cfg_GRPC c) \<noteq> http_Port (cfg_HTTP c))
     \<and> 0 < idem_TTL (cfg_Idempotency c) \<and> 0 < idem_ProcessingTTL (cfg_Idempotency c)
     \<and> idem_ProcessingTTL (cfg_Idempotency c) \<le> idem_TTL (cfg_Idempotency c)
     \<and> kafka_Brokers (cfg_Kafka c) \<noteq> [] \<and> kafka_AuditTopic (cfg_Kafka c) \<noteq> ''''"

definition hardened_config :: "Config \<Rightarrow> bool" where
  "hardened_config c \<longleftrightarrow> pg_SSLMode (cfg_Postgres c) \<noteq> ''disable'' \<and> jwt_Issuer (cfg_JWT c) \<noteq> '''' \<and> jwt_Audience (cfg_JWT c) \<noteq> ''''
     \<and> (jwt_PublicKeyPEM (cfg_JWT c) \<noteq> '''' \<or> jwt_PublicKeyFile (cfg_JWT c) \<noteq> '''') \<and> \<not> grpc_Reflection (cfg_GRPC c)"

lemmas usable_defs = usable_config_def usable_app_def usable_http_def usable_grpc_def usable_jwt_def usable_postgres_def
  usable_redis_def hardened_config_def

lemma validate_Nil:
  "validate c = [] \<longleftrightarrow> usable_config c \<and> (\<not> IsProduction (app_Environment (cfg_App c)) \<or> hardened_config c)"
proof -
  have sets: "{''development'', ''staging'', ''production'', ''test''} = set validEnvironments"
      "{''debug'', ''info'', ''warn'', ''error''} = set validLogLevels" "{''json'', ''text''} = set validLogFormats"
      "{''disable'', ''allow'', ''prefer'', ''require'', ''verify-ca'', ''verify-full''} = set validSSLModes"
    by (simp_all add: validEnvironments_def validLogLevels_def validLogFormats_def validSSLModes_def)
  show ?thesis
    unfolding validate_def Let_def usable_defs sets append_is_Nil_conv fail_if_Nil positive_Nil positive_each_Nil
      atLeastAtMost_iff list.pred_inject snd_conv not_less de_Morgan_disj de_Morgan_conj not_not
    by (cases "IsProduction (app_Environment (cfg_App c))") (simp_all only: simp_thms list.pred_inject, blast+)
qed

text \<open>Every section keeps the variables apart: no reader fails exactly when every variable it reads is unset,
  empty or well formed.\<close>

definition well_formed :: "(string \<Rightarrow> 'a option) \<Rightarrow> lookupFunc \<Rightarrow> string \<Rightarrow> bool" where
  "well_formed parse lookup key \<longleftrightarrow> (case lookup key of None \<Rightarrow> True | Some raw \<Rightarrow> raw = '''' \<or> parse raw \<noteq> None)"

definition integer_settings :: "string list" where
  "integer_settings = [''HTTP_PORT'', ''GRPC_PORT'', ''POSTGRES_PORT'', ''POSTGRES_MAX_OPEN_CONNS'', ''POSTGRES_MAX_IDLE_CONNS'', ''REDIS_DB'']"

definition duration_settings :: "string list" where
  "duration_settings = [''HTTP_READ_TIMEOUT'', ''HTTP_WRITE_TIMEOUT'', ''HTTP_IDLE_TIMEOUT'', ''HTTP_SHUTDOWN_TIMEOUT'',
     ''GRPC_SHUTDOWN_TIMEOUT'', ''JWT_LEEWAY'', ''POSTGRES_CONN_MAX_LIFETIME'', ''POSTGRES_CONNECT_TIMEOUT'',
     ''REDIS_DIAL_TIMEOUT'', ''REDIS_COMMAND_TIMEOUT'', ''IDEMPOTENCY_TTL'', ''IDEMPOTENCY_PROCESSING_TTL'']"

lemma env_value_Nil: "snd (env_value parse fmt lookup key def) = [] \<longleftrightarrow> well_formed parse lookup key"
  by (auto simp: env_value_def well_formed_def split: option.splits)

lemmas env_reader_defs = read_http_def read_grpc_def read_jwt_def read_postgres_def read_redis_def read_idempotency_def
  env_intVal_def env_boolVal_def env_duration_def

lemma load_Inr_settings:
  "load std lookup = Inr cfg \<Longrightarrow> list_all (well_formed Atoi lookup) integer_settings
     \<and> list_all (well_formed (std_ParseDuration std) lookup) duration_settings \<and> well_formed ParseBool lookup ''GRPC_REFLECTION''
     \<and> validate cfg = []"
  by (simp add: load_def Let_def env_reader_defs env_value_Nil integer_settings_def duration_settings_def split: if_splits)



definition same_but_secrets :: "Config \<Rightarrow> Config \<Rightarrow> bool" where
  "same_but_secrets c c' \<longleftrightarrow>
     c\<lparr>cfg_Postgres := (cfg_Postgres c)\<lparr>pg_Password := ''''\<rparr>, cfg_Redis := (cfg_Redis c)\<lparr>redis_Password := ''''\<rparr>,
       cfg_JWT := (cfg_JWT c)\<lparr>jwt_PublicKeyPEM := ''''\<rparr>\<rparr> =
     c'\<lparr>cfg_Postgres := (cfg_Postgres c')\<lparr>pg_Password := ''''\<rparr>, cfg_Redis := (cfg_Redis c')\<lparr>redis_Password := ''''\<rparr>,
       cfg_JWT := (cfg_JWT c')\<lparr>jwt_PublicKeyPEM := ''''\<rparr>\<rparr>
     \<and> (pg_Password (cfg_Postgres c) = '''' \<longleftrightarrow> pg_Password (cfg_Postgres c') = '''')
     \<and> (redis_Password (cfg_Redis c) = '''' \<longleftrightarrow> redis_Password (cfg_Redis c') = '''')
     \<and> (jwt_PublicKeyPEM (cfg_JWT c) = '''' \<longleftrightarrow> jwt_PublicKeyPEM (cfg_JWT c') = '''')"

text \<open>C32: Redaction does not depend on the secrets: two configurations that differ only in secrets that
  are set have the same redacted form and the same redacted connection string.\<close>

theorem Redacted_hides:
  assumes "same_but_secrets c c'"
  shows "Redacted c = Redacted c' \<and> RedactedDSN (cfg_Postgres c) = RedactedDSN (cfg_Postgres c')"
proof -
  obtain a h g j p r k i where c: "c = \<lparr>cfg_App = a, cfg_HTTP = h, cfg_GRPC = g, cfg_JWT = j, cfg_Postgres = p,
      cfg_Redis = r, cfg_Kafka = k, cfg_Idempotency = i\<rparr>" by (cases c)
  obtain a' h' g' j' p' r' k' i' where c': "c' = \<lparr>cfg_App = a', cfg_HTTP = h', cfg_GRPC = g', cfg_JWT = j', cfg_Postgres = p',
      cfg_Redis = r', cfg_Kafka = k', cfg_Idempotency = i'\<rparr>" by (cases c')
  show ?thesis
    using assms unfolding c c' same_but_secrets_def
    by (cases j; cases j'; cases p; cases p'; cases r; cases r')
      (auto simp: Redacted_def RedactedDSN_def dsn_def)
qed

theorem Redacted_hides_witness:
  "\<exists>cfg. load sample_std production_env = Inr cfg
     \<and> Redacted (cfg\<lparr>cfg_Postgres := (cfg_Postgres cfg)\<lparr>pg_Password := ''s3''\<rparr>\<rparr>) =
       Redacted (cfg\<lparr>cfg_Postgres := (cfg_Postgres cfg)\<lparr>pg_Password := ''t4''\<rparr>\<rparr>)"
proof -
  obtain cfg where cfg: "load sample_std production_env = Inr cfg" using load_sample by blast
  have "same_but_secrets (cfg\<lparr>cfg_Postgres := (cfg_Postgres cfg)\<lparr>pg_Password := ''s3''\<rparr>\<rparr>)
      (cfg\<lparr>cfg_Postgres := (cfg_Postgres cfg)\<lparr>pg_Password := ''t4''\<rparr>\<rparr>)"
    by (simp add: same_but_secrets_def)
  from Redacted_hides [OF this] cfg show ?thesis by blast
qed

end
