(* ===== verification/GrpcServer.thy ===== *)
theory GrpcServer
  imports GrpcErrors Health Config
begin

text \<open>
  The lifecycle of the gRPC server (\<^verbatim>\<open>src/internal/grpcapi/server.go\<close>): start, the health poller
  and shutdown.  The health service of the gRPC library is the argument \<open>health_lib\<close>, and
  \<open>health_laws\<close> is what its documentation says of it; what \<^verbatim>\<open>net.Listen\<close> returns, whether the
  graceful stop fits its budget and what the dependency checks see are arguments too.

  The poller and \<^verbatim>\<open>Shutdown\<close> run concurrently.  The step relations \<open>poll_step\<close> and \<open>stop_step\<close> are their
  statements one by one, and \<open>life_steps\<close> interleaves them.
\<close>

section \<open>The health service\<close>

datatype serving = SERVING | NOT_SERVING

record 'h health_lib =
  SetServingStatus :: "string \<Rightarrow> serving \<Rightarrow> 'h \<Rightarrow> 'h"
  health_Shutdown :: "'h \<Rightarrow> 'h"

text \<open>\<open>status h\<close> is what a health probe is told and \<open>closed h\<close> says that the service was shut
  down: \<^verbatim>\<open>Shutdown\<close> sets every status to NOT_SERVING and makes the service ignore later
  changes; before that a change takes effect.\<close>

definition health_laws :: "('h \<Rightarrow> string \<Rightarrow> serving option) \<Rightarrow> ('h \<Rightarrow> bool) \<Rightarrow> 'h health_lib \<Rightarrow> bool" where
  "health_laws status closed lib \<longleftrightarrow>
     (\<forall>h. closed (health_Shutdown lib h) \<and> (\<forall>svc. status (health_Shutdown lib h) svc \<noteq> Some SERVING))
     \<and> (\<forall>h svc v. closed h \<longrightarrow> SetServingStatus lib svc v h = h)
     \<and> (\<forall>h svc v. \<not> closed h \<longrightarrow> status (SetServingStatus lib svc v h) = (status h)(svc \<mapsto> v) \<and> \<not> closed (SetServingStatus lib svc v h))"

lemma health_lawsD:
  assumes "health_laws status closed lib"
  shows "closed (health_Shutdown lib h)" "status (health_Shutdown lib h) svc \<noteq> Some SERVING"
    "closed h \<Longrightarrow> SetServingStatus lib svc v h = h"
    "\<not> closed h \<Longrightarrow> status (SetServingStatus lib svc v h) = (status h)(svc \<mapsto> v)"
    "\<not> closed h \<Longrightarrow> \<not> closed (SetServingStatus lib svc v h)"
  using assms by (simp_all add: health_laws_def)

section \<open>The server\<close>

record ('h, 'w) grpc_server =
  gs_cfg :: GRPC
  gs_services :: "string list"
  gs_health :: 'h
  gs_readiness :: "'w Registry option"
  gs_listener :: "string option"
  gs_polling :: bool

text \<open>\<open>h\<close> is what \<^verbatim>\<open>health.NewServer\<close> returns.  The interceptors that \<^verbatim>\<open>New\<close> chains are the function \<open>serve\<close>
  of \<open>GrpcErrors\<close>.\<close>

definition grpc_New :: "Config \<Rightarrow> 'h \<Rightarrow> 'w Registry option \<Rightarrow> ('h, 'w) grpc_server" where
  "grpc_New cfg h readiness =
     \<lparr>gs_cfg = cfg_GRPC cfg,
      gs_services = [serviceName, ''grpc.health.v1.Health'']
        @ (if grpc_Reflection (cfg_GRPC cfg) then [''grpc.reflection.v1.ServerReflection'', ''grpc.reflection.v1alpha.ServerReflection''] else []),
      gs_health = h, gs_readiness = readiness, gs_listener = None, gs_polling = False\<rparr>"

text \<open>The registry is nil as \<open>None\<close>; \<open>elapsed\<close>, \<open>w\<close> and \<open>order\<close> are the arguments of a run of its checks.\<close>

definition serving_status :: "'w Registry option \<Rightarrow> (string \<Rightarrow> int) \<Rightarrow> 'w \<Rightarrow> 'w check list \<Rightarrow> serving" where
  "serving_status readiness elapsed w order =
     (case readiness of
        None \<Rightarrow> SERVING
      | Some reg \<Rightarrow> if \<not> HealthReport_Healthy (Registry_Check elapsed w order reg) then NOT_SERVING else SERVING)"

definition set_both :: "'h health_lib \<Rightarrow> serving \<Rightarrow> 'h \<Rightarrow> 'h" where
  "set_both lib v h = SetServingStatus lib serviceName v (SetServingStatus lib '''' v h)"

definition updateHealth ::
  "'h health_lib \<Rightarrow> (string \<Rightarrow> int) \<Rightarrow> 'w \<Rightarrow> 'w check list \<Rightarrow> ('h, 'w) grpc_server \<Rightarrow> ('h, 'w) grpc_server" where
  "updateHealth lib elapsed w order s =
     s\<lparr>gs_health := set_both lib (serving_status (gs_readiness s) elapsed w order) (gs_health s)\<rparr>"

definition grpc_Start :: "string result \<Rightarrow> ('h, 'w) grpc_server \<Rightarrow> go_error option \<times> ('h, 'w) grpc_server" where
  "grpc_Start listen s =
     (case listen of
        Inl err \<Rightarrow> (Some (Errorf ''grpc: listen on %s: %w'' [AStr (GRPC_Addr (gs_cfg s))] [err]), s)
      | Inr addr \<Rightarrow> (None, s\<lparr>gs_listener := Some addr, gs_polling := True\<rparr>))"

definition bound_Addr :: "('h, 'w) grpc_server \<Rightarrow> string" where
  "bound_Addr s = (case gs_listener s of None \<Rightarrow> '''' | Some addr \<Rightarrow> addr)"

text \<open>\<open>graceful\<close> says that \<^verbatim>\<open>GracefulStop\<close> returned within the budget.\<close>

definition grpc_Shutdown :: "'h health_lib \<Rightarrow> bool \<Rightarrow> ('h, 'w) grpc_server \<Rightarrow> go_error option \<times> ('h, 'w) grpc_server" where
  "grpc_Shutdown lib graceful s =
     (if gs_listener s = None then (None, s)
      else
        (let s = s\<lparr>gs_polling := False\<rparr>;
             s = s\<lparr>gs_health := set_both lib NOT_SERVING (gs_health s)\<rparr>;
             s = s\<lparr>gs_health := health_Shutdown lib (gs_health s)\<rparr> in
         if graceful then (None, s)
         else (Some (Errorf ''grpc: graceful shutdown exceeded %s and was forced'' [AInt (grpc_ShutdownTimeout (gs_cfg s))] []), s)))"

definition grpc_Run ::
  "'h health_lib \<Rightarrow> string result \<Rightarrow> (('h, 'w) grpc_server \<Rightarrow> ('h, 'w) grpc_server) \<Rightarrow> bool \<Rightarrow> ('h, 'w) grpc_server \<Rightarrow>
   go_error option \<times> ('h, 'w) grpc_server" where
  "grpc_Run lib listen serving graceful s =
     (case grpc_Start listen s of
        (Some err, s') \<Rightarrow> (Some err, s')
      | (None, s') \<Rightarrow> grpc_Shutdown lib graceful (serving s'))"

section \<open>The poller and Shutdown, interleaved\<close>

text \<open>
  Where the goroutine of \<^verbatim>\<open>pollReadiness\<close> stands: before its first check, in the select, or inside
  \<^verbatim>\<open>updateHealth\<close> with the verdict of the check; and how far \<^verbatim>\<open>Shutdown\<close> has come.
\<close>

datatype poller = Launched | Waiting | Checked serving | HalfSet serving | PollerDone

datatype stopper = NotStopping | PollingStopped | WholeReported | ServiceReported | HealthClosed

text \<open>Two fields only observe: \<open>lf_seen\<close> is the state of the dependencies the last check ran in, and
  \<open>lf_late\<close> says that the poller wrote a status after \<^verbatim>\<open>Shutdown\<close> had begun.\<close>

record ('h, 'w) life =
  lf_health :: 'h
  lf_cancelled :: bool
  lf_poller :: poller
  lf_stopper :: stopper
  lf_seen :: "'w option"
  lf_late :: bool

text \<open>The server right after \<^verbatim>\<open>Start\<close>.\<close>

definition started :: "'h \<Rightarrow> ('h, 'w) life" where
  "started h = \<lparr>lf_health = h, lf_cancelled = False, lf_poller = Launched, lf_stopper = NotStopping, lf_seen = None, lf_late = False\<rparr>"

text \<open>The steps of \<^verbatim>\<open>pollReadiness\<close>: a check in whatever state the dependencies are in, the two calls
  of \<^verbatim>\<open>updateHealth\<close> with its verdict, and the return.  The select may still take a tick after the context
  was cancelled.\<close>

inductive poll_step :: "'h health_lib \<Rightarrow> 'w Registry option \<Rightarrow> ('h, 'w) life \<Rightarrow> ('h, 'w) life \<Rightarrow> bool" for lib readiness where
  poll_check: "lf_poller s = Launched \<or> lf_poller s = Waiting \<Longrightarrow>
    (case readiness of None \<Rightarrow> True | Some reg \<Rightarrow> mset order = mset (rg_checks reg)) \<Longrightarrow>
    poll_step lib readiness s (s\<lparr>lf_poller := Checked (serving_status readiness elapsed w order), lf_seen := Some w\<rparr>)"
| poll_whole: "lf_poller s = Checked v \<Longrightarrow>
    poll_step lib readiness s (s\<lparr>lf_poller := HalfSet v, lf_health := SetServingStatus lib '''' v (lf_health s),
      lf_late := (lf_late s \<or> lf_stopper s \<noteq> NotStopping)\<rparr>)"
| poll_service: "lf_poller s = HalfSet v \<Longrightarrow>
    poll_step lib readiness s (s\<lparr>lf_poller := Waiting, lf_health := SetServingStatus lib serviceName v (lf_health s),
      lf_late := (lf_late s \<or> lf_stopper s \<noteq> NotStopping)\<rparr>)"
| poll_exit: "lf_poller s = Waiting \<Longrightarrow> lf_cancelled s \<Longrightarrow> poll_step lib readiness s (s\<lparr>lf_poller := PollerDone\<rparr>)"

text \<open>The statements of \<^verbatim>\<open>Shutdown\<close> up to the drain.\<close>

inductive stop_step :: "'h health_lib \<Rightarrow> ('h, 'w) life \<Rightarrow> ('h, 'w) life \<Rightarrow> bool" for lib where
  stop_polling: "lf_stopper s = NotStopping \<Longrightarrow>
    stop_step lib s (s\<lparr>lf_stopper := PollingStopped, lf_cancelled := True\<rparr>)"
| report_whole: "lf_stopper s = PollingStopped \<Longrightarrow>
    stop_step lib s (s\<lparr>lf_stopper := WholeReported, lf_health := SetServingStatus lib '''' NOT_SERVING (lf_health s)\<rparr>)"
| report_service: "lf_stopper s = WholeReported \<Longrightarrow>
    stop_step lib s (s\<lparr>lf_stopper := ServiceReported, lf_health := SetServingStatus lib serviceName NOT_SERVING (lf_health s)\<rparr>)"
| close_health: "lf_stopper s = ServiceReported \<Longrightarrow>
    stop_step lib s (s\<lparr>lf_stopper := HealthClosed, lf_health := health_Shutdown lib (lf_health s)\<rparr>)"

inductive life_steps :: "'h health_lib \<Rightarrow> 'w Registry option \<Rightarrow> ('h, 'w) life \<Rightarrow> ('h, 'w) life \<Rightarrow> bool" for lib readiness where
  life_refl: "life_steps lib readiness s s"
| life_poll: "life_steps lib readiness s s' \<Longrightarrow> poll_step lib readiness s' s'' \<Longrightarrow> life_steps lib readiness s s''"
| life_stop: "life_steps lib readiness s s' \<Longrightarrow> stop_step lib s' s'' \<Longrightarrow> life_steps lib readiness s s''"

section \<open>Facts\<close>

lemma life_snoc_poll: "poll_step lib readiness s' s'' \<Longrightarrow> life_steps lib readiness s s' \<Longrightarrow> life_steps lib readiness s s''"
  by (rule life_poll)

lemma life_snoc_stop: "stop_step lib s' s'' \<Longrightarrow> life_steps lib readiness s s' \<Longrightarrow> life_steps lib readiness s s''"
  by (rule life_stop)

text \<open>A turn of the poller without interruption is \<open>updateHealth\<close>.\<close>

lemma updateHealth_steps:
  assumes "lf_poller l = Launched \<or> lf_poller l = Waiting" and "lf_health l = gs_health s"
    and "case gs_readiness s of None \<Rightarrow> True | Some reg \<Rightarrow> mset order = mset (rg_checks reg)"
  shows "\<exists>l'. life_steps lib (gs_readiness s) l l' \<and> lf_poller l' = Waiting \<and> lf_seen l' = Some w \<and> lf_stopper l' = lf_stopper l
    \<and> lf_health l' = gs_health (updateHealth lib elapsed w order s)"
proof -
  let ?v = "serving_status (gs_readiness s) elapsed w order" and ?late = "\<lambda>l. lf_late l \<or> lf_stopper l \<noteq> NotStopping"
  let ?l1 = "l\<lparr>lf_poller := Checked ?v, lf_seen := Some w\<rparr>"
  let ?l2 = "?l1\<lparr>lf_poller := HalfSet ?v, lf_health := SetServingStatus lib '''' ?v (lf_health ?l1), lf_late := ?late ?l1\<rparr>"
  let ?l3 = "?l2\<lparr>lf_poller := Waiting, lf_health := SetServingStatus lib serviceName ?v (lf_health ?l2), lf_late := ?late ?l2\<rparr>"
  have 1: "poll_step lib (gs_readiness s) l ?l1" by (rule poll_check [OF assms(1,3)])
  have 2: "poll_step lib (gs_readiness s) ?l1 ?l2" by (rule poll_whole) simp
  have 3: "poll_step lib (gs_readiness s) ?l2 ?l3" by (rule poll_service) simp
  have "life_steps lib (gs_readiness s) l ?l3" by (intro life_snoc_poll [OF 3] life_snoc_poll [OF 2] life_snoc_poll [OF 1] life_refl)
  moreover have "lf_health ?l3 = gs_health (updateHealth lib elapsed w order s)"
    using assms(2) by (simp add: updateHealth_def set_both_def)
  ultimately show ?thesis by (intro exI [of _ ?l3]) simp
qed

text \<open>The steps of \<^verbatim>\<open>Shutdown\<close> taken without interruption are the function \<open>grpc_Shutdown\<close>.\<close>

lemma Shutdown_steps:
  assumes "gs_listener s \<noteq> None" and "lf_stopper l = NotStopping" and "lf_health l = gs_health s"
  shows "\<exists>l'. life_steps lib readiness l l' \<and> lf_stopper l' = HealthClosed \<and> lf_health l' = gs_health (snd (grpc_Shutdown lib graceful s))"
proof -
  let ?l1 = "l\<lparr>lf_stopper := PollingStopped, lf_cancelled := True\<rparr>"
  let ?l2 = "?l1\<lparr>lf_stopper := WholeReported, lf_health := SetServingStatus lib '''' NOT_SERVING (lf_health ?l1)\<rparr>"
  let ?l3 = "?l2\<lparr>lf_stopper := ServiceReported, lf_health := SetServingStatus lib serviceName NOT_SERVING (lf_health ?l2)\<rparr>"
  let ?l4 = "?l3\<lparr>lf_stopper := HealthClosed, lf_health := health_Shutdown lib (lf_health ?l3)\<rparr>"
  have 1: "stop_step lib l ?l1" using assms(2) by (rule stop_polling)
  have 2: "stop_step lib ?l1 ?l2" by (rule report_whole) simp
  have 3: "stop_step lib ?l2 ?l3" by (rule report_service) simp
  have 4: "stop_step lib ?l3 ?l4" by (rule close_health) simp
  have "life_steps lib readiness l ?l4"
    by (intro life_snoc_stop [OF 4] life_snoc_stop [OF 3] life_snoc_stop [OF 2] life_snoc_stop [OF 1] life_refl)
  moreover have "lf_health ?l4 = gs_health (snd (grpc_Shutdown lib graceful s))"
    using assms(1,3) by (auto simp: grpc_Shutdown_def set_both_def Let_def)
  ultimately show ?thesis by (intro exI [of _ ?l4]) simp
qed

text \<open>What a probe should be told when the dependencies are in state \<open>w\<close>.\<close>

definition ready_in :: "'w Registry option \<Rightarrow> 'w \<Rightarrow> bool" where
  "ready_in readiness w \<longleftrightarrow>
     (case readiness of None \<Rightarrow> True | Some reg \<Rightarrow> list_all (\<lambda>c. \<not> ck_required c \<or> ck_fn c w = Passes) (rg_checks reg))"

definition verdict :: "'w Registry option \<Rightarrow> 'w option \<Rightarrow> serving option" where
  "verdict readiness seen = map_option (\<lambda>w. if ready_in readiness w then SERVING else NOT_SERVING) seen"

lemma serving_status_ready:
  assumes "case readiness of None \<Rightarrow> True | Some reg \<Rightarrow> distinct (Names reg) \<and> mset order = mset (rg_checks reg)"
  shows "serving_status readiness elapsed w order = (if ready_in readiness w then SERVING else NOT_SERVING)"
  using assms
  by (auto simp: serving_status_def ready_in_def Check_eq HealthReport_Healthy_def check_fails_def list_all_iff split: option.splits if_splits)

text \<open>The invariant: while \<^verbatim>\<open>Shutdown\<close> has not begun, what the poller holds and has written is the verdict
  of its last check; then the statuses \<^verbatim>\<open>Shutdown\<close> wrote stand unless the poller wrote late; the service
  is closed exactly at the end, and the context cancelled exactly from the beginning.\<close>

definition polled_ok :: "('h \<Rightarrow> string \<Rightarrow> serving option) \<Rightarrow> 'w Registry option \<Rightarrow> ('h, 'w) life \<Rightarrow> bool" where
  "polled_ok status readiness s \<longleftrightarrow>
     (case lf_poller s of
        Launched \<Rightarrow> True
      | Checked v \<Rightarrow> Some v = verdict readiness (lf_seen s)
      | HalfSet v \<Rightarrow> Some v = verdict readiness (lf_seen s) \<and> status (lf_health s) '''' = Some v
      | Waiting \<Rightarrow> lf_seen s \<noteq> None \<and> status (lf_health s) '''' = verdict readiness (lf_seen s)
          \<and> status (lf_health s) serviceName = verdict readiness (lf_seen s)
      | PollerDone \<Rightarrow> False)"

definition life_inv ::
  "('h \<Rightarrow> string \<Rightarrow> serving option) \<Rightarrow> ('h \<Rightarrow> bool) \<Rightarrow> 'w Registry option \<Rightarrow> ('h, 'w) life \<Rightarrow> bool" where
  "life_inv status closed readiness s \<longleftrightarrow>
     (lf_cancelled s \<longleftrightarrow> lf_stopper s \<noteq> NotStopping)
     \<and> (closed (lf_health s) \<longleftrightarrow> lf_stopper s = HealthClosed)
     \<and> (lf_stopper s = NotStopping \<longrightarrow> polled_ok status readiness s)
     \<and> (lf_stopper s = WholeReported \<and> \<not> lf_late s \<longrightarrow> status (lf_health s) '''' = Some NOT_SERVING)
     \<and> (lf_stopper s = ServiceReported \<and> \<not> lf_late s \<longrightarrow>
          status (lf_health s) '''' = Some NOT_SERVING \<and> status (lf_health s) serviceName = Some NOT_SERVING)
     \<and> (lf_stopper s = HealthClosed \<longrightarrow> (\<forall>svc. status (lf_health s) svc \<noteq> Some SERVING))"

lemma serviceName_ne [simp]: "serviceName \<noteq> ''''" "serviceName \<noteq> []"
  by (simp_all add: serviceName_def)

lemma life_inv_poll:
  assumes laws: "health_laws status closed lib" and reg: "\<And>reg. readiness = Some reg \<Longrightarrow> distinct (Names reg)"
    and "poll_step lib readiness s s'" and inv: "life_inv status closed readiness s"
  shows "life_inv status closed readiness s'"
  using assms(3)
proof cases
  case (poll_check order elapsed w)
  have "case readiness of None \<Rightarrow> True | Some reg \<Rightarrow> distinct (Names reg) \<and> mset order = mset (rg_checks reg)"
    using poll_check reg by (auto split: option.splits)
  with poll_check inv show ?thesis
    by (simp add: life_inv_def polled_ok_def verdict_def serving_status_ready)
next
  case (poll_whole v)
  with inv show ?thesis by (cases "lf_stopper s") (simp_all add: life_inv_def polled_ok_def health_lawsD [OF laws])
next
  case (poll_service v)
  with inv show ?thesis
    by (cases "lf_stopper s"; cases "lf_seen s") (simp_all add: life_inv_def polled_ok_def verdict_def health_lawsD [OF laws])
next
  case poll_exit
  with inv show ?thesis by (auto simp: life_inv_def)
qed

lemma life_inv_stop:
  assumes laws: "health_laws status closed lib" and "stop_step lib s s'" and inv: "life_inv status closed readiness s"
  shows "life_inv status closed readiness s'"
  using assms(2)
proof cases
  case stop_polling
  with inv show ?thesis by (simp add: life_inv_def)
next
  case report_whole
  with inv show ?thesis by (simp add: life_inv_def health_lawsD [OF laws])
next
  case report_service
  with inv show ?thesis by (simp add: life_inv_def health_lawsD [OF laws])
next
  case close_health
  with inv show ?thesis by (simp add: life_inv_def health_lawsD [OF laws])
qed

lemma life_inv_steps:
  assumes "health_laws status closed lib" and "\<And>reg. readiness = Some reg \<Longrightarrow> distinct (Names reg)" and "\<not> closed h"
    and "life_steps lib readiness (started h) s"
  shows "life_inv status closed readiness s"
  using assms(4)
proof (induction "started h :: ('a, 'b) life" s rule: life_steps.induct)
  case life_refl
  show ?case using assms(3) by (simp add: life_inv_def polled_ok_def started_def)
next
  case (life_poll s' s'')
  then show ?case using life_inv_poll [OF assms(1,2)] by blast
next
  case (life_stop s' s'')
  then show ?case using life_inv_stop [OF assms(1)] by blast
qed

text \<open>The poller left to itself returns once the context is cancelled.\<close>

inductive poll_steps :: "'h health_lib \<Rightarrow> 'w Registry option \<Rightarrow> ('h, 'w) life \<Rightarrow> ('h, 'w) life \<Rightarrow> bool" for lib readiness where
  poll_refl: "poll_steps lib readiness s s"
| poll_next: "poll_step lib readiness s s' \<Longrightarrow> poll_steps lib readiness s' s'' \<Longrightarrow> poll_steps lib readiness s s''"

lemma poll_then: "poll_step lib readiness s s1 \<Longrightarrow> \<exists>s'. poll_steps lib readiness s1 s' \<and> P s' \<Longrightarrow> \<exists>s'. poll_steps lib readiness s s' \<and> P s'"
  by (blast intro: poll_next)

lemma poller_returns:
  assumes "lf_cancelled s"
  shows "\<exists>s'. poll_steps lib readiness s s' \<and> lf_poller s' = PollerDone"
proof -
  have waiting: "\<exists>s'. poll_steps lib readiness s s' \<and> lf_poller s' = PollerDone" if "lf_poller s = Waiting" "lf_cancelled s" for s
    using poll_next [OF poll_exit [OF that] poll_refl] by (intro exI [of _ "s\<lparr>lf_poller := PollerDone\<rparr>"]) simp
  have half: "\<exists>s'. poll_steps lib readiness s s' \<and> lf_poller s' = PollerDone" if "lf_poller s = HalfSet v" "lf_cancelled s" for s v
    by (rule poll_then [OF poll_service [OF that(1)] waiting]) (simp_all add: that(2))
  have checked: "\<exists>s'. poll_steps lib readiness s s' \<and> lf_poller s' = PollerDone" if "lf_poller s = Checked v" "lf_cancelled s" for s v
    by (rule poll_then [OF poll_whole [OF that(1)] half]) (simp_all add: that(2))
  have launched: "\<exists>s'. poll_steps lib readiness s s' \<and> lf_poller s' = PollerDone" if "lf_poller s = Launched" "lf_cancelled s" for s
    by (rule poll_then [OF poll_check [where order = "case readiness of None \<Rightarrow> [] | Some reg \<Rightarrow> rg_checks reg"] checked])
      (simp_all add: that split: option.split)
  show ?thesis using assms waiting half checked launched by (cases "lf_poller s") (auto intro: poll_refl)
qed

text \<open>A model of the health service: a flag and a table.\<close>

definition table_lib :: "(bool \<times> (string \<Rightarrow> serving option)) health_lib" where
  "table_lib = \<lparr>SetServingStatus = (\<lambda>svc v (c, m). if c then (c, m) else (c, m(svc \<mapsto> v))),
     health_Shutdown = (\<lambda>(c, m). (True, \<lambda>svc. if m svc = None then None else Some NOT_SERVING))\<rparr>"

lemma table_laws: "health_laws (\<lambda>(c, m). m) fst table_lib"
  by (auto simp: health_laws_def table_lib_def split: if_splits)

text \<open>Without the call of \<^verbatim>\<open>health.Shutdown\<close> a poll that was under way could report SERVING again: the
  state before the last step of \<^verbatim>\<open>Shutdown\<close> can tell SERVING although both statuses were reset.\<close>

lemma late_poll:
  "\<exists>s :: (bool \<times> (string \<Rightarrow> serving option), unit) life. life_steps table_lib None (started (False, Map.empty)) s
     \<and> lf_stopper s = ServiceReported \<and> snd (lf_health s) '''' = Some SERVING"
proof -
  let ?s0 = "started (False, Map.empty) :: (bool \<times> (string \<Rightarrow> serving option), unit) life"
  let ?s1 = "?s0\<lparr>lf_poller := Checked (serving_status None (\<lambda>_. 0) () []), lf_seen := Some ()\<rparr>"
  let ?s2 = "?s1\<lparr>lf_stopper := PollingStopped, lf_cancelled := True\<rparr>"
  let ?s3 = "?s2\<lparr>lf_stopper := WholeReported, lf_health := SetServingStatus table_lib '''' NOT_SERVING (lf_health ?s2)\<rparr>"
  let ?s4 = "?s3\<lparr>lf_stopper := ServiceReported, lf_health := SetServingStatus table_lib serviceName NOT_SERVING (lf_health ?s3)\<rparr>"
  let ?s5 = "?s4\<lparr>lf_poller := HalfSet SERVING, lf_health := SetServingStatus table_lib '''' SERVING (lf_health ?s4),
      lf_late := (lf_late ?s4 \<or> lf_stopper ?s4 \<noteq> NotStopping)\<rparr>"
  have 1: "poll_step table_lib None ?s0 ?s1" by (rule poll_check) (simp_all add: started_def)
  have 2: "stop_step table_lib ?s1 ?s2" by (rule stop_polling) (simp add: started_def)
  have 3: "stop_step table_lib ?s2 ?s3" by (rule report_whole) simp
  have 4: "stop_step table_lib ?s3 ?s4" by (rule report_service) simp
  have 5: "poll_step table_lib None ?s4 ?s5" by (rule poll_whole) (simp add: serving_status_def)
  have "life_steps table_lib None ?s0 ?s5"
    by (intro life_snoc_poll [OF 5] life_snoc_stop [OF 4] life_snoc_stop [OF 3] life_snoc_stop [OF 2] life_snoc_poll [OF 1] life_refl)
  moreover have "snd (lf_health ?s5) '''' = Some SERVING" by (simp add: table_lib_def started_def split: prod.splits)
  ultimately show ?thesis by (intro exI [of _ ?s5]) simp
qed

section \<open>Properties\<close>

text \<open>C36: The gRPC health status over the life of the server, the poller and \<^verbatim>\<open>Shutdown\<close> interleaved in any
  way.  Before \<^verbatim>\<open>Shutdown\<close>, whenever the poller waits for its next tick, a probe of the whole server and one
  of the payments service are told SERVING if every required dependency passed in the last check
  and NOT_SERVING if not.  When \<^verbatim>\<open>Shutdown\<close> has made its two reports, both are NOT_SERVING unless a poll that
  was under way wrote in between; when it has closed the health service, no probe is told SERVING,
  whatever the poller still does, and the poller, which was told to stop, can return from wherever it is.\<close>

theorem health_lifecycle:
  assumes "health_laws status closed lib" and "\<And>reg. readiness = Some reg \<Longrightarrow> distinct (Names reg)" and "\<not> closed h"
    and "life_steps lib readiness (started h) s"
  shows "(lf_stopper s = NotStopping \<and> lf_poller s = Waiting \<longrightarrow>
       (\<exists>w. lf_seen s = Some w
          \<and> status (lf_health s) '''' = Some (if ready_in readiness w then SERVING else NOT_SERVING)
          \<and> status (lf_health s) serviceName = Some (if ready_in readiness w then SERVING else NOT_SERVING)))
    \<and> (lf_stopper s = ServiceReported \<and> \<not> lf_late s \<longrightarrow>
       status (lf_health s) '''' = Some NOT_SERVING \<and> status (lf_health s) serviceName = Some NOT_SERVING)
    \<and> (lf_stopper s = HealthClosed \<longrightarrow> (\<forall>svc. status (lf_health s) svc \<noteq> Some SERVING))
    \<and> (lf_stopper s \<noteq> NotStopping \<longrightarrow> (\<exists>s'. poll_steps lib readiness s s' \<and> lf_poller s' = PollerDone))"
proof -
  have inv: "life_inv status closed readiness s" by (rule life_inv_steps [OF assms])
  have "lf_stopper s \<noteq> NotStopping \<Longrightarrow> \<exists>s'. poll_steps lib readiness s s' \<and> lf_poller s' = PollerDone"
    using inv by (intro poller_returns) (simp add: life_inv_def)
  moreover have "\<exists>w. lf_seen s = Some w
      \<and> status (lf_health s) '''' = Some (if ready_in readiness w then SERVING else NOT_SERVING)
      \<and> status (lf_health s) serviceName = Some (if ready_in readiness w then SERVING else NOT_SERVING)"
    if "lf_stopper s = NotStopping" "lf_poller s = Waiting"
    using inv that by (cases "lf_seen s") (simp_all add: life_inv_def polled_ok_def verdict_def)
  ultimately show ?thesis using inv unfolding life_inv_def by blast
qed

definition sample_server :: "(bool \<times> (string \<Rightarrow> serving option), unit) grpc_server" where
  "sample_server = \<lparr>gs_cfg = \<lparr>grpc_Host = ''h'', grpc_Port = 0, grpc_ShutdownTimeout = 1, grpc_Reflection = False\<rparr>,
     gs_services = [serviceName], gs_health = (False, Map.empty), gs_readiness = Some sample_registry, gs_listener = Some ''h:1'', gs_polling = True\<rparr>"

theorem health_lifecycle_witness:
  "\<exists>s1 s2. life_steps table_lib (Some sample_registry) (started (False, Map.empty)) s1 \<and> lf_stopper s1 = NotStopping
     \<and> snd (lf_health s1) serviceName = Some SERVING
     \<and> life_steps table_lib (Some sample_registry) (started (False, Map.empty)) s2 \<and> lf_stopper s2 = HealthClosed
     \<and> snd (lf_health s2) serviceName \<noteq> Some SERVING"
proof -
  let ?init = "started (False, Map.empty) :: (bool \<times> (string \<Rightarrow> serving option), unit) life"
  have reg: "\<And>reg. Some sample_registry = Some reg \<Longrightarrow> distinct (Names reg)" by (simp add: Names_def sample_registry_def)
  have open0: "\<not> fst (False, Map.empty :: string \<Rightarrow> serving option)" by simp
  have server: "gs_listener sample_server \<noteq> None" "lf_health ?init = gs_health sample_server"
      "gs_readiness sample_server = Some sample_registry"
    by (simp_all add: started_def sample_server_def)
  obtain s1 where s1: "life_steps table_lib (Some sample_registry) ?init s1" "lf_poller s1 = Waiting" "lf_seen s1 = Some ()"
      "lf_stopper s1 = NotStopping"
    using updateHealth_steps [of ?init sample_server "rg_checks sample_registry" table_lib "()" "\<lambda>_. 0"] server
    by (auto simp: started_def)
  obtain s2 where s2: "life_steps table_lib (Some sample_registry) ?init s2" "lf_stopper s2 = HealthClosed"
    using Shutdown_steps [of sample_server ?init table_lib "Some sample_registry"] server by (auto simp: started_def)
  have "ready_in (Some sample_registry) ()" by code_simp
  with health_lifecycle [OF table_laws reg open0 s1(1)] s1 have "snd (lf_health s1) serviceName = Some SERVING"
    by (auto split: prod.splits)
  moreover from health_lifecycle [OF table_laws reg open0 s2(1)] s2(2) have "snd (lf_health s2) serviceName \<noteq> Some SERVING"
    by (auto split: prod.splits)
  ultimately show ?thesis using s1 s2 by blast
qed

text \<open>\<^verbatim>\<open>Shutdown\<close> before \<^verbatim>\<open>Start\<close> does nothing; after it, it returns an error exactly when the drain was
  forced, and in both cases no probe is told SERVING afterwards.  \<^verbatim>\<open>Run\<close> reports a listener that
  cannot be bound and starts nothing then; while the server serves, only its health status changes.\<close>

theorem grpc_Run_outcome:
  assumes "health_laws status closed lib" and "gs_listener s = None" and "\<And>x. gs_listener (serving x) = gs_listener x"
  shows "grpc_Shutdown lib graceful s = (None, s)
    \<and> (case grpc_Run lib listen serving graceful s of (err, s') \<Rightarrow>
        (case listen of
           Inl e \<Rightarrow> (\<exists>f as. err = Some (Errorf f as [e])) \<and> s' = s
         | Inr addr \<Rightarrow> (err = None) = graceful \<and> bound_Addr s' = addr \<and> status (gs_health s') svc \<noteq> Some SERVING))"
  using assms(2,3) health_lawsD(2) [OF assms(1)]
  by (simp add: grpc_Run_def grpc_Start_def grpc_Shutdown_def bound_Addr_def Let_def split: sum.split)

theorem grpc_Run_outcome_witness:
  "\<exists>s'. grpc_Run table_lib (Inr ''h:1'') (updateHealth table_lib (\<lambda>_. 0) () (rg_checks sample_registry)) True
        (sample_server\<lparr>gs_listener := None\<rparr>) = (None, s')
     \<and> bound_Addr s' = ''h:1'' \<and> snd (gs_health s') '''' \<noteq> Some SERVING"
proof -
  let ?poll = "updateHealth table_lib (\<lambda>_. 0) () (rg_checks sample_registry)"
  have 1: "gs_listener (sample_server\<lparr>gs_listener := None\<rparr>) = None" by simp
  have 2: "gs_listener (?poll x) = gs_listener x" for x by (simp add: updateHealth_def)
  from grpc_Run_outcome [OF table_laws 1 2, where graceful = True and listen = "Inr ''h:1''" and svc = "''''"] show ?thesis
    by (auto split: prod.splits)
qed

end
