(* ===== verification/HttpServer.thy ===== *)
theory HttpServer
  imports GrpcServer
begin

text \<open>
  The operational HTTP server (\<^verbatim>\<open>src/internal/httpapi/server.go\<close>): routing, the three handlers, the
  status recorder and the lifecycle.  A response is its status, its headers and the value that is
  encoded as JSON; \<open>encodes\<close> says whether encoding and sending the body succeeds, which only the
  log sees.  What \<^verbatim>\<open>net.Listen\<close>, \<^verbatim>\<open>Serve\<close>, \<^verbatim>\<open>Shutdown\<close> and \<^verbatim>\<open>Close\<close> of the standard server return are
  arguments.
\<close>

section \<open>Responses\<close>

record BuildInfo =
  bi_Version :: string
  bi_Commit :: string
  bi_Built :: string

datatype json_body =
    LiveBody string
  | ReadyBody HealthReport
  | VersionBody string Environment BuildInfo
  | ErrorBody string

record response =
  re_status :: int
  re_headers :: "(string \<times> string) list"
  re_body :: "json_body option"

text \<open>\<open>statusRecorder\<close>: the wrapped writer with the recorded status.\<close>

record statusRecorder =
  sr_writer :: response
  sr_status :: int
  sr_wroteHeader :: bool

definition new_recorder :: statusRecorder where
  "new_recorder = \<lparr>sr_writer = \<lparr>re_status = 200, re_headers = [], re_body = None\<rparr>, sr_status = 200, sr_wroteHeader = False\<rparr>"

definition WriteHeader :: "int \<Rightarrow> statusRecorder \<Rightarrow> statusRecorder" where
  "WriteHeader status r =
     (if sr_wroteHeader r then r
      else r\<lparr>sr_wroteHeader := True, sr_status := status, sr_writer := (sr_writer r)\<lparr>re_status := status\<rparr>\<rparr>)"

definition set_header :: "string \<Rightarrow> string \<Rightarrow> statusRecorder \<Rightarrow> statusRecorder" where
  "set_header k v r = r\<lparr>sr_writer := (sr_writer r)\<lparr>re_headers := AList.update k v (re_headers (sr_writer r))\<rparr>\<rparr>"

definition writeJSON :: "bool \<Rightarrow> int \<Rightarrow> json_body \<Rightarrow> statusRecorder \<Rightarrow> statusRecorder" where
  "writeJSON encodes status body w =
     (let w = set_header ''Content-Type'' ''application/json; charset=utf-8'' w;
          w = set_header ''Cache-Control'' ''no-store'' w;
          w = WriteHeader status w in
      if encodes then w\<lparr>sr_writer := (sr_writer w)\<lparr>re_body := Some body\<rparr>\<rparr> else w)"

section \<open>Handlers\<close>

text \<open>The settings of the standard server.\<close>

record http_settings =
  st_ReadTimeout :: int
  st_ReadHeaderTimeout :: int
  st_WriteTimeout :: int
  st_IdleTimeout :: int

record 'w http_server =
  hs_cfg :: HTTP
  hs_http :: http_settings
  hs_app :: App
  hs_health :: "'w Registry"
  hs_build :: BuildInfo
  hs_listener :: "string option"

definition http_New :: "Config \<Rightarrow> 'w Registry \<Rightarrow> BuildInfo \<Rightarrow> 'w http_server" where
  "http_New cfg registry build =
     \<lparr>hs_cfg = cfg_HTTP cfg,
      hs_http = \<lparr>st_ReadTimeout = http_ReadTimeout (cfg_HTTP cfg), st_ReadHeaderTimeout = http_ReadTimeout (cfg_HTTP cfg),
                 st_WriteTimeout = http_WriteTimeout (cfg_HTTP cfg), st_IdleTimeout = http_IdleTimeout (cfg_HTTP cfg)\<rparr>,
      hs_app = cfg_App cfg, hs_health = registry, hs_build = build, hs_listener = None\<rparr>"

text \<open>What a request meets: the state of the dependencies, the order in which the checks finish and
  the time they take; \<open>pb_redirect\<close> is the status of a redirect, which depends on the Go release (301 or 307).\<close>

record 'w probe =
  pb_world :: 'w
  pb_order :: "'w check list"
  pb_elapsed :: "string \<Rightarrow> int"
  pb_encodes :: bool
  pb_redirect :: int

definition handleLive :: "'w probe \<Rightarrow> statusRecorder \<Rightarrow> statusRecorder" where
  "handleLive pr w = writeJSON (pb_encodes pr) 200 (LiveBody ''healthy'') w"

definition handleReady :: "'w http_server \<Rightarrow> 'w probe \<Rightarrow> statusRecorder \<Rightarrow> statusRecorder" where
  "handleReady s pr w =
     (let report = Registry_Check (pb_elapsed pr) (pb_world pr) (pb_order pr) (hs_health s);
          status = (if \<not> HealthReport_Healthy report then 503 else 200) in
      writeJSON (pb_encodes pr) status (ReadyBody report) w)"

definition handleVersion :: "'w http_server \<Rightarrow> 'w probe \<Rightarrow> statusRecorder \<Rightarrow> statusRecorder" where
  "handleVersion s pr w =
     writeJSON (pb_encodes pr) 200 (VersionBody (app_Name (hs_app s)) (app_Environment (hs_app s)) (hs_build s)) w"

section \<open>Routing\<close>

text \<open>\<^verbatim>\<open>http.ServeMux\<close>: the path of a request is cleaned first, and a request with an unclean path is
  redirected to the clean one.  \<^verbatim>\<open>path.Clean\<close> of a rooted path drops empty and \<open>.\<close> elements and lets
  \<open>..\<close> remove the element before it.\<close>

fun clean_elems :: "string list \<Rightarrow> string list \<Rightarrow> string list" where
  "clean_elems acc [] = rev acc"
| "clean_elems acc (e # es) =
     (if e = '''' \<or> e = ''.'' then clean_elems acc es
      else if e = ''..'' then clean_elems (drop 1 acc) es
      else clean_elems (e # acc) es)"

definition cleanPath :: "string \<Rightarrow> string" where
  "cleanPath p =
     (let es = clean_elems [] (Split p CHR ''/'');
          np = (if es = [] then ''/'' else concat (map (\<lambda>e. ''/'' @ e) es)) in
      if p \<noteq> '''' \<and> last p = CHR ''/'' \<and> np \<noteq> ''/'' then np @ ''/'' else np)"

text \<open>\<^verbatim>\<open>http.Error\<close>.\<close>

definition http_Error :: "string \<Rightarrow> int \<Rightarrow> statusRecorder \<Rightarrow> statusRecorder" where
  "http_Error msg code w =
     (let w = set_header ''Content-Type'' ''text/plain; charset=utf-8'' w;
          w = set_header ''X-Content-Type-Options'' ''nosniff'' w;
          w = WriteHeader code w in
      w\<lparr>sr_writer := (sr_writer w)\<lparr>re_body := Some (ErrorBody msg)\<rparr>\<rparr>)"

text \<open>The mux with the three patterns \<^verbatim>\<open>GET /healthz\<close>, \<^verbatim>\<open>GET /readyz\<close> and \<^verbatim>\<open>GET /version\<close>; GET matches HEAD
  too, and a CONNECT request is matched without cleaning.  The body of a redirect is left out.\<close>

definition routes_paths :: "string list" where
  "routes_paths = [''/healthz'', ''/readyz'', ''/version'']"

definition routes :: "'w http_server \<Rightarrow> 'w probe \<Rightarrow> string \<Rightarrow> string \<Rightarrow> statusRecorder \<Rightarrow> statusRecorder" where
  "routes s pr meth p w =
     (if meth \<noteq> ''CONNECT'' \<and> cleanPath p \<noteq> p then WriteHeader (pb_redirect pr) (set_header ''Location'' (cleanPath p) w)
      else if p \<notin> set routes_paths then http_Error ''404 page not found'' 404 w
      else if meth \<noteq> ''GET'' \<and> meth \<noteq> ''HEAD'' then
        http_Error ''Method Not Allowed'' 405 (set_header ''Allow'' ''GET, HEAD'' w)
      else if p = ''/healthz'' then handleLive pr w
      else if p = ''/readyz'' then handleReady s pr w
      else handleVersion s pr w)"

record http_log =
  hl_method :: string
  hl_path :: string
  hl_status :: int

definition withLogging :: "(statusRecorder \<Rightarrow> statusRecorder) \<Rightarrow> string \<Rightarrow> string \<Rightarrow> response \<times> http_log" where
  "withLogging next_handler meth p =
     (let rec = next_handler new_recorder in
      (sr_writer rec, \<lparr>hl_method = meth, hl_path = p, hl_status = sr_status rec\<rparr>))"

definition ServeHTTP :: "'w http_server \<Rightarrow> 'w probe \<Rightarrow> string \<Rightarrow> string \<Rightarrow> response \<times> http_log" where
  "ServeHTTP s pr meth p = withLogging (routes s pr meth p) meth p"

section \<open>Lifecycle\<close>

text \<open>\<^verbatim>\<open>errors.Join\<close>: nil when every argument is.\<close>

definition errors_Join :: "go_error option list \<Rightarrow> go_error option" where
  "errors_Join es = (let xs = concat (map (\<lambda>e. case e of None \<Rightarrow> [] | Some x \<Rightarrow> [x]) es) in
     if xs = [] then None else Some (Errorf '''' [] xs))"

definition http_Start :: "string result \<Rightarrow> 'w http_server \<Rightarrow> go_error option \<times> 'w http_server" where
  "http_Start listen s =
     (case listen of
        Inl err \<Rightarrow> (Some (Errorf ''listen on %s: %w'' [AStr (HTTP_Addr (hs_cfg s))] [err]), s)
      | Inr addr \<Rightarrow> (None, s\<lparr>hs_listener := Some addr\<rparr>))"

definition http_bound_Addr :: "'w http_server \<Rightarrow> string" where
  "http_bound_Addr s = (case hs_listener s of None \<Rightarrow> '''' | Some addr \<Rightarrow> addr)"

text \<open>\<open>serveErr\<close> is what the serving goroutine stored: \<open>None\<close> for a server that was closed.\<close>

definition http_Shutdown ::
  "go_error option \<Rightarrow> go_error option \<Rightarrow> go_error option \<Rightarrow> 'w http_server \<Rightarrow> go_error option" where
  "http_Shutdown shut close serveErr s =
     (if hs_listener s = None then None
      else
        (let shutdownErr = (case shut of
             None \<Rightarrow> None
           | Some e \<Rightarrow>
               let wrapped = Errorf ''graceful shutdown: %w'' [] [e] in
               (case close of
                  None \<Rightarrow> Some wrapped
                | Some c \<Rightarrow> errors_Join [Some wrapped, Some (Errorf ''force close: %w'' [] [c])])) in
         errors_Join [shutdownErr, map_option (\<lambda>e. Errorf ''http server: %w'' [] [e]) serveErr]))"

definition http_Run ::
  "string result \<Rightarrow> go_error option \<Rightarrow> go_error option \<Rightarrow> go_error option \<Rightarrow> 'w http_server \<Rightarrow>
   go_error option \<times> 'w http_server" where
  "http_Run listen shut close serveErr s =
     (case http_Start listen s of
        (Some err, s') \<Rightarrow> (Some err, s')
      | (None, s') \<Rightarrow> (http_Shutdown shut close serveErr s', s'))"

section \<open>Facts\<close>

lemma writeJSON_fresh [simp]:
  "sr_status (writeJSON enc status body new_recorder) = status"
  "re_status (sr_writer (writeJSON enc status body new_recorder)) = status"
  "re_body (sr_writer (writeJSON enc status body new_recorder)) = (if enc then Some body else None)"
  "map_of (re_headers (sr_writer (writeJSON enc status body new_recorder))) ''Cache-Control'' = Some ''no-store''"
  by (simp_all add: writeJSON_def WriteHeader_def set_header_def new_recorder_def Let_def)

lemma errors_Join_None: "errors_Join es = None \<longleftrightarrow> (\<forall>e \<in> set es. e = None)"
  by (auto simp: errors_Join_def Let_def split: option.splits)

lemma clean_routes [simp]:
  "cleanPath ''/healthz'' = ''/healthz''" "cleanPath ''/readyz'' = ''/readyz''" "cleanPath ''/version'' = ''/version''"
  by code_simp+

section \<open>Properties\<close>

text \<open>C33: The two readiness probes agree: over the same dependencies, \<^verbatim>\<open>/readyz\<close> answers 200 exactly when the
  gRPC health service is set to SERVING and 503 otherwise, in whatever order the checks finish.\<close>

theorem probes_agree:
  assumes "distinct (Names reg)" and "mset order = mset (rg_checks reg)" and "mset (pb_order pr) = mset (rg_checks reg)"
    and "hs_health s = reg"
  shows "re_status (fst (ServeHTTP s pr ''GET'' ''/readyz'')) =
    (if serving_status (Some reg) elapsed (pb_world pr) order = SERVING then 200 else 503)"
proof -
  have "HealthReport_Healthy (Registry_Check (pb_elapsed pr) (pb_world pr) (pb_order pr) reg) =
      HealthReport_Healthy (Registry_Check elapsed (pb_world pr) order reg)"
    by (simp add: Check_eq [OF assms(1,2)] Check_eq [OF assms(1,3)] HealthReport_Healthy_def)
  then show ?thesis
    using assms(4)
    by (simp add: ServeHTTP_def withLogging_def routes_def routes_paths_def handleReady_def serving_status_def Let_def)
qed

definition sample_probe :: "unit probe" where
  "sample_probe = \<lparr>pb_world = (), pb_order = rg_checks sample_registry, pb_elapsed = (\<lambda>_. 1), pb_encodes = True, pb_redirect = 307\<rparr>"

definition sample_http :: "unit http_server" where
  "sample_http =
     \<lparr>hs_cfg = \<lparr>http_Host = ''h'', http_Port = 0, http_ReadTimeout = 1, http_WriteTimeout = 1, http_IdleTimeout = 1, http_ShutdownTimeout = 1\<rparr>,
      hs_http = \<lparr>st_ReadTimeout = 1, st_ReadHeaderTimeout = 1, st_WriteTimeout = 1, st_IdleTimeout = 1\<rparr>,
      hs_app = \<lparr>app_Name = ''p'', app_Environment = ''test'', app_LogLevel = ''info'', app_LogFormat = ''json''\<rparr>,
      hs_health = sample_registry, hs_build = \<lparr>bi_Version = ''dev'', bi_Commit = ''none'', bi_Built = ''unknown''\<rparr>,
      hs_listener = None\<rparr>"

theorem probes_agree_witness:
  "re_status (fst (ServeHTTP sample_http sample_probe ''GET'' ''/readyz'')) = 200"
proof -
  have 1: "distinct (Names sample_registry)" by (simp add: Names_def sample_registry_def)
  have 2: "mset (pb_order sample_probe) = mset (rg_checks sample_registry)" by (simp add: sample_probe_def)
  have 3: "hs_health sample_http = sample_registry" by (simp add: sample_http_def)
  have "serving_status (Some sample_registry) (\<lambda>_. 0) () (rg_checks sample_registry) = SERVING" by code_simp
  with probes_agree [OF 1 refl 2 3, of "\<lambda>_. 0"] show ?thesis by (simp add: sample_probe_def)
qed

text \<open>The liveness probe consults no dependency: \<^verbatim>\<open>GET /healthz\<close> is 200 with the same body whatever the
  registry holds; every other path is not found, another method is refused, an unclean path is
  redirected, no probe answer may be cached, and the log records the status that was sent.\<close>

theorem ServeHTTP_routing:
  "fst (ServeHTTP s pr ''GET'' ''/healthz'') = fst (ServeHTTP s' (pr\<lparr>pb_world := w, pb_order := order\<rparr>) ''GET'' ''/healthz'')
   \<and> re_status (fst (ServeHTTP s pr ''GET'' ''/healthz'')) = 200
   \<and> map_of (re_headers (fst (ServeHTTP s pr ''GET'' ''/readyz''))) ''Cache-Control'' = Some ''no-store''
   \<and> re_status (fst (ServeHTTP s pr ''POST'' ''/readyz'')) = 405
   \<and> re_status (fst (ServeHTTP s pr meth ''/healthz/'')) = 404
   \<and> re_status (fst (ServeHTTP s pr ''GET'' ''/x/../healthz'')) = pb_redirect pr
   \<and> hl_status (snd (ServeHTTP s pr meth p)) = re_status (fst (ServeHTTP s pr meth p))"
proof -
  have clean: "cleanPath ''/healthz/'' = ''/healthz/''" "cleanPath ''/x/../healthz'' = ''/healthz''" by code_simp+
  have "sr_status (routes s pr meth p new_recorder) = re_status (sr_writer (routes s pr meth p new_recorder))"
    by (simp add: routes_def handleLive_def handleReady_def handleVersion_def Let_def)
      (simp add: http_Error_def WriteHeader_def set_header_def new_recorder_def Let_def)
  moreover have "re_status (sr_writer (WriteHeader st (set_header k v new_recorder))) = st"
    "re_status (sr_writer (http_Error msg st (set_header k v new_recorder))) = st"
    "re_status (sr_writer (http_Error msg st new_recorder)) = st" for st k v msg
    by (simp_all add: http_Error_def Let_def WriteHeader_def set_header_def new_recorder_def)
  ultimately show ?thesis
    by (simp add: ServeHTTP_def withLogging_def routes_def routes_paths_def handleLive_def handleReady_def clean Let_def)
qed

text \<open>The lifecycle reports every failure once: \<^verbatim>\<open>Run\<close> returns nil exactly when the listener was bound,
  the drain fitted its budget and serving ended by the shutdown; a failed bind changes nothing,
  and \<^verbatim>\<open>Shutdown\<close> of a server that was never started is nil.\<close>

theorem http_Run_outcome:
  "(case http_Run listen shut close serveErr s of (err, s') \<Rightarrow>
      (case listen of
         Inl e \<Rightarrow> (\<exists>f as. err = Some (Errorf f as [e])) \<and> s' = s
       | Inr addr \<Rightarrow> (err = None \<longleftrightarrow> shut = None \<and> serveErr = None) \<and> http_bound_Addr s' = addr))
   \<and> http_Shutdown shut close serveErr (s\<lparr>hs_listener := None\<rparr>) = None"
  by (auto simp: http_Run_def http_Start_def http_Shutdown_def http_bound_Addr_def errors_Join_None Let_def split: sum.split option.split)

end
