(* ===== verification/Bootstrap.thy ===== *)
theory Bootstrap
  imports HttpServer IdemStore
begin

text \<open>
  Start-up: the connection pool (\<^verbatim>\<open>src/internal/database\<close>), the Redis client
  (\<^verbatim>\<open>src/internal/redisclient\<close>), the verifier built from configuration
  (\<^verbatim>\<open>src/internal/auth/loader.go\<close>), the health registry and the main function of the API
  (\<^verbatim>\<open>src/cmd/api\<close>).  The pgx and go-redis packages and the file system are arguments; log lines
  are left out.
\<close>

section \<open>PostgreSQL pool\<close>

record pool_config =
  pc_MaxConns :: int
  pc_MaxConnLifetime :: int
  pc_ConnectTimeout :: int
  pc_application_name :: string

record 'p pgxpool =
  pgx_ParseConfig :: "string \<Rightarrow> pool_config result"
  pgx_NewWithConfig :: "pool_config \<Rightarrow> 'p result"

record 'p DB =
  db_pool :: 'p
  db_connectTimeout :: int
  db_redactedDSN :: string

text \<open>The conversion \<^verbatim>\<open>int32(n)\<close>.\<close>

definition to_int32 :: "int \<Rightarrow> int" where
  "to_int32 n = sint (word_of_int n :: 32 word)"

definition pool_settings :: "Config \<Rightarrow> pool_config \<Rightarrow> pool_config" where
  "pool_settings cfg pc =
     pc\<lparr>pc_MaxConns := to_int32 (pg_MaxOpenConns (cfg_Postgres cfg)),
        pc_MaxConnLifetime := pg_ConnMaxLifetime (cfg_Postgres cfg),
        pc_ConnectTimeout := pg_ConnectTimeout (cfg_Postgres cfg),
        pc_application_name := app_Name (cfg_App cfg)\<rparr>"

definition database_New :: "'p pgxpool \<Rightarrow> Config \<Rightarrow> 'p DB result" where
  "database_New lib cfg =
     (case pgx_ParseConfig lib (DSN (cfg_Postgres cfg)) of
        Inl err \<Rightarrow> Inl (Errorf ''invalid postgres configuration %s: %w'' [AStr (RedactedDSN (cfg_Postgres cfg))] [err])
      | Inr pc \<Rightarrow>
          (case pgx_NewWithConfig lib (pool_settings cfg pc) of
             Inl err \<Rightarrow> Inl (Errorf ''create postgres pool: %w'' [] [err])
           | Inr pool \<Rightarrow> Inr \<lparr>db_pool = pool, db_connectTimeout = pg_ConnectTimeout (cfg_Postgres cfg),
                              db_redactedDSN = RedactedDSN (cfg_Postgres cfg)\<rparr>))"

text \<open>\<open>ping\<close> is what the round trip returns.\<close>

definition database_Verify :: "go_error option \<Rightarrow> 'p DB \<Rightarrow> go_error option" where
  "database_Verify ping db =
     (case ping of
        None \<Rightarrow> None
      | Some err \<Rightarrow> Some (Errorf ''postgres at %s did not respond within %s: %w''
                           [AStr (db_redactedDSN db), AInt (db_connectTimeout db)] [err]))"

definition database_Ping :: "go_error option \<Rightarrow> go_error option" where
  "database_Ping ping = (case ping of None \<Rightarrow> None | Some err \<Rightarrow> Some (Errorf ''postgres unreachable: %w'' [] [err]))"

section \<open>Redis client\<close>

record redis_options =
  ro_Addr :: string
  ro_Password :: string
  ro_DB :: int
  ro_DialTimeout :: int
  ro_ReadTimeout :: int
  ro_WriteTimeout :: int

definition redis_New :: "Config \<Rightarrow> redis_options" where
  "redis_New cfg =
     \<lparr>ro_Addr = redis_Addr (cfg_Redis cfg), ro_Password = redis_Password (cfg_Redis cfg), ro_DB = redis_DB (cfg_Redis cfg),
      ro_DialTimeout = redis_DialTimeout (cfg_Redis cfg), ro_ReadTimeout = redis_CommandTimeout (cfg_Redis cfg),
      ro_WriteTimeout = redis_CommandTimeout (cfg_Redis cfg)\<rparr>"

definition redis_Verify :: "go_error option \<Rightarrow> string \<Rightarrow> go_error option" where
  "redis_Verify ping addr =
     (case ping of None \<Rightarrow> None | Some err \<Rightarrow> Some (Errorf ''redis at %s did not respond: %w'' [AStr addr] [err]))"

definition NewStore :: "'r redis_client option \<Rightarrow> Config \<Rightarrow> 'r Store" where
  "NewStore client cfg =
     \<lparr>s_client = client, s_ttl = idem_TTL (cfg_Idempotency cfg), s_processingTTL = idem_ProcessingTTL (cfg_Idempotency cfg)\<rparr>"

section \<open>Verifier from configuration\<close>

definition VerifierFromConfig :: "crypto \<Rightarrow> (string \<Rightarrow> string result) \<Rightarrow> Config \<Rightarrow> Verifier option result" where
  "VerifierFromConfig lib readFile cfg =
     (let jwt = cfg_JWT cfg;
          build = (\<lambda>pem.
            if TrimSpace pem = '''' \<and> jwt_Issuer jwt = '''' \<and> jwt_Audience jwt = '''' then Inr None
            else (case NewVerifier lib \<lparr>vc_PublicKeyPEM = pem, vc_Issuer = jwt_Issuer jwt, vc_Audience = jwt_Audience jwt,
                          vc_Leeway = jwt_Leeway jwt\<rparr> of
                    Inl err \<Rightarrow> Inl err | Inr v \<Rightarrow> Inr (Some v))) in
      if jwt_PublicKeyFile jwt \<noteq> '''' then
        (case readFile (jwt_PublicKeyFile jwt) of
           Inl err \<Rightarrow> Inl (Errorf ''auth: reading JWT_PUBLIC_KEY_FILE %s: %w'' [AStr (jwt_PublicKeyFile jwt)] [err])
         | Inr raw \<Rightarrow> build raw)
      else build (jwt_PublicKeyPEM jwt))"

section \<open>The main function\<close>

datatype slog_level = SlogDebug | SlogInfo | SlogWarn | SlogError

definition parseLevel :: "string \<Rightarrow> slog_level" where
  "parseLevel level =
     (if level = ''debug'' then SlogDebug else if level = ''warn'' then SlogWarn
      else if level = ''error'' then SlogError else SlogInfo)"

datatype slog_handler = TextHandler slog_level | JSONHandler slog_level

definition newLogger :: "App \<Rightarrow> slog_handler \<times> (string \<times> string) list" where
  "newLogger app =
     ((if app_LogFormat app = ''text'' then TextHandler (parseLevel (app_LogLevel app)) else JSONHandler (parseLevel (app_LogLevel app))),
      [(''service'', app_Name app), (''env'', app_Environment app)])"

text \<open>A check fails with the text of its error; \<open>w\<close> gives the outcome of the two round trips.\<close>

record world =
  wd_postgres :: "go_error option"
  wd_redis :: "go_error option"

definition as_outcome :: "(go_error \<Rightarrow> string) \<Rightarrow> go_error option \<Rightarrow> outcome" where
  "as_outcome render e = (case e of None \<Rightarrow> Passes | Some err \<Rightarrow> Fails (render err))"

definition store_check :: "go_error option \<Rightarrow> go_error option" where
  "store_check ping = map_option unavailable ping"

definition api_registry :: "(go_error \<Rightarrow> string) \<Rightarrow> world Registry" where
  "api_registry render =
     the (RegisterOptional ''redis'' (Some (\<lambda>w. as_outcome render (store_check (wd_redis w))))
       (the (Register ''postgres'' (Some (\<lambda>w. as_outcome render (database_Ping (wd_postgres w)))) (Registry_New DefaultTimeout))))"

text \<open>How the two servers end: the results of \<^verbatim>\<open>Run\<close> and which of them is reported first.\<close>

record server_ends =
  se_grpc :: "go_error option"
  se_http :: "go_error option"
  se_grpc_first :: bool

definition server_errors :: "server_ends \<Rightarrow> go_error list" where
  "server_errors e =
     (let g = (case se_grpc e of None \<Rightarrow> [] | Some err \<Rightarrow> [Errorf ''grpc server: %w'' [] [err]]);
          h = (case se_http e of None \<Rightarrow> [] | Some err \<Rightarrow> [Errorf ''http server: %w'' [] [err]]) in
      if se_grpc_first e then g @ h else h @ g)"

text \<open>What the process meets: the loaded configuration, the libraries, the round trips at start-up, and
  how the listeners, the serving loops and the drains of the two servers end.  The reachability
  checks at start-up only log, so their results do not appear in the result.\<close>

record ('p, 'h) api_env =
  ap_loaded :: "Config result"
  ap_pgx :: "'p pgxpool"
  ap_pg_ping :: "go_error option"
  ap_redis_ping :: "go_error option"
  ap_crypto :: crypto
  ap_readFile :: "string \<Rightarrow> string result"
  ap_render :: "go_error \<Rightarrow> string"
  ap_build :: BuildInfo
  ap_health_lib :: "'h health_lib"
  ap_health :: 'h
  ap_grpc_listen :: "string result"
  ap_grpc_serving :: "('h, world) grpc_server \<Rightarrow> ('h, world) grpc_server"
  ap_graceful :: bool
  ap_http_listen :: "string result"
  ap_http_shutdown :: "go_error option"
  ap_http_close :: "go_error option"
  ap_http_serve :: "go_error option"
  ap_grpc_first :: bool

definition run_servers :: "('p, 'h) api_env \<Rightarrow> Config \<Rightarrow> server_ends" where
  "run_servers env cfg =
     (let registry = api_registry (ap_render env);
          grpcServer = grpc_New cfg (ap_health env) (Some registry);
          httpServer = http_New cfg registry (ap_build env) in
      \<lparr>se_grpc = fst (grpc_Run (ap_health_lib env) (ap_grpc_listen env) (ap_grpc_serving env) (ap_graceful env) grpcServer),
       se_http = fst (http_Run (ap_http_listen env) (ap_http_shutdown env) (ap_http_close env) (ap_http_serve env) httpServer),
       se_grpc_first = ap_grpc_first env\<rparr>)"

definition api_run :: "('p, 'h) api_env \<Rightarrow> go_error option" where
  "api_run env =
     (case ap_loaded env of
        Inl err \<Rightarrow> Some err
      | Inr cfg \<Rightarrow>
          (case database_New (ap_pgx env) cfg of
             Inl err \<Rightarrow> Some err
           | Inr db \<Rightarrow>
               (let _ = database_Verify (ap_pg_ping env) db; _ = redis_Verify (ap_redis_ping env) (ro_Addr (redis_New cfg)) in
                case VerifierFromConfig (ap_crypto env) (ap_readFile env) cfg of
                  Inl err \<Rightarrow> Some err
                | Inr verifier \<Rightarrow> (case server_errors (run_servers env cfg) of [] \<Rightarrow> None | err # _ \<Rightarrow> Some err))))"

section \<open>Facts\<close>

text \<open>The check of Redis is \<open>Store_Ping\<close> of the store, whose client answers the round trip with \<open>wd_redis\<close>.\<close>

lemma Store_Ping_check: "store_client s = Some (st, c) \<Longrightarrow> fst (Store_Ping s r) = store_check (fst (rc_Ping c r))"
  by (auto simp: Store_Ping_def store_check_def split: prod.split option.split)

lemma to_int32_id: "- (2 ^ 31) \<le> n \<Longrightarrow> n < 2 ^ 31 \<Longrightarrow> to_int32 n = n"
  by (simp add: to_int32_def sint_sbintrunc' signed_take_bit_int_eq_self)

lemma api_registry_checks:
  "Names (api_registry render) = [''postgres'', ''redis'']"
  "map ck_required (rg_checks (api_registry render)) = [True, False]"
  by (simp_all add: api_registry_def Register_def RegisterOptional_def register_def Registry_New_def Names_def)

section \<open>Properties\<close>

text \<open>C34: The assembled service is ready exactly when PostgreSQL answers: \<^verbatim>\<open>/readyz\<close> is 200 then and 503
  otherwise, whatever Redis does; an unreachable Redis only marks the report as degraded.\<close>

theorem service_readiness:
  assumes "mset (pb_order pr) = mset (rg_checks (api_registry render))" and "hs_health s = api_registry render"
  shows "re_status (fst (ServeHTTP s pr ''GET'' ''/readyz'')) = (if wd_postgres (pb_world pr) = None then 200 else 503)
    \<and> ht_Degraded (Registry_Check (pb_elapsed pr) (pb_world pr) (pb_order pr) (hs_health s)) = (wd_redis (pb_world pr) \<noteq> None)"
proof -
  have "distinct (Names (api_registry render))" by (simp add: api_registry_checks)
  note eq = Check_eq [OF this assms(1)]
  have "as_outcome render e = Passes \<longleftrightarrow> e = None" "database_Ping e = None \<longleftrightarrow> e = None" "store_check e = None \<longleftrightarrow> e = None" for e
    by (auto simp: as_outcome_def database_Ping_def store_check_def split: option.splits)
  then show ?thesis
    by (simp add: ServeHTTP_def withLogging_def routes_def routes_paths_def handleReady_def assms(2) eq
        HealthReport_Healthy_def check_fails_def Let_def)
      (simp add: api_registry_def Register_def RegisterOptional_def register_def Registry_New_def)
qed

definition api_probe :: "world probe" where
  "api_probe = \<lparr>pb_world = \<lparr>wd_postgres = None, wd_redis = Some (LibError ''refused'')\<rparr>,
     pb_order = rev (rg_checks (api_registry (\<lambda>_. ''down''))), pb_elapsed = (\<lambda>_. 1), pb_encodes = True, pb_redirect = 307\<rparr>"

theorem service_readiness_witness:
  "re_status (fst (ServeHTTP (http_New sample_config (api_registry (\<lambda>_. ''down'')) \<lparr>bi_Version = ''dev'', bi_Commit = ''none'', bi_Built = ''unknown''\<rparr>)
     api_probe ''GET'' ''/readyz'')) = 200"
proof -
  let ?s = "http_New sample_config (api_registry (\<lambda>_. ''down'')) \<lparr>bi_Version = ''dev'', bi_Commit = ''none'', bi_Built = ''unknown''\<rparr>"
  have 1: "mset (pb_order api_probe) = mset (rg_checks (api_registry (\<lambda>_. ''down'')))" by (simp add: api_probe_def)
  have 2: "hs_health ?s = api_registry (\<lambda>_. ''down'')" by (simp add: http_New_def)
  from service_readiness [OF 1 2] show ?thesis by (simp add: api_probe_def)
qed

text \<open>C35: A production process never runs without authentication: with a configuration that loaded in
  production, \<^verbatim>\<open>VerifierFromConfig\<close> fails or builds a verifier for the configured issuer and audience
  that accepts RS256 only and requires an expiry; it never gives the nil verifier.\<close>

theorem VerifierFromConfig_production:
  assumes "load std lookup = Inr cfg" and "IsProduction (app_Environment (cfg_App cfg))"
  shows "case VerifierFromConfig lib readFile cfg of
      Inl err \<Rightarrow> True
    | Inr None \<Rightarrow> False
    | Inr (Some v) \<Rightarrow> v_issuer v = jwt_Issuer (cfg_JWT cfg) \<and> v_audience v = jwt_Audience (cfg_JWT cfg)
        \<and> po_ValidMethods (v_parser v) = [''RS256''] \<and> po_ExpirationRequired (v_parser v)"
proof -
  have "jwt_Issuer (cfg_JWT cfg) \<noteq> ''''"
    using load_Inr [OF assms(1)] assms(2) by (simp add: validate_def Let_def)
  then show ?thesis
    by (auto simp: VerifierFromConfig_def NewVerifier_def Let_def split: sum.splits option.splits if_splits)
qed

theorem VerifierFromConfig_production_witness:
  "\<exists>cfg. load sample_std production_env = Inr cfg
     \<and> VerifierFromConfig sample_crypto (\<lambda>path. Inr '''') cfg \<noteq> Inr None"
proof -
  obtain cfg where cfg: "load sample_std production_env = Inr cfg" "IsProduction (app_Environment (cfg_App cfg))"
    using load_sample by blast
  from VerifierFromConfig_production [OF this, of sample_crypto "\<lambda>path. Inr ''''"] cfg(1) show ?thesis
    by (auto split: sum.splits option.splits)
qed

text \<open>\<^verbatim>\<open>run\<close> returns nil exactly when the configuration loads, the pool and the verifier can be built,
  both listeners are bound, both drains fit their budget and the HTTP server did not fail while serving;
  a PostgreSQL or Redis that does not answer at start-up is not fatal, and neither is a gRPC server that
  stops serving.\<close>

lemma grpc_Run_started_None:
  assumes "\<And>x. gs_listener (serving x) = gs_listener x"
  shows "fst (grpc_Run lib listen serving graceful (grpc_New cfg h reg)) = None \<longleftrightarrow> \<not> isl listen \<and> graceful"
  using assms by (auto simp: grpc_Run_def grpc_Start_def grpc_Shutdown_def Let_def split: sum.split)

lemma http_Run_started_None:
  "fst (http_Run listen shut close serveErr s) = None \<longleftrightarrow> \<not> isl listen \<and> shut = None \<and> serveErr = None"
  by (auto simp: http_Run_def http_Start_def http_Shutdown_def errors_Join_None Let_def split: sum.split option.split)

lemma server_errors_Nil: "server_errors e = [] \<longleftrightarrow> se_grpc e = None \<and> se_http e = None"
  by (auto simp: server_errors_def Let_def split: option.splits)

theorem api_run_outcome:
  assumes "\<And>x. gs_listener (ap_grpc_serving env x) = gs_listener x"
  shows "api_run env = None \<longleftrightarrow>
    (\<exists>cfg db v. ap_loaded env = Inr cfg \<and> database_New (ap_pgx env) cfg = Inr db
       \<and> VerifierFromConfig (ap_crypto env) (ap_readFile env) cfg = Inr v)
    \<and> \<not> isl (ap_grpc_listen env) \<and> ap_graceful env
    \<and> \<not> isl (ap_http_listen env) \<and> ap_http_shutdown env = None \<and> ap_http_serve env = None"
proof -
  have "server_errors (run_servers env cfg) = [] \<longleftrightarrow> \<not> isl (ap_grpc_listen env) \<and> ap_graceful env
    \<and> \<not> isl (ap_http_listen env) \<and> ap_http_shutdown env = None \<and> ap_http_serve env = None" for cfg
    by (auto simp: server_errors_Nil run_servers_def grpc_Run_started_None [OF assms] http_Run_started_None Let_def)
  moreover have "(case xs of [] \<Rightarrow> None | err # _ \<Rightarrow> Some err) = None \<longleftrightarrow> xs = []" for xs :: "go_error list"
    by (cases xs) simp_all
  ultimately show ?thesis by (auto simp: api_run_def Let_def split: sum.splits)
qed

text \<open>The pool limit survives its conversion to 32 bits for every limit below 2^31, so a loaded
  configuration gives a pool of at least one connection; the handle keeps only the redacted form of
  the connection string and a positive connect timeout.\<close>

theorem database_New_pool:
  assumes "load std lookup = Inr cfg" and "pg_MaxOpenConns (cfg_Postgres cfg) < 2 ^ 31"
    and "pgx_ParseConfig lib (DSN (cfg_Postgres cfg)) = Inr pc"
  shows "pc_MaxConns (pool_settings cfg pc) = pg_MaxOpenConns (cfg_Postgres cfg) \<and> 1 \<le> pc_MaxConns (pool_settings cfg pc)
    \<and> (case database_New lib cfg of
         Inl err \<Rightarrow> (\<exists>e. pgx_NewWithConfig lib (pool_settings cfg pc) = Inl e)
       | Inr db \<Rightarrow> db_redactedDSN db = RedactedDSN (cfg_Postgres cfg) \<and> 0 < db_connectTimeout db)"
proof -
  have "1 \<le> pg_MaxOpenConns (cfg_Postgres cfg)" "0 < pg_ConnectTimeout (cfg_Postgres cfg)"
    using load_Inr [OF assms(1)] by (simp_all add: validate_def Let_def)
  with assms(2) to_int32_id [of "pg_MaxOpenConns (cfg_Postgres cfg)"] show ?thesis
    by (simp add: pool_settings_def database_New_def assms(3) split: sum.split)
qed

definition sample_pgx :: "string pgxpool" where
  "sample_pgx = \<lparr>pgx_ParseConfig = (\<lambda>dsn. Inr \<lparr>pc_MaxConns = 4, pc_MaxConnLifetime = 0, pc_ConnectTimeout = 0, pc_application_name = ''''\<rparr>),
     pgx_NewWithConfig = (\<lambda>pc. if pc_MaxConns pc < 1 then Inl (LibError ''MaxSize must be >= 1'') else Inr (pc_application_name pc))\<rparr>"

theorem database_New_pool_witness:
  "\<exists>cfg db. load sample_std production_env = Inr cfg \<and> database_New sample_pgx cfg = Inr db \<and> 0 < db_connectTimeout db"
proof -
  obtain cfg where cfg: "load sample_std production_env = Inr cfg" using load_sample by blast
  have "case load sample_std production_env of Inr cfg \<Rightarrow> pg_MaxOpenConns (cfg_Postgres cfg) = 25 | Inl _ \<Rightarrow> False" by code_simp
  with cfg have conns: "pg_MaxOpenConns (cfg_Postgres cfg) < 2 ^ 31" by simp
  obtain pc where pc: "pgx_ParseConfig sample_pgx (DSN (cfg_Postgres cfg)) = Inr pc" by (simp add: sample_pgx_def)
  note pool = database_New_pool [OF cfg conns pc]
  then have "\<not> (\<exists>e. pgx_NewWithConfig sample_pgx (pool_settings cfg pc) = Inl e)" by (simp add: sample_pgx_def)
  with pool cfg show ?thesis by (auto split: sum.splits)
qed

text \<open>A limit of 2^31 passes validation and becomes negative.\<close>

lemma to_int32_wraps: "to_int32 (2 ^ 31) = - (2 ^ 31)"
  by (simp add: to_int32_def)

end
