(* ===== verification/Stress.thy ===== *)
theory Stress
  imports System Bootstrap Samples
begin

text \<open>
  The load generator (\<^verbatim>\<open>src/cmd/stress\<close>): the workload of a scenario, the accounting of the outcomes and
  the verdict of a run.  The workers run concurrently, but an attempt either commits or leaves no
  trace, so the model takes them in the order in which their calls end; that order (a permutation of
  the commands), like the environments of the attempts, is an argument.  The texts the Go runtime and the clock
  give are arguments; reading flags is left out.
\<close>

section \<open>Options and results\<close>

record options =
  op_scenario :: string
  op_attempts :: int
  op_concurrency :: int
  op_amount :: int
  op_currency :: string
  op_fund :: int
  op_accounts :: int
  op_source :: string
  op_destination :: string
  op_asJSON :: bool

datatype problem = UnexpectedFailure go_error | Reported line | TotalsChanged int int

text \<open>\<open>Env\<close>: where the numbers came from.\<close>

record Env =
  ev_GoVersion :: string
  ev_OSArch :: string
  ev_CPUs :: int
  ev_PostgresVersion :: string
  ev_StartedAt :: string
  ev_PoolMaxConns :: int
  ev_IsolationLevel :: string
  ev_LockOrderStrategy :: string

record StressResult =
  sx_Scenario :: string
  sx_Attempts :: nat
  sx_Concurrency :: int
  sx_AmountMinor :: int
  sx_Currency :: string
  sx_Successful :: nat
  sx_InsufficientFunds :: nat
  sx_ExhaustedRetries :: nat
  sx_UnexpectedFailures :: nat
  sx_SerializationRetries :: int
  sx_DeadlockRetries :: int
  sx_TotalAttempts :: int
  sx_MaxAttemptsForOne :: int
  sx_RetryBudget :: int
  sx_NegativeBalances :: nat
  sx_LedgerInvariantViolations :: nat
  sx_ConservationHeld :: bool
  sx_ReconciliationOK :: bool
  sx_TotalBalanceBefore :: int
  sx_TotalBalanceAfter :: int
  sx_BalancesBefore :: "(uuid \<times> int) list"
  sx_BalancesAfter :: "(uuid \<times> int) list"
  sx_CompletedTransfers :: nat
  sx_PendingTransfers :: nat
  sx_LedgerEntries :: nat
  sx_DurationMS :: int
  sx_Problems :: "problem list"
  sx_Environment :: Env

definition Result_OK :: "StressResult \<Rightarrow> bool" where
  "Result_OK r \<longleftrightarrow> sx_NegativeBalances r = 0 \<and> sx_LedgerInvariantViolations r = 0 \<and> sx_ConservationHeld r
     \<and> sx_ReconciliationOK r \<and> sx_UnexpectedFailures r = 0"

section \<open>The workload\<close>

definition newCmd :: "options \<Rightarrow> Currency \<Rightarrow> uuid \<Rightarrow> uuid \<Rightarrow> Command" where
  "newCmd opt currency from to =
     \<lparr>c_SourceAccountID = from, c_DestinationAccountID = to, c_AmountMinor = op_amount opt, c_Currency = currency\<rparr>"

text \<open>\<open>None\<close> is the panic of an index or a division out of range.\<close>

definition buildCommands :: "options \<Rightarrow> Currency \<Rightarrow> uuid list \<Rightarrow> Command list option" where
  "buildCommands opt currency accts =
     (let n = length accts; count = nat (op_attempts opt) in
      if count = 0 then Some []
      else if op_scenario opt = ''ring'' then
        (if n = 0 then None
         else Some (map (\<lambda>i. newCmd opt currency (accts ! (i mod n)) (accts ! ((i + 1) mod n))) [0..<count]))
      else if n < 2 then None
      else if op_scenario opt = ''opposing'' then
        Some (map (\<lambda>i. if i mod 2 = 0 then newCmd opt currency (accts ! 0) (accts ! 1)
                        else newCmd opt currency (accts ! 1) (accts ! 0)) [0..<count])
      else Some (map (\<lambda>_. newCmd opt currency (accts ! 0) (accts ! 1)) [0..<count]))"

section \<open>Execution\<close>

definition record_outcome :: "Transfer result \<Rightarrow> Attempts \<Rightarrow> StressResult \<Rightarrow> StressResult" where
  "record_outcome out a r =
     (let r = r\<lparr>sx_TotalAttempts := sx_TotalAttempts r + at_Total a,
                sx_SerializationRetries := sx_SerializationRetries r + at_SerializationFailures a,
                sx_DeadlockRetries := sx_DeadlockRetries r + at_Deadlocks a,
                sx_MaxAttemptsForOne := max (sx_MaxAttemptsForOne r) (at_Total a)\<rparr> in
      case out of
        Inr _ \<Rightarrow> r\<lparr>sx_Successful := sx_Successful r + 1\<rparr>
      | Inl err \<Rightarrow>
          if errors_is err transfer_ErrInsufficientFunds then r\<lparr>sx_InsufficientFunds := sx_InsufficientFunds r + 1\<rparr>
          else if errors_is err transfer_ErrRetriesExhausted then r\<lparr>sx_ExhaustedRetries := sx_ExhaustedRetries r + 1\<rparr>
          else
            (let r = r\<lparr>sx_UnexpectedFailures := sx_UnexpectedFailures r + 1\<rparr> in
             if length (sx_Problems r) < 10 then r\<lparr>sx_Problems := sx_Problems r @ [UnexpectedFailure err]\<rparr> else r))"

type_synonym runs = "((int \<Rightarrow> attempt_env) \<times> Command) list"

fun run_all :: "RetryPolicy \<Rightarrow> runs \<Rightarrow> StressResult \<Rightarrow> db \<Rightarrow> StressResult \<times> db" where
  "run_all p [] r d = (r, d)"
| "run_all p ((env, cmd) # rest) r d =
     (case PostWithAttempts p env cmd d of (out, a, d') \<Rightarrow> run_all p rest (record_outcome out a r) d')"

text \<open>\<open>ms\<close> is the time the workers took.\<close>

definition execute :: "RetryPolicy \<Rightarrow> int \<Rightarrow> runs \<Rightarrow> StressResult \<Rightarrow> db \<Rightarrow> StressResult \<times> db" where
  "execute p ms runs r d = (case run_all p runs r d of (r', d') \<Rightarrow> (r'\<lparr>sx_DurationMS := ms\<rparr>, d'))"

section \<open>Setting up and reading accounts\<close>

text \<open>What creating and funding the \<open>i\<close>-th account meets.\<close>

record setup_env =
  su_create :: "nat \<Rightarrow> fault"
  su_fund :: "nat \<Rightarrow> fault"
  su_id :: "nat \<Rightarrow> uuid"
  su_now :: int

definition fund_account :: "fault \<Rightarrow> int \<Rightarrow> int \<Rightarrow> uuid \<Rightarrow> db \<Rightarrow> go_error option \<times> db" where
  "fund_account flt funding now i d =
     (let failed = (\<lambda>err. Some (Errorf ''funding account %s: %w'' [AUuid i] [err])) in
      case flt of
        Fault err \<Rightarrow> (failed err, d)
      | _ \<Rightarrow>
          (case sql_update_balances (\<lambda>a. a_ID a = i) funding now (begin_tx d) of
             Inl err \<Rightarrow> (failed err, d)
           | Inr (n, tx) \<Rightarrow> (case flt of LostAck err \<Rightarrow> (failed err, tx_db tx) | _ \<Rightarrow> (None, tx_db tx))))"

fun create_accounts :: "setup_env \<Rightarrow> Currency \<Rightarrow> int \<Rightarrow> nat list \<Rightarrow> uuid list \<Rightarrow> db \<Rightarrow> uuid list result \<times> db" where
  "create_accounts env currency funding [] ids d = (Inr ids, d)"
| "create_accounts env currency funding (i # is) ids d =
     (case Account_Create (su_create env i) (su_id env i) (su_now env) currency d of
        (Inl err, d1) \<Rightarrow> (Inl (Errorf ''creating account: %w'' [] [err]), d1)
      | (Inr acct, d1) \<Rightarrow>
          if funding > 0 then
            (case fund_account (su_fund env i) funding (su_now env) (a_ID acct) d1 of
               (Some err, d2) \<Rightarrow> (Inl err, d2)
             | (None, d2) \<Rightarrow> create_accounts env currency funding is (ids @ [a_ID acct]) d2)
          else create_accounts env currency funding is (ids @ [a_ID acct]) d1)"

definition setupAccounts ::
  "(string \<Rightarrow> uuid result) \<Rightarrow> setup_env \<Rightarrow> options \<Rightarrow> Currency \<Rightarrow> db \<Rightarrow> uuid list result \<times> db" where
  "setupAccounts parse env opt currency d =
     (if op_source opt \<noteq> '''' \<or> op_destination opt \<noteq> '''' then
        (case parse (op_source opt) of
           Inl err \<Rightarrow> (Inl (Errorf ''-source: %w'' [] [err]), d)
         | Inr src \<Rightarrow>
             (case parse (op_destination opt) of
                Inl err \<Rightarrow> (Inl (Errorf ''-destination: %w'' [] [err]), d)
              | Inr dst \<Rightarrow> (Inr [src, dst], d)))
      else
        (let count = (if op_scenario opt = ''ring'' then op_accounts opt else 2);
             funding = (if op_fund opt = 0 then wrap64 (op_attempts opt * op_amount opt) else op_fund opt) in
         if op_scenario opt = ''ring'' \<and> count < 2 then
           (Inl (ErrorsNew ''-accounts must be at least 2 for the ring scenario''), d)
         else create_accounts env currency funding [0..<nat count] [] d))"

fun read_each :: "(uuid \<Rightarrow> go_error option) \<Rightarrow> uuid list \<Rightarrow> db \<Rightarrow> (uuid \<times> int) list \<Rightarrow> (uuid \<times> int) list result" where
  "read_each flt [] d balances = Inr balances"
| "read_each flt (i # is) d balances =
     (case Account_Get (flt i) i d of
        Inl err \<Rightarrow> Inl (Errorf ''reading account %s: %w'' [AUuid i] [err])
      | Inr a \<Rightarrow> read_each flt is d (AList.update i (a_BalanceMinor a) balances))"

definition readBalances ::
  "(uuid \<Rightarrow> go_error option) \<Rightarrow> go_error option \<Rightarrow> uuid list \<Rightarrow> db \<Rightarrow> ((uuid \<times> int) list \<times> int) result" where
  "readBalances flt sum_flt ids d =
     (case read_each flt ids d [] of
        Inl err \<Rightarrow> Inl err
      | Inr balances \<Rightarrow>
          (let failed = (\<lambda>err. Inl (Errorf ''summing balances: %w'' [] [err])) in
           case sum_flt of
             Some err \<Rightarrow> failed err
           | None \<Rightarrow> if in_int64 (total_balance d) then Inr (balances, total_balance d) else failed scan_error))"

section \<open>Reporting\<close>

text \<open>What the runtime, the server and the clock say; a failed query gives \<open>None\<close>.\<close>

record machine =
  mn_GoVersion :: string
  mn_OSArch :: string
  mn_CPUs :: int
  mn_server_version :: "string option"
  mn_started :: string

definition describeEnv :: "machine \<Rightarrow> Config \<Rightarrow> Env" where
  "describeEnv m cfg =
     \<lparr>ev_GoVersion = mn_GoVersion m, ev_OSArch = mn_OSArch m, ev_CPUs = mn_CPUs m,
      ev_PostgresVersion = (case mn_server_version m of None \<Rightarrow> ''unknown'' | Some v \<Rightarrow> v), ev_StartedAt = mn_started m,
      ev_PoolMaxConns = pg_MaxOpenConns (cfg_Postgres cfg), ev_IsolationLevel = ''SERIALIZABLE'',
      ev_LockOrderStrategy = ''canonical UUID order, lowest first''\<rparr>"

datatype stress_line = Line string "fmt_arg list" | ProblemLine problem

text \<open>\<open>json\<close> is the result of encoding as JSON; the map of balances is printed in the order \<open>ids\<close>.\<close>

definition emit :: "go_error option \<Rightarrow> uuid list \<Rightarrow> bool \<Rightarrow> StressResult \<Rightarrow> stress_line list \<times> go_error option" where
  "emit json ids asJSON r =
     (if asJSON then ([], json)
      else
        ([Line ''scenario           %s'' [AStr (sx_Scenario r)],
          Line ''attempts           %d (concurrency %d, amount %d %s)''
            [AInt (int (sx_Attempts r)), AInt (sx_Concurrency r), AInt (sx_AmountMinor r), AStr (sx_Currency r)],
          Line ''duration           %d ms'' [AInt (sx_DurationMS r)],
          Line ''successful         %d'' [AInt (int (sx_Successful r))],
          Line ''insufficient funds %d'' [AInt (int (sx_InsufficientFunds r))],
          Line ''exhausted retries  %d'' [AInt (int (sx_ExhaustedRetries r))],
          Line ''unexpected         %d'' [AInt (int (sx_UnexpectedFailures r))],
          Line ''serialization retries %d'' [AInt (sx_SerializationRetries r)],
          Line ''deadlock retries      %d'' [AInt (sx_DeadlockRetries r)],
          Line ''total attempts        %d (budget %d, worst single transfer %d)''
            [AInt (sx_TotalAttempts r), AInt (sx_RetryBudget r), AInt (sx_MaxAttemptsForOne r)],
          Line ''total balance      %d -> %d'' [AInt (sx_TotalBalanceBefore r), AInt (sx_TotalBalanceAfter r)]]
         @ map (\<lambda>i. Line ''  %s  %d -> %d'' [AUuid i, AInt (case map_of (sx_BalancesBefore r) i of None \<Rightarrow> 0 | Some b \<Rightarrow> b),
             AInt (case map_of (sx_BalancesAfter r) i of None \<Rightarrow> 0 | Some b \<Rightarrow> b)]) ids
         @ [Line ''negative balances           %d'' [AInt (int (sx_NegativeBalances r))],
          Line ''ledger invariant violations %d'' [AInt (int (sx_LedgerInvariantViolations r))],
          Line ''conservation held           %t'' [show_bool (sx_ConservationHeld r)],
          Line ''reconciliation ok           %t'' [show_bool (sx_ReconciliationOK r)],
          Line ''completed transfers         %d (pending %d, ledger entries %d)''
            [AInt (int (sx_CompletedTransfers r)), AInt (int (sx_PendingTransfers r)), AInt (int (sx_LedgerEntries r))]]
         @ map ProblemLine (sx_Problems r)
         @ (if Result_OK r then [Line ''all invariants held for this run'' []] else []),
         None))"

section \<open>A run\<close>

text \<open>The options as \<^verbatim>\<open>run\<close> uses them.\<close>

definition effective :: "options \<Rightarrow> options" where
  "effective opt =
     (if op_concurrency opt \<le> 0 \<or> op_concurrency opt > op_attempts opt
      then opt\<lparr>op_concurrency := op_attempts opt\<rparr> else opt)"

definition new_result :: "options \<Rightarrow> Currency \<Rightarrow> Command list \<Rightarrow> RetryPolicy \<Rightarrow> Env \<Rightarrow> StressResult" where
  "new_result opt currency cmds p described =
     \<lparr>sx_Scenario = op_scenario opt, sx_Attempts = length cmds, sx_Concurrency = op_concurrency opt,
      sx_AmountMinor = op_amount opt, sx_Currency = Currency_String currency, sx_Successful = 0, sx_InsufficientFunds = 0,
      sx_ExhaustedRetries = 0, sx_UnexpectedFailures = 0, sx_SerializationRetries = 0, sx_DeadlockRetries = 0,
      sx_TotalAttempts = 0, sx_MaxAttemptsForOne = 0, sx_RetryBudget = MaxAttempts p, sx_NegativeBalances = 0,
      sx_LedgerInvariantViolations = 0, sx_ConservationHeld = False, sx_ReconciliationOK = False,
      sx_TotalBalanceBefore = 0, sx_TotalBalanceAfter = 0, sx_BalancesBefore = [], sx_BalancesAfter = [],
      sx_CompletedTransfers = 0, sx_PendingTransfers = 0, sx_LedgerEntries = 0, sx_DurationMS = 0, sx_Problems = [],
      sx_Environment = described\<rparr>"

definition with_balances :: "(uuid \<times> int) list \<times> int \<Rightarrow> (uuid \<times> int) list \<times> int \<Rightarrow> StressResult \<Rightarrow> StressResult" where
  "with_balances before after r =
     r\<lparr>sx_BalancesBefore := fst before, sx_TotalBalanceBefore := snd before,
       sx_BalancesAfter := fst after, sx_TotalBalanceAfter := snd after,
       sx_ConservationHeld := (snd before = snd after)\<rparr>"

definition with_report :: "Report \<Rightarrow> StressResult \<Rightarrow> StressResult" where
  "with_report rep r =
     (let violations = length (rp_UnbalancedTransfers rep) + length (rp_BalanceMismatches rep);
          r = r\<lparr>sx_NegativeBalances := length (rp_NegativeBalances rep),
                sx_LedgerInvariantViolations := (if rp_TotalLedgerMinor rep \<noteq> 0 then violations + 1 else violations),
                sx_ReconciliationOK := Report_OK rep, sx_CompletedTransfers := rp_CompletedTransfers rep,
                sx_PendingTransfers := rp_PendingTransfers rep, sx_LedgerEntries := rp_LedgerEntries rep,
                sx_Problems := map Reported (Problems rep)\<rparr> in
      if \<not> sx_ConservationHeld r
      then r\<lparr>sx_Problems := sx_Problems r @ [TotalsChanged (sx_TotalBalanceBefore r) (sx_TotalBalanceAfter r)]\<rparr>
      else r)"

text \<open>Opening the pool: configuration, pool and a round trip.\<close>

definition stress_open :: "Config result \<Rightarrow> 'p pgxpool \<Rightarrow> go_error option \<Rightarrow> (Config \<times> 'p DB) result" where
  "stress_open loaded lib ping =
     (case loaded of
        Inl err \<Rightarrow> Inl err
      | Inr cfg \<Rightarrow>
          (case database_New lib cfg of
             Inl err \<Rightarrow> Inl err
           | Inr db \<Rightarrow>
               (case database_Verify ping db of
                  None \<Rightarrow> Inr (cfg, db)
                | Some err \<Rightarrow> Inl (Errorf (''%w'' @ [CHR 0x0A, CHR 0x0A] @ ''Start PostgreSQL with: make infra-up && make migrate-up'') [] [err]))))"

text \<open>Everything a run meets outside the program once the pool is open: what other sessions commit before
  each of its reads and before the workers start, the faults of its reads, the order in which the calls of \<open>n\<close> workers end, the environments of the attempts of the \<open>i\<close>-th
  command, the time they take, the machine, and whether encoding the result fails.\<close>

datatype stress_point = AtSnapshot | AtBefore | AtExecute | AtAfter | AtQuery recon_query

record stress_env =
  sn_setup :: setup_env
  sn_others :: "stress_point \<Rightarrow> db \<Rightarrow> db"
  sn_snapshot :: read_fault
  sn_before :: "uuid \<Rightarrow> go_error option"
  sn_before_sum :: "go_error option"
  sn_order :: "nat \<Rightarrow> nat list"
  sn_attempts :: "nat \<Rightarrow> int \<Rightarrow> attempt_env"
  sn_after :: "uuid \<Rightarrow> go_error option"
  sn_after_sum :: "go_error option"
  sn_check :: "recon_query \<Rightarrow> read_fault"
  sn_ms :: int
  sn_machine :: machine
  sn_ids :: "uuid list"
  sn_json :: "go_error option"

definition arrange :: "stress_env \<Rightarrow> Command list \<Rightarrow> runs" where
  "arrange env cmds = map (\<lambda>i. (sn_attempts env i, cmds ! i)) (sn_order env (length cmds))"

text \<open>Reconciliation runs query by query: each sees what other sessions have committed by then.\<close>

primrec check_reads :: "stress_env \<Rightarrow> db \<Rightarrow> recon_query \<Rightarrow> db" where
  "check_reads env d QTotals = sn_others env (AtQuery QTotals) d"
| "check_reads env d QNegative = sn_others env (AtQuery QNegative) (sn_others env (AtQuery QTotals) d)"
| "check_reads env d QUnbalanced =
     sn_others env (AtQuery QUnbalanced) (sn_others env (AtQuery QNegative) (sn_others env (AtQuery QTotals) d))"
| "check_reads env d QMismatches = sn_others env (AtQuery QMismatches)
     (sn_others env (AtQuery QUnbalanced) (sn_others env (AtQuery QNegative) (sn_others env (AtQuery QTotals) d)))"

text \<open>Emitting the result and the error of the run.\<close>

definition stress_exit :: "stress_env \<Rightarrow> options \<Rightarrow> StressResult \<Rightarrow> go_error option" where
  "stress_exit env opt result =
     (case snd (emit (sn_json env) (sn_ids env) (op_asJSON opt) result) of
        Some err \<Rightarrow> Some err
      | None \<Rightarrow>
          if \<not> Result_OK result
          then Some (ErrorsNew ''invariant violations were detected; see the problems above'') else None)"

text \<open>The run with the pool open: the result that is emitted, if the run gets there, with the error
  \<^verbatim>\<open>run\<close> returns.\<close>

definition stress_work ::
  "(string \<Rightarrow> uuid result) \<Rightarrow> stress_env \<Rightarrow> RetryPolicy \<Rightarrow> options \<Rightarrow> Currency \<Rightarrow> Config \<Rightarrow> db \<Rightarrow>
   (StressResult option \<times> go_error option) \<times> db" where
  "stress_work parse env p opt currency cfg d =
     (case setupAccounts parse (sn_setup env) opt currency d of
        (Inl err, d1) \<Rightarrow> ((None, Some err), d1)
      | (Inr participants, d1) \<Rightarrow>
     (case buildCommands opt currency participants of
        None \<Rightarrow> ((None, Some (LibError ''panic'')), d1)
      | Some cmds \<Rightarrow>
     (let d2 = sn_others env AtSnapshot d1; d3 = sn_others env AtBefore d2; d4 = sn_others env AtExecute d3 in
      case SnapshotBaseline (sn_snapshot env) d2 of
        Inl err \<Rightarrow> ((None, Some err), d2)
      | Inr baseline \<Rightarrow>
     (case readBalances (sn_before env) (sn_before_sum env) participants d3 of
        Inl err \<Rightarrow> ((None, Some err), d3)
      | Inr before \<Rightarrow>
     (case execute p (sn_ms env) (arrange env cmds) (new_result opt currency cmds p (describeEnv (sn_machine env) cfg)) d4 of (result, d5) \<Rightarrow>
     (let d6 = sn_others env AtAfter d5 in
      case readBalances (sn_after env) (sn_after_sum env) participants d6 of
        Inl err \<Rightarrow> ((None, Some err), d6)
      | Inr after \<Rightarrow>
     (case Check (sn_check env) (check_reads env d6) baseline of
        Inl err \<Rightarrow> ((None, Some err), check_reads env d6 QMismatches)
      | Inr report \<Rightarrow>
          (let result = with_report report (with_balances before after result) in
           ((Some result, stress_exit env opt result), check_reads env d6 QMismatches)))))))))"

definition stress_run ::
  "(string \<Rightarrow> uuid result) \<Rightarrow> Config result \<Rightarrow> 'p pgxpool \<Rightarrow> go_error option \<Rightarrow> stress_env \<Rightarrow> RetryPolicy \<Rightarrow> options \<Rightarrow> db \<Rightarrow>
   (StressResult option \<times> go_error option) \<times> db" where
  "stress_run parse loaded lib ping env p opt d =
     (if op_attempts opt < 1 then ((None, Some (ErrorsNew ''-attempts must be at least 1'')), d)
      else
        (let opt = effective opt in
         case ParseCurrency (op_currency opt) of
           Inl err \<Rightarrow> ((None, Some err), d)
         | Inr currency \<Rightarrow>
             (case stress_open loaded lib ping of
                Inl err \<Rightarrow> ((None, Some err), d)
              | Inr (cfg, _) \<Rightarrow> stress_work parse env p opt currency cfg d)))"

section \<open>Facts\<close>

lemma newCmd_valid:
  assumes "0 < op_amount opt" and "currency_format cu" and "a \<noteq> b" and "a \<noteq> uuid_Nil" and "b \<noteq> uuid_Nil"
  shows "Command_Validate (newCmd opt cu a b) = None"
proof -
  have "Currency_Validate cu = None" using assms(2) by (simp add: Currency_Validate_None)
  with assms show ?thesis by (simp add: Command_Validate_def newCmd_def)
qed

lemma ring_neighbours: "2 \<le> n \<Longrightarrow> i mod n \<noteq> (i + 1) mod n" for n i :: nat
  by (cases "Suc (i mod n) = n") (auto simp: mod_Suc)

text \<open>Outcomes are counted once each.\<close>

definition outcome_count :: "StressResult \<Rightarrow> nat" where
  "outcome_count r = sx_Successful r + sx_InsufficientFunds r + sx_ExhaustedRetries r + sx_UnexpectedFailures r"

lemma record_outcome_simps [simp]:
  "outcome_count (record_outcome out a r) = outcome_count r + 1"
  "sx_TotalAttempts (record_outcome out a r) = sx_TotalAttempts r + at_Total a"
  "sx_SerializationRetries (record_outcome out a r) + sx_DeadlockRetries (record_outcome out a r) =
     sx_SerializationRetries r + sx_DeadlockRetries r + lost_attempts a"
  "sx_MaxAttemptsForOne (record_outcome out a r) = max (sx_MaxAttemptsForOne r) (at_Total a)"
  "sx_RetryBudget (record_outcome out a r) = sx_RetryBudget r"
  by (auto simp: record_outcome_def outcome_count_def lost_attempts_def Let_def split: sum.split)

lemma PostWithAttempts_bounds:
  assumes "Command_Validate cmd = None" and "PostWithAttempts p env cmd d = (out, a, d')"
  shows "1 \<le> at_Total a \<and> at_Total a \<le> max 1 (MaxAttempts p) \<and> lost_attempts a \<le> at_Total a"
proof -
  have zero: "lost_attempts no_attempts = 1 - 1" by (simp add: lost_attempts_def no_attempts_def)
  have "retry_loop p (attempt_once env cmd None) (\<lambda>n. wait p (ae_int64N (env n)) (ae_cancelled (env n)) n) 1 no_attempts d = (out, a, d')"
    using assms by (simp add: PostWithAttempts_def postWithRetry_def)
  from retry_loop_attempts [OF this zero] show ?thesis by auto
qed

lemma run_all_outcomes: "run_all p runs r d = (r', d') \<Longrightarrow> outcome_count r' = outcome_count r + length runs"
  by (induction runs arbitrary: r d) (auto split: prod.splits)

lemma run_all_counts:
  "run_all p runs r d = (r', d') \<Longrightarrow> list_all (\<lambda>x. Command_Validate (snd x) = None) runs \<Longrightarrow>
     outcome_count r' = outcome_count r + length runs
     \<and> sx_TotalAttempts r + int (length runs) \<le> sx_TotalAttempts r'
     \<and> sx_TotalAttempts r' \<le> sx_TotalAttempts r + int (length runs) * max 1 (MaxAttempts p)
     \<and> (sx_SerializationRetries r' + sx_DeadlockRetries r') - (sx_SerializationRetries r + sx_DeadlockRetries r)
         \<le> sx_TotalAttempts r' - sx_TotalAttempts r
     \<and> sx_MaxAttemptsForOne r' \<le> max (sx_MaxAttemptsForOne r) (max 1 (MaxAttempts p))
     \<and> sx_RetryBudget r' = sx_RetryBudget r"
proof (induction runs arbitrary: r d)
  case (Cons x runs)
  obtain env cmd where x: "x = (env, cmd)" by (cases x)
  obtain out a d1 where one: "PostWithAttempts p env cmd d = (out, a, d1)" by (cases "PostWithAttempts p env cmd d")
  note bounds = PostWithAttempts_bounds [OF _ one]
  have "run_all p runs (record_outcome out a r) d1 = (r', d')" using Cons.prems(1) by (simp add: x one)
  from Cons.IH [OF this] Cons.prems(2) bounds record_outcome_simps(3) [of out a r]
  show ?case by (auto simp: x algebra_simps)
qed simp

lemma execute_run_all:
  "execute p ms runs r d = (r', d') \<longleftrightarrow> (\<exists>r1. run_all p runs r d = (r1, d') \<and> r' = r1\<lparr>sx_DurationMS := ms\<rparr>)"
  by (auto simp: execute_def split: prod.splits)

lemma outcome_count_duration [simp]: "outcome_count (r\<lparr>sx_DurationMS := ms\<rparr>) = outcome_count r"
  by (simp add: outcome_count_def)


section \<open>A run over a well-formed database\<close>

definition runs_ok :: "runs \<Rightarrow> bool" where
  "runs_ok runs \<longleftrightarrow> (\<forall>x \<in> set runs. env_ok (fst x) \<and> int64_cmd (snd x))"

text \<open>What other sessions and the workers keep of the database.\<close>

definition kept :: "db \<Rightarrow> db \<Rightarrow> bool" where
  "kept d d' \<longleftrightarrow> db_ok d' \<and> unexplained d' = unexplained d \<and> (\<forall>c. currency_total c d' = currency_total c d)"

lemma kept_refl: "db_ok d \<Longrightarrow> kept d d"
  by (simp add: kept_def)

lemma kept_trans: "kept d1 d2 \<Longrightarrow> kept d2 d3 \<Longrightarrow> kept d1 d3"
  by (simp add: kept_def)

lemma kept_others: "kept d d' \<Longrightarrow> well_behaved f \<Longrightarrow> kept d (f d')"
  by (simp add: kept_def well_behavedD)

lemma run_all_keeps:
  "run_all p runs r d = (r', d') \<Longrightarrow> runs_ok runs \<Longrightarrow> db_ok d \<Longrightarrow>
     db_ok d' \<and> extends d d' \<and> unexplained d' = unexplained d \<and> (\<forall>c. currency_total c d' = currency_total c d)"
proof (induction runs arbitrary: r d)
  case (Cons x runs)
  obtain env cmd where x: "x = (env, cmd)" by (cases x)
  obtain out a d1 where one: "PostWithAttempts p env cmd d = (out, a, d1)" by (cases "PostWithAttempts p env cmd d")
  have ok: "env_ok env" "int64_cmd cmd" "runs_ok runs" using Cons.prems(2) by (simp_all add: runs_ok_def x)
  from postWithRetry_keeps [OF Cons.prems(3) ok(1,2) one [unfolded PostWithAttempts_def]]
  have d1: "db_ok d1 \<and> extends d d1 \<and> unexplained d1 = unexplained d \<and> (\<forall>c. currency_total c d1 = currency_total c d)" .
  have "run_all p runs (record_outcome out a r) d1 = (r', d')" using Cons.prems(1) by (simp add: x one)
  from Cons.IH [OF this ok(3)] d1 show ?case by (auto intro: extends_trans)
qed simp

text \<open>The environment of a run: the order is a permutation and other sessions keep the ledger.\<close>

definition stress_env_ok :: "stress_env \<Rightarrow> bool" where
  "stress_env_ok env \<longleftrightarrow> (\<forall>n. mset (sn_order env n) = mset [0..<n]) \<and> (\<forall>i. env_ok (sn_attempts env i))
     \<and> (\<forall>pt. well_behaved (sn_others env pt))"

lemma arrange_permutes:
  assumes "stress_env_ok env"
  shows "mset (map snd (arrange env cmds)) = mset cmds"
proof -
  have "mset (map snd (arrange env cmds)) = image_mset ((!) cmds) (mset (sn_order env (length cmds)))"
    by (simp add: arrange_def multiset.map_comp o_def)
  also have "\<dots> = mset (map ((!) cmds) [0..<length cmds])" using assms by (simp add: stress_env_ok_def)
  finally show ?thesis by (simp add: map_nth)
qed

lemma set_arrange: "stress_env_ok env \<Longrightarrow> snd ` set (arrange env cmds) = set cmds"
  using arrange_permutes [of env cmds] by (metis list.set_map set_mset_mset)

lemma length_arrange: "stress_env_ok env \<Longrightarrow> length (arrange env cmds) = length cmds"
  using arrange_permutes [of env cmds] by (metis length_map size_mset)

lemma buildCommands_amount:
  "buildCommands opt cu accts = Some cmds \<Longrightarrow> c \<in> set cmds \<Longrightarrow> c_AmountMinor c = op_amount opt"
  by (auto simp: buildCommands_def newCmd_def Let_def split: if_splits)

lemma length_buildCommands: "buildCommands opt cu accts = Some cmds \<Longrightarrow> length cmds = nat (op_attempts opt)"
  by (auto simp: buildCommands_def Let_def split: if_splits)

lemma arrange_runs_ok:
  assumes "stress_env_ok env" and "in_int64 (op_amount opt)" and "buildCommands opt cu accts = Some cmds"
  shows "runs_ok (arrange env cmds)"
proof -
  have "int64_cmd (snd x)" if "x \<in> set (arrange env cmds)" for x
    using buildCommands_amount [OF assms(3)] set_arrange [OF assms(1), of cmds] that assms(2)
    unfolding int64_cmd_def by (metis imageI)
  moreover have "env_ok (fst x)" if "x \<in> set (arrange env cmds)" for x
    using that assms(1) by (auto simp: arrange_def stress_env_ok_def)
  ultimately show ?thesis by (simp add: runs_ok_def)
qed

lemma total_balance_currencies:
  assumes "set (map a_Currency (accounts d)) \<subseteq> set cs" and "distinct cs"
  shows "total_balance d = sum_list (map (\<lambda>c. currency_total c d) cs)"
  unfolding total_balance_def currency_total_def
  by (rule sum_list_grouped) (use assms in auto)

lemma total_balance_kept:
  assumes "\<forall>c. currency_total c d' = currency_total c d"
  shows "total_balance d' = total_balance d"
proof -
  let ?cs = "remdups (map a_Currency (accounts d) @ map a_Currency (accounts d'))"
  have "total_balance d = sum_list (map (\<lambda>c. currency_total c d) ?cs)" by (rule total_balance_currencies) auto
  moreover have "total_balance d' = sum_list (map (\<lambda>c. currency_total c d') ?cs)" by (rule total_balance_currencies) auto
  ultimately show ?thesis using assms by simp
qed

lemma Check_of_kept:
  assumes "Check flt reads baseline = Inr rep" and "SnapshotBaseline f d = Inr baseline"
    and "db_ok d" and "\<And>q. kept d (reads q)"
  shows "Report_OK rep \<and> Problems rep = []"
proof -
  have ok: "db_ok (reads q)" for q using assms(4) [of q] by (simp add: kept_def)
  have "(case baseline (a_ID a) of None \<Rightarrow> 0 | Some b \<Rightarrow> b) = unexplained (reads QMismatches) (a_ID a)" for a :: Account
    using baseline_of_unexplained [OF assms(3), of "a_ID a"] SnapshotBaseline_Inr [OF assms(2)] assms(4) [of QMismatches]
    by (simp add: kept_def)
  then have "Report_OK rep"
    unfolding Check_Inr_OK [OF assms(1)]
    using db_ok_ledger_zero [OF ok] db_ok_nonneg [OF ok] db_ok_not_offending [OF ok]
      expected_balance_unexplained [OF ok] by blast
  moreover from this have "Problems rep = []" using length_Problems [of rep] by (simp add: OK_iff_Violations)
  ultimately show ?thesis by blast
qed

text \<open>Setting up leaves a well-formed database: the funding is outside the ledger but keeps every
  constraint.\<close>

lemma db_ok_map_accounts:
  assumes d: "db_ok d"
    and f: "\<And>a. a \<in> set (accounts d) \<Longrightarrow> a_ID (f a) = a_ID a \<and> check_account (f a) = None \<and> in_int64 (a_BalanceMinor (f a))"
  shows "db_ok (d\<lparr>accounts := map f (accounts d)\<rparr>)"
proof -
  have ids: "map a_ID (map f (accounts d)) = map a_ID (accounts d)" using f by simp
  then have "a_ID ` set (map f (accounts d)) = a_ID ` set (accounts d)" by (metis set_map)
  moreover have "distinct (map a_ID (map f (accounts d)))" unfolding ids by (rule db_ok_accounts [OF d])
  then have "accounts_ok (d\<lparr>accounts := map f (accounts d)\<rparr>)" using f by (auto simp: accounts_ok_def)
  moreover have "entries_of t (d\<lparr>accounts := map f (accounts d)\<rparr>) = entries_of t d" for t by (simp add: entries_of_def)
  ultimately show ?thesis
    using d unfolding db_ok_def schema_ok_def transfers_ok_def entries_ok_def ledger_ok_def by simp
qed

lemma fund_account_keeps:
  assumes d: "db_ok d" and call: "fund_account flt funding now i d = (e, d')"
  shows "db_ok d'"
proof -
  have "db_ok (tx_db tx)" if upd: "sql_update_balances (\<lambda>a. a_ID a = i) funding now (begin_tx d) = Inr (n, tx)" for n tx
  proof -
    let ?f = "\<lambda>a. if a_ID a = i then update_balance_row funding now a else a"
    have tx: "tx_db tx = d\<lparr>accounts := map ?f (accounts d)\<rparr>"
      and ok: "\<forall>a \<in> set (accounts d). a_ID a = i \<longrightarrow> update_balance_error funding now a = None"
      using upd by (auto simp: sql_update_balances_def begin_tx_def Let_def split: option.splits)
    show ?thesis
      unfolding tx
    proof (rule db_ok_map_accounts [OF d])
      fix a assume "a \<in> set (accounts d)"
      with ok check_accountD [OF d this]
      show "a_ID (?f a) = a_ID a \<and> check_account (?f a) = None \<and> in_int64 (a_BalanceMinor (?f a))"
        by (auto simp: update_balance_error_def update_balance_row_def split: if_splits)
    qed
  qed
  then show ?thesis
    using call d by (auto simp: fund_account_def Let_def split: fault.splits sum.splits prod.splits)
qed

lemma create_accounts_keeps:
  "create_accounts env cu funding is ids d = (r, d') \<Longrightarrow> db_ok d \<Longrightarrow> db_ok d'"
proof (induction "is" arbitrary: ids d)
  case (Cons i "is")
  obtain r1 d1 where one: "Account_Create (su_create env i) (su_id env i) (su_now env) cu d = (r1, d1)"
    by (cases "Account_Create (su_create env i) (su_id env i) (su_now env) cu d")
  then have d1: "db_ok d1"
    using creation.writes_well [of "(su_create env i, su_id env i, su_now env, cu)"] Cons.prems(2)
    by (auto simp: create_op_def well_behaved_def)
  show ?case
    using Cons.prems(1) one d1 fund_account_keeps [OF d1] Cons.IH
    by (auto split: sum.splits if_splits prod.splits option.splits)
qed simp

lemma setupAccounts_keeps:
  "setupAccounts parse env opt cu d = (r, d') \<Longrightarrow> db_ok d \<Longrightarrow> db_ok d'"
  using create_accounts_keeps
  by (fastforce simp: setupAccounts_def Let_def split: if_splits sum.splits)

lemma effective_simps [simp]:
  "op_amount (effective opt) = op_amount opt" "op_attempts (effective opt) = op_attempts opt"
  "op_asJSON (effective opt) = op_asJSON opt"
  by (simp_all add: effective_def)

text \<open>A run that gets to emit a result went through every step.\<close>

lemma stress_run_steps:
  assumes "stress_run parse loaded lib ping env p opt d = ((Some r, e), d')"
  obtains cu participants d1 d2 d3 d4 d5 d6 cmds baseline before result after rep described
  where "buildCommands (effective opt) cu participants = Some cmds"
    "setupAccounts parse (sn_setup env) (effective opt) cu d = (Inr participants, d1)"
    "d2 = sn_others env AtSnapshot d1" "d3 = sn_others env AtBefore d2" "d4 = sn_others env AtExecute d3"
    "SnapshotBaseline (sn_snapshot env) d2 = Inr baseline"
    "readBalances (sn_before env) (sn_before_sum env) participants d3 = Inr before"
    "execute p (sn_ms env) (arrange env cmds) (new_result (effective opt) cu cmds p described) d4 = (result, d5)"
    "d6 = sn_others env AtAfter d5"
    "readBalances (sn_after env) (sn_after_sum env) participants d6 = Inr after"
    "Check (sn_check env) (check_reads env d6) baseline = Inr rep"
    "d' = check_reads env d6 QMismatches"
    "r = with_report rep (with_balances before after result)"
    "e = stress_exit env (effective opt) r"
  using assms
  by (auto simp: stress_run_def stress_work_def Let_def split: if_splits sum.splits prod.splits option.splits)

lemma outcome_count_simps [simp]:
  "outcome_count (with_report rep r) = outcome_count r" "outcome_count (with_balances b a r) = outcome_count r"
  "outcome_count (new_result opt cu cmds p described) = 0"
  by (simp_all add: outcome_count_def with_report_def with_balances_def new_result_def Let_def)

lemma readBalances_total: "readBalances f g ids d = Inr x \<Longrightarrow> snd x = total_balance d"
  by (auto simp: readBalances_def Let_def split: sum.splits option.splits if_splits)

lemma stress_run_result:
  assumes "db_ok d" and "stress_env_ok env" and "in_int64 (op_amount opt)" and "stress_run parse loaded lib ping env p opt d = ((Some r, e), d')"
  shows "sx_ConservationHeld r \<and> sx_ReconciliationOK r \<and> sx_NegativeBalances r = 0 \<and> sx_LedgerInvariantViolations r = 0
    \<and> sx_Problems r = [] \<and> (Result_OK r \<longleftrightarrow> sx_UnexpectedFailures r = 0) \<and> db_ok d'
    \<and> outcome_count r = nat (op_attempts opt)
    \<and> e = stress_exit env (effective opt) r"
  using assms(4)
proof (rule stress_run_steps)
  fix cu participants d1 d2 d3 d4 d5 d6 cmds baseline before result after rep described
  assume cmds: "buildCommands (effective opt) cu participants = Some cmds"
    and accts: "setupAccounts parse (sn_setup env) (effective opt) cu d = (Inr participants, d1)"
    and others: "d2 = sn_others env AtSnapshot d1" "d3 = sn_others env AtBefore d2" "d4 = sn_others env AtExecute d3"
      "d6 = sn_others env AtAfter d5"
    and base: "SnapshotBaseline (sn_snapshot env) d2 = Inr baseline"
    and read: "readBalances (sn_before env) (sn_before_sum env) participants d3 = Inr before"
      "readBalances (sn_after env) (sn_after_sum env) participants d6 = Inr after"
    and run: "execute p (sn_ms env) (arrange env cmds) (new_result (effective opt) cu cmds p described) d4 = (result, d5)"
    and check: "Check (sn_check env) (check_reads env d6) baseline = Inr rep"
    and d': "d' = check_reads env d6 QMismatches"
    and r: "r = with_report rep (with_balances before after result)"
    and e: "e = stress_exit env (effective opt) r"
  have wb: "well_behaved (sn_others env pt)" for pt using assms(2) by (simp add: stress_env_ok_def)
  have "db_ok d1" using setupAccounts_keeps [OF accts assms(1)] .
  then have d2: "db_ok d2" using wb by (simp add: others well_behavedD)
  have k3: "kept d2 d3" unfolding others(2) by (rule kept_others [OF kept_refl [OF d2] wb])
  have k4: "kept d2 d4" unfolding others(3) by (rule kept_others [OF k3 wb])
  have "runs_ok (arrange env cmds)" by (rule arrange_runs_ok [OF assms(2) _ cmds]) (use assms(3) in simp)
  moreover obtain r1 where run1: "run_all p (arrange env cmds) (new_result (effective opt) cu cmds p described) d4 = (r1, d5)"
    and result: "result = r1\<lparr>sx_DurationMS := sn_ms env\<rparr>" using run by (auto simp: execute_run_all)
  ultimately have "kept d4 d5" using run_all_keeps [OF run1] k4 unfolding kept_def by blast
  then have k6: "kept d2 d6" unfolding others(4) by (rule kept_others [OF kept_trans [OF k4] wb])
  have reads: "kept d2 (check_reads env d6 q)" for q by (cases q) (simp_all add: kept_others k6 wb)
  have "total_balance d3 = total_balance d2" "total_balance d6 = total_balance d2"
    using k3 k6 by (simp_all add: kept_def total_balance_kept)
  then have same: "snd before = snd after" using read readBalances_total by metis
  have rep: "Report_OK rep \<and> Problems rep = []" using Check_of_kept [OF check base d2 reads] .
  have "sx_ConservationHeld r \<and> sx_ReconciliationOK r \<and> sx_NegativeBalances r = 0 \<and> sx_LedgerInvariantViolations r = 0
      \<and> sx_Problems r = [] \<and> (Result_OK r \<longleftrightarrow> sx_UnexpectedFailures r = 0)"
    using rep same by (simp add: r with_report_def with_balances_def Report_OK_def Result_OK_def Let_def)
  moreover have "outcome_count r = nat (op_attempts opt)"
    using run_all_outcomes [OF run1] length_arrange [OF assms(2)] length_buildCommands [OF cmds] by (simp add: r result)
  moreover have "db_ok d'" using reads [of QMismatches] by (simp add: d' kept_def)
  ultimately show ?thesis using e by blast
qed

section \<open>Properties\<close>

text \<open>The workload is exactly what the scenario promises: for at least two distinct accounts every
  scenario yields the requested number of commands, and each of them passes validation (the ring
  never pairs an account with itself).\<close>

theorem buildCommands_valid:
  assumes "0 < op_amount opt" and "currency_format cu" and "distinct accts" and "2 \<le> length accts" and "uuid_Nil \<notin> set accts"
  shows "\<exists>cmds. buildCommands opt cu accts = Some cmds \<and> length cmds = nat (op_attempts opt)
    \<and> list_all (\<lambda>c. Command_Validate c = None) cmds"
proof -
  have valid: "Command_Validate (newCmd opt cu (accts ! i) (accts ! j)) = None"
    if "i < length accts" "j < length accts" "i \<noteq> j" for i j
    using that assms by (intro newCmd_valid) (auto simp: nth_eq_iff_index_eq dest: nth_mem)
  have "i mod length accts \<noteq> (i + 1) mod length accts" for i using ring_neighbours [OF assms(4)] .
  moreover have "0 < length accts" "1 < length accts" using assms(4) by linarith+
  ultimately show ?thesis
    by (auto simp: buildCommands_def list_all_iff Let_def intro!: valid)
qed

definition sample_options :: options where
  "sample_options = \<lparr>op_scenario = ''ring'', op_attempts = 3, op_concurrency = 0, op_amount = 5, op_currency = ''USD'',
     op_fund = 10, op_accounts = 2, op_source = '''', op_destination = '''', op_asJSON = False\<rparr>"

theorem buildCommands_valid_witness:
  "\<exists>cmds. buildCommands sample_options ''USD'' [UUID 1, UUID 2, UUID 3] = Some cmds \<and> length cmds = 3
     \<and> list_all (\<lambda>c. Command_Validate c = None) cmds"
proof -
  have "currency_format ''USD''" by code_simp
  with buildCommands_valid [of sample_options "''USD''" "[UUID 1, UUID 2, UUID 3]"] show ?thesis
    by (simp add: sample_options_def uuid_Nil_def)
qed

text \<open>The accounting of a run is exact: every command is counted once, as a success, a refusal for funds,
  an exhausted retry or an unexpected failure; the attempts lie between one per command and the
  retry budget per command, and no more conflicts are counted than attempts.\<close>

theorem execute_accounting:
  assumes "execute p ms runs (new_result opt cu cmds p described) d = (r, d')" and "list_all (\<lambda>x. Command_Validate (snd x) = None) runs"
    and "1 \<le> MaxAttempts p"
  shows "outcome_count r = length runs
    \<and> int (length runs) \<le> sx_TotalAttempts r \<and> sx_TotalAttempts r \<le> int (length runs) * sx_RetryBudget r
    \<and> sx_SerializationRetries r + sx_DeadlockRetries r \<le> sx_TotalAttempts r
    \<and> sx_MaxAttemptsForOne r \<le> sx_RetryBudget r"
proof -
  obtain r1 where "run_all p runs (new_result opt cu cmds p described) d = (r1, d')" and "r = r1\<lparr>sx_DurationMS := ms\<rparr>"
    using assms(1) by (auto simp: execute_run_all)
  with run_all_counts [OF this(1) assms(2)] assms(3) show ?thesis
    by (auto simp: new_result_def outcome_count_def max_def split: if_splits)
qed

definition sample_machine :: machine where
  "sample_machine = \<lparr>mn_GoVersion = ''go1.25'', mn_OSArch = ''linux/amd64'', mn_CPUs = 8, mn_server_version = None, mn_started = ''now''\<rparr>"

definition sample_described :: Env where
  "sample_described = \<lparr>ev_GoVersion = ''go1.25'', ev_OSArch = ''linux/amd64'', ev_CPUs = 8, ev_PostgresVersion = ''17'', ev_StartedAt = ''now'',
     ev_PoolMaxConns = 25, ev_IsolationLevel = ''SERIALIZABLE'', ev_LockOrderStrategy = ''canonical UUID order, lowest first''\<rparr>"

theorem execute_accounting_witness:
  "case execute DefaultRetryPolicy 12 [(sample_envs, sample_cmd), (\<lambda>_. sample_env, sample_cmd\<lparr>c_AmountMinor := 500\<rparr>)]
      (new_result sample_options ''USD'' [] DefaultRetryPolicy sample_described) sample_db of
    (r, d') \<Rightarrow> outcome_count r = 2 \<and> sx_TotalAttempts r \<le> 40 \<and> sx_Successful r = 1 \<and> sx_InsufficientFunds r = 1"
proof -
  let ?runs = "[(sample_envs, sample_cmd), (\<lambda>_. sample_env, sample_cmd\<lparr>c_AmountMinor := 500\<rparr>)]"
  let ?r0 = "new_result sample_options ''USD'' [] DefaultRetryPolicy sample_described"
  obtain r d' where run: "execute DefaultRetryPolicy 12 ?runs ?r0 sample_db = (r, d')" by (cases "execute DefaultRetryPolicy 12 ?runs ?r0 sample_db")
  have valid: "list_all (\<lambda>x. Command_Validate (snd x) = None) ?runs" by code_simp
  have budget: "1 \<le> MaxAttempts DefaultRetryPolicy" by (simp add: DefaultRetryPolicy_def)
  have "case execute DefaultRetryPolicy 12 ?runs ?r0 sample_db of
      (r, d') \<Rightarrow> sx_RetryBudget r = 20 \<and> sx_Successful r = 1 \<and> sx_InsufficientFunds r = 1" by code_simp
  with run execute_accounting [OF run valid budget] show ?thesis by simp
qed

text \<open>C37: The verdict of a run blames the ledger only when it is at fault: over a well-formed database, whatever
  conflicts, failures and interleavings the workers meet and whatever other sessions of the service commit
  between the steps of the run and between the queries of reconciliation, a run that gets to report finds no
  negative balance, no ledger violation and no change of the total; it fails exactly when it
  counted an unexpected failure, and every requested attempt is counted once.\<close>

theorem stress_verdict:
  assumes "db_ok d" and "stress_env_ok env" and "in_int64 (op_amount opt)" and "stress_run parse loaded lib ping env p opt d = ((Some r, e), d')"
  shows "sx_ConservationHeld r \<and> sx_ReconciliationOK r \<and> sx_NegativeBalances r = 0 \<and> sx_LedgerInvariantViolations r = 0
    \<and> (Result_OK r \<longleftrightarrow> sx_UnexpectedFailures r = 0) \<and> outcome_count r = nat (op_attempts opt) \<and> db_ok d'"
  using stress_run_result [OF assms] by blast

definition quiet_stress :: stress_env where
  "quiet_stress =
     \<lparr>sn_setup = \<lparr>su_create = (\<lambda>_. NoFault), su_fund = (\<lambda>_. NoFault), su_id = (\<lambda>i. UUID (word_of_nat (30 + i))), su_now = 3\<rparr>, sn_others = (\<lambda>_ d. d),
      sn_snapshot = NoReadFault, sn_before = (\<lambda>_. None), sn_before_sum = None,
      sn_order = (\<lambda>n. rev [0..<n]), sn_attempts = (\<lambda>_ _. sample_env\<lparr>ae_fault := (\<lambda>_. Some (LibError ''reset''))\<rparr>),
      sn_after = (\<lambda>_. None), sn_after_sum = None, sn_check = (\<lambda>_. NoReadFault), sn_ms = 12,
      sn_machine = sample_machine, sn_ids = [], sn_json = None\<rparr>"

lemma quiet_stress_ok: "stress_env_ok quiet_stress"
  by (simp add: quiet_stress_def stress_env_ok_def env_ok_def others_of_def sample_env_def)

lemma sample_options_amount: "in_int64 (op_amount sample_options)"
  by (simp add: sample_options_def in_int64_def)

lemma sample_open: "\<exists>db. stress_open (Inr sample_config) sample_pgx None = Inr (sample_config, db)"
proof -
  obtain db where "database_New sample_pgx sample_config = Inr db"
    using database_New_pool_witness by (auto simp: sample_config_def)
  then show ?thesis by (simp add: stress_open_def database_Verify_def)
qed

lemma quiet_stress_run:
  "\<exists>r e d'. stress_run (\<lambda>s. Inl (LibError s)) (Inr sample_config) sample_pgx None quiet_stress DefaultRetryPolicy sample_options sample_db = ((Some r, e), d')
     \<and> sx_UnexpectedFailures r = 3"
proof -
  have work: "case stress_work (\<lambda>s. Inl (LibError s)) quiet_stress DefaultRetryPolicy (effective sample_options) ''USD'' cfg sample_db of
      ((Some r, e), d') \<Rightarrow> sx_UnexpectedFailures r = 3 | _ \<Rightarrow> False" for cfg by code_simp
  have "ParseCurrency (op_currency (effective sample_options)) = Inr ''USD''" by code_simp
  moreover have "\<not> op_attempts sample_options < 1" by (simp add: sample_options_def)
  moreover obtain db where "stress_open (Inr sample_config) sample_pgx None = Inr (sample_config, db)" using sample_open by blast
  ultimately show ?thesis
    using work [of sample_config] by (auto simp: stress_run_def Let_def split: prod.splits option.splits)
qed

theorem stress_verdict_witness:
  "\<exists>r e d'. stress_run (\<lambda>s. Inl (LibError s)) (Inr sample_config) sample_pgx None quiet_stress DefaultRetryPolicy sample_options sample_db = ((Some r, e), d')
     \<and> sx_ReconciliationOK r \<and> \<not> Result_OK r"
proof -
  obtain r e d' where run: "stress_run (\<lambda>s. Inl (LibError s)) (Inr sample_config) sample_pgx None quiet_stress DefaultRetryPolicy sample_options sample_db = ((Some r, e), d')"
    and "sx_UnexpectedFailures r = 3" using quiet_stress_run by blast
  with stress_verdict [OF db_ok_sample quiet_stress_ok sample_options_amount run] show ?thesis by auto
qed

text \<open>C38: An unexpected failure is counted but never shown: the problems recorded while the workers ran are
  overwritten by those of reconciliation, so over a well-formed database no problem is printed, although
  the run then fails with a message that refers to the problems above.\<close>

theorem stress_problems_lost:
  assumes "db_ok d" and "stress_env_ok env" and "in_int64 (op_amount opt)" and "\<not> op_asJSON opt"
    and "stress_run parse loaded lib ping env p opt d = ((Some r, e), d')"
  shows "sx_Problems r = []
    \<and> list_all (\<lambda>l. case l of ProblemLine _ \<Rightarrow> False | Line _ _ \<Rightarrow> True) (fst (emit (sn_json env) (sn_ids env) (op_asJSON opt) r))
    \<and> (e = (if sx_UnexpectedFailures r = 0 then None
            else Some (ErrorsNew ''invariant violations were detected; see the problems above'')))"
proof -
  have "snd (emit (sn_json env) (sn_ids env) (op_asJSON opt) r) = None" using assms(4) by (simp add: emit_def)
  with stress_run_result [OF assms(1-3,5)] assms(4) show ?thesis by (auto simp: stress_exit_def emit_def list_all_iff)
qed

theorem stress_problems_lost_witness:
  "\<exists>r d'. stress_run (\<lambda>s. Inl (LibError s)) (Inr sample_config) sample_pgx None quiet_stress DefaultRetryPolicy sample_options sample_db =
      ((Some r, Some (ErrorsNew ''invariant violations were detected; see the problems above'')), d')
     \<and> sx_UnexpectedFailures r = 3 \<and> sx_Problems r = []"
proof -
  obtain r e d' where run: "stress_run (\<lambda>s. Inl (LibError s)) (Inr sample_config) sample_pgx None quiet_stress DefaultRetryPolicy sample_options sample_db = ((Some r, e), d')"
    and three: "sx_UnexpectedFailures r = 3" using quiet_stress_run by blast
  have "\<not> op_asJSON sample_options" by (simp add: sample_options_def)
  from stress_problems_lost [OF db_ok_sample quiet_stress_ok sample_options_amount this run] run three show ?thesis by auto
qed

end
