(* ===== verification/Migrate.thy ===== *)
theory Migrate
  imports Config
begin

text \<open>
  The migration command (\<^verbatim>\<open>src/cmd/migrate\<close>).  The golang-migrate library is the argument
  \<open>migrate_lib\<close> over a schema state; what opening the database meets is an argument too.  The result
  is what is printed, the error, the schema, and whether the database handle is still open.
\<close>

record 'm migrate_lib =
  mg_Up :: "'m \<Rightarrow> go_error option \<times> 'm"
  mg_Down :: "'m \<Rightarrow> go_error option \<times> 'm"
  mg_Steps :: "int \<Rightarrow> 'm \<Rightarrow> go_error option \<times> 'm"
  mg_Version :: "'m \<Rightarrow> (int \<times> bool) result"
  mg_Force :: "int \<Rightarrow> 'm \<Rightarrow> go_error option \<times> 'm"

definition migrate_report :: "'m migrate_lib \<Rightarrow> string \<Rightarrow> go_error option \<Rightarrow> 'm \<Rightarrow> printed \<times> go_error option" where
  "migrate_report lib action err m =
     (let finish = (\<lambda>out.
        case mg_Version lib m of
          Inl verr \<Rightarrow>
            if errors_is verr migrate_ErrNilVersion then (out @ [(''schema version: none'', [])], None)
            else (out, Some (Errorf ''read version after %s: %w'' [AStr action] [verr]))
        | Inr (version, dirty) \<Rightarrow> (out @ [(''schema version: %d (dirty: %t)'', [AInt version, show_bool dirty])], None)) in
      case err of
        None \<Rightarrow> finish [(''%s: applied'', [AStr action])]
      | Some e \<Rightarrow>
          if errors_is e migrate_ErrNoChange then finish [(''%s: no change'', [AStr action])]
          else ([], Some (Errorf ''%s: %w'' [AStr action] [e])))"

text \<open>What opening meets at its four steps.\<close>

record open_env =
  oe_Open :: "go_error option"
  oe_Ping :: "go_error option"
  oe_WithInstance :: "go_error option"
  oe_NewMigrate :: "go_error option"

text \<open>The settings of the handle, and whether a handle is left open.\<close>

record sql_settings =
  sq_MaxOpenConns :: int
  sq_MaxIdleConns :: int
  sq_ConnMaxLifetime :: int

definition migrate_open :: "open_env \<Rightarrow> Config \<Rightarrow> string \<Rightarrow> sql_settings result \<times> bool" where
  "migrate_open env cfg path =
     (let pg = cfg_Postgres cfg in
      case oe_Open env of
        Some err \<Rightarrow> (Inl (Errorf ''open %s: %w'' [AStr (RedactedDSN pg)] [err]), False)
      | None \<Rightarrow>
      (case oe_Ping env of
        Some err \<Rightarrow> (Inl (Errorf ''connect to %s: %w'' [AStr (RedactedDSN pg)] [err]), False)
      | None \<Rightarrow>
      (case oe_WithInstance env of
        Some err \<Rightarrow> (Inl (Errorf ''build migration driver: %w'' [] [err]), False)
      | None \<Rightarrow>
      (case oe_NewMigrate env of
        Some err \<Rightarrow> (Inl (Errorf ''load migrations from %s: %w'' [AStr path] [err]), False)
      | None \<Rightarrow>
          (Inr \<lparr>sq_MaxOpenConns = pg_MaxOpenConns pg, sq_MaxIdleConns = pg_MaxIdleConns pg,
                sq_ConnMaxLifetime = pg_ConnMaxLifetime pg\<rparr>, True)))))"

record 'm migrate_result =
  mr_output :: printed
  mr_error :: "go_error option"
  mr_schema :: 'm
  mr_open :: bool

definition usage :: "string \<times> fmt_arg list" where "usage = (''usage'', [])"

text \<open>The command itself, with the migrator open.\<close>

definition migrate_command :: "'m migrate_lib \<Rightarrow> string list \<Rightarrow> 'm \<Rightarrow> (printed \<times> go_error option) \<times> 'm" where
  "migrate_command lib args m =
     (let cmd = hd args in
      if cmd = ''up'' then (case mg_Up lib m of (err, m') \<Rightarrow> (migrate_report lib ''up'' err m', m'))
      else if cmd = ''down'' then (case mg_Steps lib (-1) m of (err, m') \<Rightarrow> (migrate_report lib ''down 1'' err m', m'))
      else if cmd = ''down-all'' then (case mg_Down lib m of (err, m') \<Rightarrow> (migrate_report lib ''down-all'' err m', m'))
      else if cmd = ''version'' then
        (case mg_Version lib m of
           Inl err \<Rightarrow>
             if errors_is err migrate_ErrNilVersion then (([(''no migrations applied'', [])], None), m)
             else (([], Some (Errorf ''read version: %w'' [] [err])), m)
         | Inr (version, dirty) \<Rightarrow> (([(''version %d (dirty: %t)'', [AInt version, show_bool dirty])], None), m))
      else if cmd = ''force'' then
        (if length args < 2 then (([], Some (ErrorsNew (''force requires a version, e.g. 'migrate force 3'' @ [CHR 0x27]))), m)
         else
           (case Atoi (args ! 1) of
              None \<Rightarrow> (([], Some (Errorf ''force: %q is not a version number'' [AStr (args ! 1)] [])), m)
            | Some version \<Rightarrow>
                (case mg_Force lib version m of
                   (Some err, m') \<Rightarrow> (([], Some (Errorf ''force %d: %w'' [AInt version] [err])), m')
                 | (None, m') \<Rightarrow> (([(''schema forced to version %d'', [AInt version])], None), m'))))
      else (([usage], Some (Errorf ''unknown command %q'' [AStr cmd] [])), m))"

definition migrate_run ::
  "'m migrate_lib \<Rightarrow> Config result \<Rightarrow> open_env \<Rightarrow> string \<Rightarrow> string list \<Rightarrow> 'm \<Rightarrow> 'm migrate_result" where
  "migrate_run lib loaded env path args m =
     (let stop = (\<lambda>out err. \<lparr>mr_output = out, mr_error = Some err, mr_schema = m, mr_open = False\<rparr>) in
      if args = [] then stop [usage] (ErrorsNew ''no command given'')
      else
        (case loaded of
           Inl err \<Rightarrow> stop [] err
         | Inr cfg \<Rightarrow>
             (case migrate_open env cfg path of
                (Inl err, handle) \<Rightarrow> (stop [] err)\<lparr>mr_open := handle\<rparr>
              | (Inr settings, handle) \<Rightarrow>
                  (case migrate_command lib args m of ((out, err), m') \<Rightarrow>
                     \<lparr>mr_output = out, mr_error = err, mr_schema = m', mr_open = False\<rparr>))))"

section \<open>What a command line asks for\<close>

text \<open>The specification: the request a command line stands for, the one call of the library that carries it
  out, and when the version that is printed last can be read.\<close>

datatype migration = ApplyAll | UndoOne | UndoAll | ShowVersion | ForceTo int

definition requested :: "string list \<Rightarrow> migration option" where
  "requested args =
     (case args of
        [] \<Rightarrow> None
      | cmd # rest \<Rightarrow>
          if cmd = ''force'' then (case rest of [] \<Rightarrow> None | v # _ \<Rightarrow> map_option ForceTo (Atoi v))
          else map_of [(''up'', ApplyAll), (''down'', UndoOne), (''down-all'', UndoAll), (''version'', ShowVersion)] cmd)"

definition carried_out :: "'m migrate_lib \<Rightarrow> migration \<Rightarrow> 'm \<Rightarrow> go_error option \<times> 'm" where
  "carried_out lib act m =
     (case act of ApplyAll \<Rightarrow> mg_Up lib m | UndoOne \<Rightarrow> mg_Steps lib (-1) m | UndoAll \<Rightarrow> mg_Down lib m
      | ShowVersion \<Rightarrow> (None, m) | ForceTo v \<Rightarrow> mg_Force lib v m)"

definition version_readable :: "'m migrate_lib \<Rightarrow> 'm \<Rightarrow> bool" where
  "version_readable lib m \<longleftrightarrow> (case mg_Version lib m of Inl err \<Rightarrow> errors_is err migrate_ErrNilVersion | Inr _ \<Rightarrow> True)"

definition is_force :: "migration \<Rightarrow> bool" where
  "is_force act \<longleftrightarrow> (case act of ForceTo _ \<Rightarrow> True | _ \<Rightarrow> False)"

definition opens :: "open_env \<Rightarrow> bool" where
  "opens env \<longleftrightarrow> oe_Open env = None \<and> oe_Ping env = None \<and> oe_WithInstance env = None \<and> oe_NewMigrate env = None"

definition set_password :: "string \<Rightarrow> Config \<Rightarrow> Config" where
  "set_password pw cfg = cfg\<lparr>cfg_Postgres := (cfg_Postgres cfg)\<lparr>pg_Password := pw\<rparr>\<rparr>"

lemma migrate_report_error:
  "snd (migrate_report lib action err m) =
     (case err of
        Some e \<Rightarrow> if \<not> errors_is e migrate_ErrNoChange then Some (Errorf ''%s: %w'' [AStr action] [e])
          else if version_readable lib m then None else Some (Errorf ''read version after %s: %w'' [AStr action] [projl (mg_Version lib m)])
      | None \<Rightarrow> if version_readable lib m then None else Some (Errorf ''read version after %s: %w'' [AStr action] [projl (mg_Version lib m)]))"
  by (auto simp: migrate_report_def version_readable_def Let_def split: option.splits sum.splits prod.splits)

text \<open>The outcome of a request, as an error to return and a schema.\<close>

definition outcome_ok :: "'m migrate_lib \<Rightarrow> migration \<Rightarrow> 'm \<Rightarrow> go_error option \<Rightarrow> 'm \<Rightarrow> bool" where
  "outcome_ok lib act m err m' \<longleftrightarrow>
     m' = snd (carried_out lib act m)
     \<and> (case fst (carried_out lib act m) of
          None \<Rightarrow> (err = None) = (is_force act \<or> version_readable lib m')
        | Some e \<Rightarrow>
            if errors_is e migrate_ErrNoChange \<and> \<not> is_force act then (err = None) = version_readable lib m'
            else (\<exists>f as. err = Some (Errorf f as [e])))"

lemma command_outcome:
  assumes "args \<noteq> []"
  shows "case requested args of
      None \<Rightarrow> snd (migrate_command lib args m) = m \<and> snd (fst (migrate_command lib args m)) \<noteq> None
    | Some act \<Rightarrow> outcome_ok lib act m (snd (fst (migrate_command lib args m))) (snd (migrate_command lib args m))"
proof -
  obtain cmd rest where args: "args = cmd # rest" using assms by (cases args) auto
  note defs = args migrate_command_def requested_def outcome_ok_def carried_out_def is_force_def Let_def
  have moved: "snd (fst (migrate_command lib args m)) = snd (migrate_report lib action (fst (carried_out lib act m)) (snd (carried_out lib act m)))
      \<Longrightarrow> snd (migrate_command lib args m) = snd (carried_out lib act m) \<Longrightarrow> \<not> is_force act
      \<Longrightarrow> outcome_ok lib act m (snd (fst (migrate_command lib args m))) (snd (migrate_command lib args m))" for action act
    by (cases "fst (carried_out lib act m)") (simp_all add: outcome_ok_def migrate_report_error)
  consider "cmd = ''up''" | "cmd = ''down''" | "cmd = ''down-all''" | "cmd = ''version''" | "cmd = ''force''"
    | "cmd \<notin> {''up'', ''down'', ''down-all'', ''version'', ''force''}" by blast
  then show ?thesis
  proof cases
    case 1
    then show ?thesis using moved [of "''up''" ApplyAll]
      by (simp add: args migrate_command_def requested_def carried_out_def is_force_def split_beta)
  next
    case 2
    then show ?thesis using moved [of "''down 1''" UndoOne]
      by (simp add: args migrate_command_def requested_def carried_out_def is_force_def split_beta)
  next
    case 3
    then show ?thesis using moved [of "''down-all''" UndoAll]
      by (simp add: args migrate_command_def requested_def carried_out_def is_force_def split_beta)
  next
    case 4
    then show ?thesis by (auto simp: defs version_readable_def split: sum.split)
  next
    case 5
    then show ?thesis by (cases rest) (auto simp: defs split: option.split prod.split)
  next
    case 6
    then show ?thesis by (simp add: defs)
  qed
qed

section \<open>Properties\<close>


end
