(* ===== verification/DevToken.thy ===== *)
theory DevToken
  imports Bootstrap
begin

text \<open>
  The development token tool (\<^verbatim>\<open>src/cmd/devtoken\<close>).  Key generation, the X.509 and PEM codecs and the
  signing of the JWT package are the argument \<open>signing\<close>; \<open>token_laws\<close> is what their documentation says of
  them together with the decoders and the parser the verifier uses.  The file system is a state, with
  the failures of its calls as arguments.
\<close>

section \<open>Paths and files\<close>

text \<open>\<^verbatim>\<open>filepath.Join\<close> and \<^verbatim>\<open>filepath.Clean\<close> on a system with slashes.\<close>

fun clean_names :: "bool \<Rightarrow> string list \<Rightarrow> string list \<Rightarrow> string list" where
  "clean_names rooted acc [] = rev acc"
| "clean_names rooted acc (e # es) =
     (if e = '''' \<or> e = ''.'' then clean_names rooted acc es
      else if e = ''..'' then
        (if acc \<noteq> [] \<and> hd acc \<noteq> ''..'' then clean_names rooted (tl acc) es
         else if rooted then clean_names rooted acc es
         else clean_names rooted (e # acc) es)
      else clean_names rooted (e # acc) es)"

fun join_names :: "string list \<Rightarrow> string" where
  "join_names [] = ''''"
| "join_names [e] = e"
| "join_names (e # es) = e @ ''/'' @ join_names es"

definition filepath_Clean :: "string \<Rightarrow> string" where
  "filepath_Clean p =
     (let rooted = HasPrefix p ''/''; es = clean_names rooted [] (Split p CHR ''/'') in
      if rooted then ''/'' @ join_names es else if es = [] then ''.'' else join_names es)"

definition filepath_Join :: "string \<Rightarrow> string \<Rightarrow> string" where
  "filepath_Join dir name = filepath_Clean (if dir = '''' then name else dir @ ''/'' @ name)"

text \<open>Directories and files with their modes; \<^verbatim>\<open>os.WriteFile\<close> gives its mode only to a file it creates.\<close>

record files =
  fl_dirs :: "(string \<times> int) list"
  fl_files :: "string \<Rightarrow> (string \<times> int) option"

definition ReadFile :: "files \<Rightarrow> string \<Rightarrow> string result" where
  "ReadFile fs path = (case fl_files fs path of None \<Rightarrow> Inl (LibError ''no such file or directory'') | Some (c, _) \<Rightarrow> Inr c)"

definition MkdirAll :: "go_error option \<Rightarrow> string \<Rightarrow> int \<Rightarrow> files \<Rightarrow> go_error option \<times> files" where
  "MkdirAll flt dir mode fs =
     (case flt of
        Some err \<Rightarrow> (Some err, fs)
      | None \<Rightarrow> (None, if dir \<in> fst ` set (fl_dirs fs) then fs else fs\<lparr>fl_dirs := fl_dirs fs @ [(dir, mode)]\<rparr>))"

text \<open>A failed write may leave part of the contents behind.\<close>

definition WriteFile :: "(go_error \<times> string) option \<Rightarrow> string \<Rightarrow> string \<Rightarrow> int \<Rightarrow> files \<Rightarrow> go_error option \<times> files" where
  "WriteFile flt path contents mode fs =
     (let keep = (case fl_files fs path of None \<Rightarrow> mode | Some (_, m) \<Rightarrow> m) in
      case flt of
        Some (err, part) \<Rightarrow> (Some err, fs\<lparr>fl_files := (fl_files fs)(path \<mapsto> (part, keep))\<rparr>)
      | None \<Rightarrow> (None, fs\<lparr>fl_files := (fl_files fs)(path \<mapsto> (contents, keep))\<rparr>))"

section \<open>Keys and claims\<close>

datatype private_key = RSAPrivate string | OtherPrivate string

record MapClaims =
  mc_iss :: string
  mc_aud :: string
  mc_sub :: string
  mc_scope :: string
  mc_iat :: int
  mc_nbf :: int
  mc_exp :: int

record signing =
  GenerateKey :: "int \<Rightarrow> string result"
  PublicKey :: "string \<Rightarrow> string"
  ParsePKCS1PrivateKey :: "string \<Rightarrow> string result"
  ParsePKCS8PrivateKey :: "string \<Rightarrow> private_key result"
  MarshalPKCS1PrivateKey :: "string \<Rightarrow> string"
  MarshalPKIXPublicKey :: "string \<Rightarrow> string result"
  pem_EncodeToMemory :: "string \<Rightarrow> string \<Rightarrow> string"
  SignedString :: "string \<Rightarrow> MapClaims \<Rightarrow> string \<Rightarrow> string result"

text \<open>What a run meets: the clock (in nanoseconds) and the failures of the file system.\<close>

record dev_env =
  dv_now :: int
  dv_mkdir :: "go_error option"
  dv_private :: "(go_error \<times> string) option"
  dv_public :: "(go_error \<times> string) option"

definition Unix :: "int \<Rightarrow> int" where
  "Unix t = t div 1000000000"

definition loadOrGenerateKey :: "crypto \<Rightarrow> signing \<Rightarrow> files \<Rightarrow> string \<Rightarrow> (string \<times> bool) result" where
  "loadOrGenerateKey lib sg fs path =
     (if path = '''' then
        (case GenerateKey sg 2048 of
           Inl err \<Rightarrow> Inl (Errorf ''generating key: %w'' [] [err])
         | Inr key \<Rightarrow> Inr (key, True))
      else
        (case ReadFile fs path of
           Inl err \<Rightarrow> Inl (Errorf ''reading %s: %w'' [AStr path] [err])
         | Inr raw \<Rightarrow>
        (case pem_Decode lib raw of
           None \<Rightarrow> Inl (Errorf ''%s is not valid PEM'' [AStr path] [])
         | Some (_, bytes) \<Rightarrow>
        (case ParsePKCS1PrivateKey sg bytes of
           Inr key \<Rightarrow> Inr (key, False)
         | Inl _ \<Rightarrow>
        (case ParsePKCS8PrivateKey sg bytes of
           Inl err \<Rightarrow> Inl (Errorf ''parsing %s: %w'' [AStr path] [err])
         | Inr (RSAPrivate key) \<Rightarrow> Inr (key, False)
         | Inr (OtherPrivate _) \<Rightarrow> Inl (ErrorsNew ''key is not an RSA private key''))))))"

definition encodePublicKey :: "signing \<Rightarrow> string \<Rightarrow> string result" where
  "encodePublicKey sg key =
     (case MarshalPKIXPublicKey sg key of
        Inl err \<Rightarrow> Inl (Errorf ''encoding public key: %w'' [] [err])
      | Inr der \<Rightarrow> Inr (pem_EncodeToMemory sg ''PUBLIC KEY'' der))"

definition writeKeypair :: "signing \<Rightarrow> dev_env \<Rightarrow> string \<Rightarrow> string \<Rightarrow> string \<Rightarrow> files \<Rightarrow> go_error option \<times> files" where
  "writeKeypair sg env dir key publicPEM fs =
     (case MkdirAll (dv_mkdir env) dir 448 fs of
        (Some err, fs1) \<Rightarrow> (Some (Errorf ''creating %s: %w'' [AStr dir] [err]), fs1)
      | (None, fs1) \<Rightarrow>
     (let privatePEM = pem_EncodeToMemory sg ''RSA PRIVATE KEY'' (MarshalPKCS1PrivateKey sg key) in
      case WriteFile (dv_private env) (filepath_Join dir ''private.pem'') privatePEM 384 fs1 of
        (Some err, fs2) \<Rightarrow> (Some (Errorf ''writing private key: %w'' [] [err]), fs2)
      | (None, fs2) \<Rightarrow>
     (case WriteFile (dv_public env) (filepath_Join dir ''public.pem'') publicPEM 420 fs2 of
        (Some err, fs3) \<Rightarrow> (Some (Errorf ''writing public key: %w'' [] [err]), fs3)
      | (None, fs3) \<Rightarrow> (None, fs3))))"

definition mint :: "signing \<Rightarrow> int \<Rightarrow> string \<Rightarrow> string \<Rightarrow> string \<Rightarrow> string \<Rightarrow> string \<Rightarrow> int \<Rightarrow> string result" where
  "mint sg now key issuer audience subject scopes ttl =
     (let claims = \<lparr>mc_iss = issuer, mc_aud = audience, mc_sub = subject, mc_scope = scopes,
                    mc_iat = Unix now, mc_nbf = Unix now, mc_exp = Unix (now + ttl)\<rparr> in
      case SignedString sg ''RS256'' claims key of
        Inl err \<Rightarrow> Inl (Errorf ''signing token: %w'' [] [err])
      | Inr token \<Rightarrow> Inr token)"

section \<open>The command\<close>

record dev_args =
  da_issuer :: string
  da_audience :: string
  da_subject :: string
  da_scopes :: string
  da_ttl :: int
  da_keyPath :: string
  da_outDir :: string
  da_quiet :: bool

text \<open>The lines that are printed; the expiry is shown as its instant.\<close>

definition dev_report :: "dev_env \<Rightarrow> dev_args \<Rightarrow> string \<Rightarrow> string \<Rightarrow> bool \<Rightarrow> printed" where
  "dev_report env args token publicPEM generated =
     (if da_quiet args then [(''%s'', [AStr token])]
      else
        [(''# DEVELOPMENT TOKEN '' @ [CHR 0xE2, CHR 0x80, CHR 0x94] @ '' not production authentication infrastructure.'', []), (''#'', []),
         (''# issuer   %s'', [AStr (da_issuer args)]), (''# audience %s'', [AStr (da_audience args)]),
         (''# subject  %s'', [AStr (da_subject args)]), (''# scopes   %s'', [AStr (da_scopes args)]),
         (''# expires  %s'', [AInt (Unix (dv_now env + da_ttl args))]),
         ('''', []), (''# Configure the service with the matching public key:'', []),
         (''export JWT_ISSUER=%q'', [AStr (da_issuer args)]), (''export JWT_AUDIENCE=%q'', [AStr (da_audience args)]),
         (''export JWT_PUBLIC_KEY=%q'', [AStr publicPEM]), ('''', []),
         (''# Then call the API:'', []), (''export TOKEN=%q'', [AStr token]),
         (''grpcurl -plaintext -H '' @ [CHR 0x22] @ ''authorization: Bearer $TOKEN'' @ [CHR 0x22] @ '' '' @ [CHR 0x5C], []),
         (''  -d '' @ [CHR 0x27, CHR 0x7B, CHR 0x22] @ ''currency'' @ [CHR 0x22] @ '':'' @ [CHR 0x22] @ ''USD'' @ [CHR 0x22, CHR 0x7D, CHR 0x27, CHR 0x20, CHR 0x5C], []),
         (''  localhost:9090 payments.v1.PaymentsService/CreateAccount'', [])]
        @ (if generated \<and> da_outDir args \<noteq> ''''
           then [('''', []), (''# keypair written to %s (development only, do not commit)'', [AStr (da_outDir args)])] else []))"

definition devtoken_run ::
  "crypto \<Rightarrow> signing \<Rightarrow> dev_env \<Rightarrow> dev_args \<Rightarrow> files \<Rightarrow> (printed \<times> go_error option) \<times> files" where
  "devtoken_run lib sg env args fs =
     (case loadOrGenerateKey lib sg fs (da_keyPath args) of
        Inl err \<Rightarrow> (([], Some err), fs)
      | Inr (key, generated) \<Rightarrow>
     (case encodePublicKey sg (PublicKey sg key) of
        Inl err \<Rightarrow> (([], Some err), fs)
      | Inr publicPEM \<Rightarrow>
     (case (if generated \<and> da_outDir args \<noteq> '''' then writeKeypair sg env (da_outDir args) key publicPEM fs else (None, fs)) of
        (Some err, fs1) \<Rightarrow> (([], Some err), fs1)
      | (None, fs1) \<Rightarrow>
     (case mint sg (dv_now env) key (da_issuer args) (da_audience args) (da_subject args) (da_scopes args) (da_ttl args) of
        Inl err \<Rightarrow> (([], Some err), fs1)
      | Inr token \<Rightarrow> ((dev_report env args token publicPEM generated, None), fs1)))))"

section \<open>What the libraries promise\<close>

text \<open>The checks of the JWT parser at the time \<open>now\<close>.\<close>

definition accepts :: "parser_options \<Rightarrow> int \<Rightarrow> MapClaims \<Rightarrow> bool" where
  "accepts opts now c \<longleftrightarrow> ''RS256'' \<in> set (po_ValidMethods opts) \<and> po_Issuer opts = mc_iss c \<and> po_Audience opts = mc_aud c
     \<and> now < mc_exp c * 1000000000 + po_Leeway opts \<and> mc_nbf c * 1000000000 - po_Leeway opts \<le> now"

text \<open>
  The claims that survive \<^verbatim>\<open>encoding/json\<close>: text in valid UTF-8 (anything else is coerced to U+FFFD) and
  times a floating-point number holds exactly.
\<close>

definition plain_claims :: "MapClaims \<Rightarrow> bool" where
  "plain_claims c \<longleftrightarrow> valid_string (mc_iss c) \<and> valid_string (mc_aud c) \<and> valid_string (mc_sub c) \<and> valid_string (mc_scope c)
     \<and> list_all (\<lambda>t. 0 \<le> t \<and> t < 2 ^ 53) [mc_iat c, mc_nbf c, mc_exp c]"

text \<open>
  The two PEM types in use decode to what was encoded and are not blank; a generated key survives
  its PKCS #1 form and its public half its PKIX form; and a token signed with a generated key over plain
  claims parses, where the options accept the claims, to these claims.
\<close>

definition token_laws :: "crypto \<Rightarrow> signing \<Rightarrow> int \<Rightarrow> bool" where
  "token_laws lib sg now \<longleftrightarrow>
     (\<forall>ty \<in> {''PUBLIC KEY'', ''RSA PRIVATE KEY''}. \<forall>b.
        pem_Decode lib (pem_EncodeToMemory sg ty b) = Some (ty, b) \<and> TrimSpace (pem_EncodeToMemory sg ty b) \<noteq> '''')
     \<and> (\<forall>key. GenerateKey sg 2048 = Inr key \<longrightarrow>
          ParsePKCS1PrivateKey sg (MarshalPKCS1PrivateKey sg key) = Inr key
          \<and> (\<forall>der. MarshalPKIXPublicKey sg (PublicKey sg key) = Inr der \<longrightarrow> ParsePKIXPublicKey lib der = Inr (RSAKey (PublicKey sg key)))
          \<and> (\<forall>claims tok opts. SignedString sg ''RS256'' claims key = Inr tok \<longrightarrow> plain_claims claims \<longrightarrow> tok \<noteq> ''''
               \<and> (accepts opts now claims \<longrightarrow> ParseWithClaims lib opts (PublicKey sg key) tok =
                    Inr (\<lparr>jc_Subject = mc_sub claims, jc_Scope = mc_scope claims, jc_Scopes = []\<rparr>, True))))"

lemma token_lawsD:
  assumes "token_laws lib sg now"
  shows "ty \<in> {''PUBLIC KEY'', ''RSA PRIVATE KEY''} \<Longrightarrow> pem_Decode lib (pem_EncodeToMemory sg ty b) = Some (ty, b)"
    "ty \<in> {''PUBLIC KEY'', ''RSA PRIVATE KEY''} \<Longrightarrow> TrimSpace (pem_EncodeToMemory sg ty b) \<noteq> ''''"
    "GenerateKey sg 2048 = Inr key \<Longrightarrow> ParsePKCS1PrivateKey sg (MarshalPKCS1PrivateKey sg key) = Inr key"
    "GenerateKey sg 2048 = Inr key \<Longrightarrow> MarshalPKIXPublicKey sg (PublicKey sg key) = Inr der \<Longrightarrow>
       ParsePKIXPublicKey lib der = Inr (RSAKey (PublicKey sg key))"
    "GenerateKey sg 2048 = Inr key \<Longrightarrow> SignedString sg ''RS256'' claims key = Inr tok \<Longrightarrow> plain_claims claims \<Longrightarrow> tok \<noteq> ''''"
    "GenerateKey sg 2048 = Inr key \<Longrightarrow> SignedString sg ''RS256'' claims key = Inr tok \<Longrightarrow> plain_claims claims \<Longrightarrow> accepts opts now claims \<Longrightarrow>
       ParseWithClaims lib opts (PublicKey sg key) tok = Inr (\<lparr>jc_Subject = mc_sub claims, jc_Scope = mc_scope claims, jc_Scopes = []\<rparr>, True)"
  using assms unfolding token_laws_def by blast+

section \<open>Facts\<close>

lemma Split_loop_plain: "sep \<notin> set n \<Longrightarrow> Split_loop sep n cur = [cur @ n]"
  by (induction sep n cur rule: Split_loop.induct) auto

lemma Split_snoc: "sep \<notin> set n \<Longrightarrow> Split_loop sep (s @ sep # n) cur = Split_loop sep s cur @ [n]"
  by (induction sep s cur rule: Split_loop.induct) (simp_all add: Split_loop_plain)

lemma clean_names_snoc:
  "n \<notin> {'''', ''.'', ''..''} \<Longrightarrow> \<exists>es'. clean_names rooted acc (es @ [n]) = es' @ [n]"
  by (induction rooted acc es rule: clean_names.induct) auto

lemma join_names_snoc: "\<exists>pre. join_names (es @ [n]) = pre @ n"
proof (induction es rule: join_names.induct)
  case (3 e f es)
  then show ?case by (auto intro: exI [of _ "e @ ''/'' @ _"])
qed auto

lemma filepath_Join_suffix:
  assumes "CHR ''/'' \<notin> set n" and "n \<notin> {'''', ''.'', ''..''}" and "dir \<noteq> ''''"
  shows "\<exists>pre. filepath_Join dir n = pre @ n"
proof -
  let ?r = "HasPrefix (dir @ ''/'' @ n) ''/''"
  have "Split (dir @ ''/'' @ n) CHR ''/'' = Split dir CHR ''/'' @ [n]" using assms(1) by (simp add: Split_def Split_snoc)
  moreover obtain es where "clean_names ?r [] (Split dir CHR ''/'' @ [n]) = es @ [n]" using clean_names_snoc [OF assms(2)] by blast
  moreover obtain pre where "join_names (es @ [n]) = pre @ n" using join_names_snoc by blast
  ultimately show ?thesis using assms(3) by (auto simp: filepath_Join_def filepath_Clean_def Let_def)
qed

lemma pem_paths_differ:
  assumes "dir \<noteq> ''''"
  shows "filepath_Join dir ''private.pem'' \<noteq> filepath_Join dir ''public.pem''"
proof -
  obtain p q where "filepath_Join dir ''private.pem'' = p @ ''private.pem''" "filepath_Join dir ''public.pem'' = q @ ''public.pem''"
    using filepath_Join_suffix [of "''private.pem''" dir] filepath_Join_suffix [of "''public.pem''" dir] assms by auto
  moreover have "rev (p @ ''private.pem'') \<noteq> rev (q @ ''public.pem'')" by simp
  ultimately show ?thesis by metis
qed

lemma filepath_Join_nonempty: "dir \<noteq> '''' \<Longrightarrow> filepath_Join dir ''private.pem'' \<noteq> '''' \<and> filepath_Join dir ''public.pem'' \<noteq> ''''"
  using filepath_Join_suffix [of "''private.pem''" dir] filepath_Join_suffix [of "''public.pem''" dir] by auto

lemma encodePublicKey_verifier:
  assumes "token_laws lib sg now" and "GenerateKey sg 2048 = Inr key" and "encodePublicKey sg (PublicKey sg key) = Inr pem"
    and "iss \<noteq> ''''" and "aud \<noteq> ''''"
  shows "NewVerifier lib \<lparr>vc_PublicKeyPEM = pem, vc_Issuer = iss, vc_Audience = aud, vc_Leeway = leeway\<rparr> =
    Inr \<lparr>v_parser = \<lparr>po_ValidMethods = [''RS256''], po_Issuer = iss, po_Audience = aud, po_ExpirationRequired = True, po_Leeway = leeway\<rparr>,
         v_key = PublicKey sg key, v_issuer = iss, v_audience = aud\<rparr>"
proof -
  obtain der where der: "MarshalPKIXPublicKey sg (PublicKey sg key) = Inr der" "pem = pem_EncodeToMemory sg ''PUBLIC KEY'' der"
    using assms(3) by (auto simp: encodePublicKey_def split: sum.splits)
  have "\<not> contains_sub ''PUBLIC KEY'' ''PRIVATE''" by code_simp
  with der token_lawsD(1) [OF assms(1)] token_lawsD(4) [OF assms(1,2) der(1)]
  have "parseRSAPublicKey lib pem = Inr (PublicKey sg key)" by (simp add: parseRSAPublicKey_def)
  with der token_lawsD(2) [OF assms(1)] assms(4,5) show ?thesis by (simp add: NewVerifier_def)
qed

text \<open>The clock of a run and the life of its token, within what a JSON number holds.\<close>

definition plain_times :: "int \<Rightarrow> int \<Rightarrow> bool" where
  "plain_times now ttl \<longleftrightarrow> 0 \<le> now \<and> Unix (now + ttl) < 2 ^ 53"

lemma mint_verifies:
  assumes laws: "token_laws lib sg now'" and "mint sg now key iss aud sub scopes ttl = Inr token"
    and gen: "GenerateKey sg 2048 = Inr key" and plain: "list_all valid_string [iss, aud, sub, scopes]" "plain_times now ttl"
    and sub: "TrimSpace sub \<noteq> ''''" and leeway: "0 \<le> leeway" and times: "now \<le> now'" "now' + 1000000000 \<le> now + ttl"
    and v: "v_parser v = \<lparr>po_ValidMethods = [''RS256''], po_Issuer = iss, po_Audience = aud, po_ExpirationRequired = True, po_Leeway = leeway\<rparr>"
      "v_key v = PublicKey sg key"
  shows "Verify lib v token = Inr \<lparr>pr_Subject = TrimSpace sub, pr_Issuer = v_issuer v, pr_Audience = v_audience v, pr_Scopes = parseScopes scopes\<rparr>"
proof -
  let ?c = "\<lparr>mc_iss = iss, mc_aud = aud, mc_sub = sub, mc_scope = scopes, mc_iat = Unix now, mc_nbf = Unix now, mc_exp = Unix (now + ttl)\<rparr>"
  have token: "SignedString sg ''RS256'' ?c key = Inr token" using assms(2) by (auto simp: mint_def Let_def split: sum.splits)
  have "now' < Unix (now + ttl) * 1000000000 + leeway" "Unix now * 1000000000 - leeway \<le> now'"
    using times leeway unfolding Unix_def by linarith+
  then have "accepts (v_parser v) now' ?c" by (simp add: accepts_def v)
  moreover have "0 \<le> Unix now" "Unix now \<le> Unix (now + ttl)"
    using plain(2) times unfolding plain_times_def Unix_def by (simp_all add: zdiv_mono1 pos_imp_zdiv_nonneg_iff)
  then have "plain_claims ?c" using plain by (simp add: plain_claims_def plain_times_def)
  ultimately show ?thesis using token_lawsD(5,6) [OF laws gen token] v(2) sub by (simp add: Verify_def Let_def)
qed

text \<open>The steps of a run that succeeds.\<close>

lemma devtoken_run_steps:
  assumes "devtoken_run lib sg env args fs = ((out, None), fs')"
  obtains key generated pem token
  where "loadOrGenerateKey lib sg fs (da_keyPath args) = Inr (key, generated)" "encodePublicKey sg (PublicKey sg key) = Inr pem"
    "mint sg (dv_now env) key (da_issuer args) (da_audience args) (da_subject args) (da_scopes args) (da_ttl args) = Inr token"
    "out = dev_report env args token pem generated"
    "if generated \<and> da_outDir args \<noteq> '''' then writeKeypair sg env (da_outDir args) key pem fs = (None, fs') else fs' = fs"
  using assms by (auto simp: devtoken_run_def split: sum.splits prod.splits option.splits if_splits)

lemma writeKeypair_files:
  assumes "writeKeypair sg env dir key pem fs = (None, fs')" and "dir \<noteq> ''''"
  shows "ReadFile fs' (filepath_Join dir ''private.pem'') = Inr (pem_EncodeToMemory sg ''RSA PRIVATE KEY'' (MarshalPKCS1PrivateKey sg key))"
    "ReadFile fs' (filepath_Join dir ''public.pem'') = Inr pem"
    "map_option snd (fl_files fs' (filepath_Join dir ''private.pem'')) =
       Some (case fl_files fs (filepath_Join dir ''private.pem'') of None \<Rightarrow> 384 | Some (_, m) \<Rightarrow> m)"
  using assms(1) pem_paths_differ [OF assms(2)]
  by (auto simp: writeKeypair_def WriteFile_def MkdirAll_def ReadFile_def Let_def split: option.splits prod.splits if_splits)

lemma loadOrGenerateKey_written:
  assumes "token_laws lib sg now" and "path \<noteq> ''''" and "GenerateKey sg 2048 = Inr key"
    and "ReadFile fs path = Inr (pem_EncodeToMemory sg ''RSA PRIVATE KEY'' (MarshalPKCS1PrivateKey sg key))"
  shows "loadOrGenerateKey lib sg fs path = Inr (key, False)"
  using assms(2,4) token_lawsD(1) [OF assms(1)] token_lawsD(3) [OF assms(1,3)] by (simp add: loadOrGenerateKey_def)

section \<open>Properties\<close>

text \<open>C39: The documented use of the tool works: a first run generates a key pair into a directory and prints
  a token, a second run mints another token from the key it finds there, and a service configured with
  the public key file, the issuer and the audience accepts both tokens, for the subjects and scopes they
  were minted for (given in valid UTF-8), until a second before they expire.  The private key gets mode
  0600 unless the file was there before.\<close>

theorem devtoken_roundtrip:
  assumes laws: "token_laws lib sg now"
    and first: "devtoken_run lib sg env1 args1 fs = ((out1, None), fs1)" "da_keyPath args1 = ''''" "da_outDir args1 \<noteq> ''''"
    and second: "devtoken_run lib sg env2 args2 fs1 = ((out2, None), fs2)"
      "da_keyPath args2 = filepath_Join (da_outDir args1) ''private.pem''"
    and claims: "da_issuer args1 \<noteq> ''''" "da_audience args1 \<noteq> ''''" "da_issuer args2 = da_issuer args1" "da_audience args2 = da_audience args1"
      "TrimSpace (da_subject args1) \<noteq> ''''" "TrimSpace (da_subject args2) \<noteq> ''''"
    and plain: "list_all valid_string [da_issuer args1, da_audience args1, da_subject args1, da_scopes args1]"
      "list_all valid_string [da_subject args2, da_scopes args2]"
      "plain_times (dv_now env1) (da_ttl args1)" "plain_times (dv_now env2) (da_ttl args2)"
    and times: "dv_now env1 \<le> now" "now + 1000000000 \<le> dv_now env1 + da_ttl args1"
      "dv_now env2 \<le> now" "now + 1000000000 \<le> dv_now env2 + da_ttl args2"
    and cfg: "jwt_PublicKeyFile (cfg_JWT cfg) = filepath_Join (da_outDir args1) ''public.pem''"
      "jwt_Issuer (cfg_JWT cfg) = da_issuer args1" "jwt_Audience (cfg_JWT cfg) = da_audience args1" "0 \<le> jwt_Leeway (cfg_JWT cfg)"
  shows "\<exists>v token1 token2 pem. VerifierFromConfig lib (ReadFile fs2) cfg = Inr (Some v)
    \<and> out1 = dev_report env1 args1 token1 pem True \<and> out2 = dev_report env2 args2 token2 pem False
    \<and> Verify lib v token1 = Inr \<lparr>pr_Subject = TrimSpace (da_subject args1), pr_Issuer = da_issuer args1,
         pr_Audience = da_audience args1, pr_Scopes = parseScopes (da_scopes args1)\<rparr>
    \<and> Verify lib v token2 = Inr \<lparr>pr_Subject = TrimSpace (da_subject args2), pr_Issuer = da_issuer args1,
         pr_Audience = da_audience args1, pr_Scopes = parseScopes (da_scopes args2)\<rparr>
    \<and> map_option snd (fl_files fs1 (filepath_Join (da_outDir args1) ''private.pem'')) =
        Some (case fl_files fs (filepath_Join (da_outDir args1) ''private.pem'') of None \<Rightarrow> 384 | Some (_, m) \<Rightarrow> m)"
proof -
  let ?dir = "da_outDir args1"
  obtain key generated pem token1 where run1: "loadOrGenerateKey lib sg fs (da_keyPath args1) = Inr (key, generated)"
      "encodePublicKey sg (PublicKey sg key) = Inr pem"
      "mint sg (dv_now env1) key (da_issuer args1) (da_audience args1) (da_subject args1) (da_scopes args1) (da_ttl args1) = Inr token1"
      "out1 = dev_report env1 args1 token1 pem generated"
      "if generated \<and> ?dir \<noteq> '''' then writeKeypair sg env1 ?dir key pem fs = (None, fs1) else fs1 = fs"
    using first(1) by (rule devtoken_run_steps)
  then have gen: generated "GenerateKey sg 2048 = Inr key" using first(2) by (auto simp: loadOrGenerateKey_def split: sum.splits)
  from gen(1) run1(5) first(3) have written: "writeKeypair sg env1 ?dir key pem fs = (None, fs1)" by simp
  note files = writeKeypair_files [OF written first(3)]
  obtain key2 generated2 pem2 token2 where run2: "loadOrGenerateKey lib sg fs1 (da_keyPath args2) = Inr (key2, generated2)"
      "encodePublicKey sg (PublicKey sg key2) = Inr pem2"
      "mint sg (dv_now env2) key2 (da_issuer args2) (da_audience args2) (da_subject args2) (da_scopes args2) (da_ttl args2) = Inr token2"
      "out2 = dev_report env2 args2 token2 pem2 generated2"
      "if generated2 \<and> da_outDir args2 \<noteq> '''' then writeKeypair sg env2 (da_outDir args2) key2 pem2 fs1 = (None, fs2) else fs2 = fs1"
    using second(1) by (rule devtoken_run_steps)
  have "key2 = key" "\<not> generated2"
    using run2(1) loadOrGenerateKey_written [OF laws _ gen(2) files(1)] filepath_Join_nonempty [OF first(3)] second(2) by simp_all
  with run2 run1(2) have same: "pem2 = pem" "fs2 = fs1" by simp_all
  let ?v = "\<lparr>v_parser = \<lparr>po_ValidMethods = [''RS256''], po_Issuer = da_issuer args1, po_Audience = da_audience args1,
      po_ExpirationRequired = True, po_Leeway = jwt_Leeway (cfg_JWT cfg)\<rparr>,
      v_key = PublicKey sg key, v_issuer = da_issuer args1, v_audience = da_audience args1\<rparr>"
  have "VerifierFromConfig lib (ReadFile fs2) cfg = Inr (Some ?v)"
    using encodePublicKey_verifier [OF laws gen(2) run1(2) claims(1,2)] claims(1) filepath_Join_nonempty [OF first(3)]
    by (simp add: VerifierFromConfig_def cfg(1-3) same files(2) Let_def)
  moreover have "Verify lib ?v token1 = Inr \<lparr>pr_Subject = TrimSpace (da_subject args1), pr_Issuer = v_issuer ?v,
      pr_Audience = v_audience ?v, pr_Scopes = parseScopes (da_scopes args1)\<rparr>"
    by (rule mint_verifies [OF laws run1(3) gen(2) plain(1,3) claims(5) cfg(4) times(1,2)]) simp_all
  moreover have "Verify lib ?v token2 = Inr \<lparr>pr_Subject = TrimSpace (da_subject args2), pr_Issuer = v_issuer ?v,
      pr_Audience = v_audience ?v, pr_Scopes = parseScopes (da_scopes args2)\<rparr>"
    by (rule mint_verifies [OF laws run2(3) _ _ plain(4) claims(6) cfg(4) times(3,4)])
      (use plain gen(2) in \<open>simp_all add: claims \<open>key2 = key\<close>\<close>)
  ultimately show ?thesis
    using run1(4) run2(4) gen(1) \<open>\<not> generated2\<close> same files(3) by auto
qed

text \<open>A concrete pair of libraries: a PEM block carries the length of its type in unary, keys are their own
  encodings, and two sets of claims can be signed.\<close>

definition sample_claims :: "string \<Rightarrow> string \<Rightarrow> MapClaims" where
  "sample_claims sub scope = \<lparr>mc_iss = ''iss'', mc_aud = ''aud'', mc_sub = sub, mc_scope = scope, mc_iat = 1, mc_nbf = 1, mc_exp = 61\<rparr>"

definition sample_signing :: signing where
  "sample_signing =
     \<lparr>GenerateKey = (\<lambda>bits. Inr ''k''), PublicKey = (\<lambda>k. k), ParsePKCS1PrivateKey = Inr,
      ParsePKCS8PrivateKey = (\<lambda>b. Inl (LibError ''asn1'')), MarshalPKCS1PrivateKey = (\<lambda>k. k), MarshalPKIXPublicKey = Inr,
      pem_EncodeToMemory = (\<lambda>ty b. replicate (length ty) CHR ''1'' @ ''-'' @ ty @ b),
      SignedString = (\<lambda>m c k. if c = sample_claims ''al'' ''ledger:read'' then Inr ''tok1''
        else if c = sample_claims ''bo'' ''accounts:read'' then Inr ''tok2'' else Inl (LibError ''unsupported claims''))\<rparr>"

definition parse_sample :: "parser_options \<Rightarrow> MapClaims \<Rightarrow> (registeredClaims \<times> bool) result" where
  "parse_sample opts c =
     (if accepts opts 5000000000 c then Inr (\<lparr>jc_Subject = mc_sub c, jc_Scope = mc_scope c, jc_Scopes = []\<rparr>, True)
      else Inl (LibError ''token has invalid claims''))"

definition sample_codec :: crypto where
  "sample_codec =
     \<lparr>pem_Decode = (\<lambda>s. let n = length (takeWhile (\<lambda>c. c = CHR ''1'') s); r = drop (n + 1) s in Some (take n r, drop n r)),
      ParsePKIXPublicKey = (\<lambda>b. Inr (RSAKey b)), ParsePKCS1PublicKey = (\<lambda>b. Inl (LibError ''asn1'')),
      ParseWithClaims = (\<lambda>opts key raw. if raw = ''tok1'' then parse_sample opts (sample_claims ''al'' ''ledger:read'')
        else if raw = ''tok2'' then parse_sample opts (sample_claims ''bo'' ''accounts:read'') else Inl (LibError ''token is malformed''))\<rparr>"

lemma in_set_dropWhile: "x \<in> set xs \<Longrightarrow> \<not> P x \<Longrightarrow> x \<in> set (dropWhile P xs)"
  by (metis Un_iff set_append set_takeWhileD takeWhile_dropWhile_id)

lemma TrimSpace_nonblank:
  assumes "32 < byte_of c" and "byte_of c < 127"
  shows "TrimSpace (c # s) \<noteq> ''''"
proof -
  have seg: "segments (c # s) = (byte_of c, [c]) # segments s" using assms by simp
  have "\<not> space_seg (byte_of c, [c])" using assms by (simp add: IsSpace_def)
  then have "(byte_of c, [c]) \<in> set (dropWhile space_seg (rev (dropWhile space_seg (segments (c # s)))))"
    by (intro in_set_dropWhile) (simp_all only: seg set_rev, simp_all add: in_set_dropWhile)
  then show ?thesis by (force simp: TrimSpace_def join_segs_def)
qed

lemma sample_laws: "token_laws sample_codec sample_signing 5000000000"
proof -
  have "takeWhile (\<lambda>c. c = CHR ''1'') (replicate n CHR ''1'' @ CHR ''-'' # s) = replicate n CHR ''1''" for n s
    by (induction n) simp_all
  then have "pem_Decode sample_codec (pem_EncodeToMemory sample_signing ty b) = Some (ty, b)" for ty b
    by (simp add: sample_codec_def sample_signing_def Let_def)
  moreover have "TrimSpace (pem_EncodeToMemory sample_signing ty b) \<noteq> ''''" for ty b
    by (cases ty) (simp_all add: sample_signing_def TrimSpace_nonblank byte_of_def)
  moreover have "tok \<noteq> '''' \<and> (accepts opts 5000000000 claims \<longrightarrow> ParseWithClaims sample_codec opts (PublicKey sample_signing key) tok =
      Inr (\<lparr>jc_Subject = mc_sub claims, jc_Scope = mc_scope claims, jc_Scopes = []\<rparr>, True))"
    if "SignedString sample_signing ''RS256'' claims key = Inr tok" for key claims tok opts
    using that by (auto simp: sample_signing_def sample_codec_def parse_sample_def split: if_splits)
  ultimately show ?thesis by (simp add: token_laws_def) (simp add: sample_signing_def sample_codec_def)
qed

definition sample_args :: dev_args where
  "sample_args = \<lparr>da_issuer = ''iss'', da_audience = ''aud'', da_subject = ''al'', da_scopes = ''ledger:read'', da_ttl = 60000000000,
     da_keyPath = '''', da_outDir = ''./keys'', da_quiet = True\<rparr>"

definition sample_args2 :: dev_args where
  "sample_args2 = sample_args\<lparr>da_subject := ''bo'', da_scopes := ''accounts:read'', da_keyPath := ''keys/private.pem'', da_outDir := ''''\<rparr>"

definition sample_dev :: dev_env where
  "sample_dev = \<lparr>dv_now = 1000000000, dv_mkdir = None, dv_private = None, dv_public = None\<rparr>"

definition sample_runs :: "((printed \<times> go_error option) \<times> files) \<times> ((printed \<times> go_error option) \<times> files)" where
  "sample_runs =
     (let run1 = devtoken_run sample_codec sample_signing sample_dev sample_args \<lparr>fl_dirs = [], fl_files = \<lambda>_. None\<rparr> in
      (run1, devtoken_run sample_codec sample_signing sample_dev sample_args2 (snd run1)))"

definition dev_config :: Config where
  "dev_config = sample_config\<lparr>cfg_JWT := \<lparr>jwt_PublicKeyPEM = '''', jwt_PublicKeyFile = ''keys/public.pem'', jwt_Issuer = ''iss'',
     jwt_Audience = ''aud'', jwt_Leeway = 0\<rparr>\<rparr>"

theorem devtoken_roundtrip_witness:
  "\<exists>v. VerifierFromConfig sample_codec (ReadFile (snd (snd sample_runs))) dev_config = Inr (Some v)
     \<and> Verify sample_codec v ''tok1'' = Inr \<lparr>pr_Subject = ''al'', pr_Issuer = ''iss'', pr_Audience = ''aud'', pr_Scopes = [''ledger:read'']\<rparr>
     \<and> Verify sample_codec v ''tok2'' = Inr \<lparr>pr_Subject = ''bo'', pr_Issuer = ''iss'', pr_Audience = ''aud'', pr_Scopes = [''accounts:read'']\<rparr>"
proof -
  let ?fs = "\<lparr>fl_dirs = [], fl_files = \<lambda>_. None\<rparr>"
  have "fst (fst sample_runs) = ([(''%s'', [AStr ''tok1''])], None)" by code_simp
  then obtain fs1 where 1: "devtoken_run sample_codec sample_signing sample_dev sample_args ?fs = (([(''%s'', [AStr ''tok1''])], None), fs1)"
    by (cases "devtoken_run sample_codec sample_signing sample_dev sample_args ?fs") (simp add: sample_runs_def Let_def)
  have "fst (snd sample_runs) = ([(''%s'', [AStr ''tok2''])], None)" by code_simp
  with 1 obtain fs2 where 2: "devtoken_run sample_codec sample_signing sample_dev sample_args2 fs1 = (([(''%s'', [AStr ''tok2''])], None), fs2)"
    by (cases "devtoken_run sample_codec sample_signing sample_dev sample_args2 fs1") (simp add: sample_runs_def Let_def)
  have fs2: "snd (snd sample_runs) = fs2" by (simp add: sample_runs_def Let_def 1 2)
  have join: "filepath_Join ''./keys'' ''private.pem'' = ''keys/private.pem''" "filepath_Join ''./keys'' ''public.pem'' = ''keys/public.pem''"
    by code_simp+
  have trim: "TrimSpace ''al'' = ''al''" "TrimSpace ''bo'' = ''bo''" "parseScopes ''ledger:read'' = [''ledger:read'']"
    "parseScopes ''accounts:read'' = [''accounts:read'']"
    by (simp_all add: TrimSpace_def parseScopes_def Fields_def IsSpace_def join_segs_def byte_of_def)
  have plain: "list_all valid_string [''iss'', ''aud'', ''al'', ''ledger:read'', ''bo'', ''accounts:read'']"
    "plain_times 1000000000 60000000000"
    by code_simp+
  note args = sample_args_def sample_args2_def sample_dev_def dev_config_def
  show ?thesis
    using devtoken_roundtrip [OF sample_laws 1 _ _ 2, of dev_config] plain
    by (simp add: args join trim fs2 dev_report_def) blast
qed

end
