(* ===== verification/Spec2Isabelle.thy ===== *)
theory Spec2Isabelle
  imports Bank Ledger Locking Payments Stress Migrate DevToken
begin

text \<open>
  A verification library for the payments ledger of this repository: a Go service that moves money
  between accounts by double-entry transfers in PostgreSQL, answers repeated requests with the same
  transfer, and exposes this over gRPC behind JWT authentication.

  \<^bold>\<open>The program and its model.\<close>  Each theory models one part of \<^verbatim>\<open>src/\<close>, in the order in which the parts
  build on each other, and keeps the names of the code.

  \<^item> \<open>Prelude\<close>: Go's 64-bit integers (\<open>wrap64\<close>), byte strings and runes, UUIDs with their byte order, and
    errors as values (\<open>go_error\<close>) with \<^verbatim>\<open>errors.Is\<close> and \<^verbatim>\<open>errors.As\<close>.  \<open>GoStrings\<close>: the functions of the package
    \<^verbatim>\<open>strings\<close> in use.  \<open>Sha256\<close>: the hash of fingerprints.
  \<^item> \<open>Money\<close> (\<^verbatim>\<open>internal/money\<close>), \<open>Schema\<close> (\<^verbatim>\<open>migrations\<close>: tables, constraints, triggers, statements, COMMIT),
    \<open>Invariant\<close> (what the committed database promises, and the locale \<open>ledger_writer\<close> of everything that
    writes), \<open>Accounts\<close> (\<^verbatim>\<open>internal/account\<close>), \<open>Ledger\<close> (\<^verbatim>\<open>internal/ledger\<close>).
  \<^item> \<open>Retry\<close> and \<open>Transfers\<close> (\<^verbatim>\<open>internal/transfer/retry.go\<close>, \<^verbatim>\<open>transfer.go\<close>): backoff, the retry loop with the
    locale \<open>retried\<close>, and the posting transaction statement by statement.  \<open>Posting\<close> gives the double-entry
    specification (\<open>can_post\<close>, \<open>posted_db\<close>) and proves that the transaction refines it; \<open>PostRetry\<close> does the
    same for the retried call (\<open>call_outcome\<close>) and classifies refusals.  \<open>Locking\<close>: the row locks of
    concurrent postings as a transition system, with the locale \<open>ordered_locking\<close>.
  \<^item> \<open>IdemKey\<close>, \<open>Fingerprint\<close>, \<open>IdemStore\<close> (\<^verbatim>\<open>internal/idempotency\<close>) and \<open>Idempotent\<close>
    (\<^verbatim>\<open>internal/transfer/idempotent.go\<close>): \<open>PostIdempotent\<close> over the pair of the database and the Redis state,
    with its specification \<open>idem_spec\<close>.
  \<^item> \<open>Reconcile\<close> (\<^verbatim>\<open>internal/reconcile\<close>) and \<open>System\<close>: histories of requests of all kinds.  \<open>Bank\<close>: the abstract
    specification of the service as a bank with two operations, the locale \<open>bank_writer\<close> of what refines it,
    and everything the service can commit (\<open>service_write\<close>), where other sessions are again the service.
  \<^item> \<open>Auth\<close> (\<^verbatim>\<open>internal/auth\<close>), \<open>GrpcErrors\<close> and \<open>Payments\<close> (\<^verbatim>\<open>internal/grpcapi\<close>: error table, interceptors, handlers),
    \<open>Health\<close> (\<^verbatim>\<open>internal/health\<close>), \<open>Config\<close> (\<^verbatim>\<open>internal/config\<close>), \<open>GrpcServer\<close> and \<open>HttpServer\<close> (the two servers and
    their lifecycles).
  \<^item> \<open>Bootstrap\<close> (\<^verbatim>\<open>internal/database\<close>, \<^verbatim>\<open>internal/redisclient\<close>, \<^verbatim>\<open>auth/loader.go\<close>, \<^verbatim>\<open>cmd/api\<close>), \<open>Stress\<close> (\<^verbatim>\<open>cmd/stress\<close>),
    \<open>Migrate\<close> (\<^verbatim>\<open>cmd/migrate\<close>) and \<open>DevToken\<close> (\<^verbatim>\<open>cmd/devtoken\<close>).
  \<^item> \<open>Samples\<close>: the concrete ledger on which the properties are instantiated.  This theory holds the
    properties that span components.

  \<^bold>\<open>Concurrency and faults.\<close>  A SERIALIZABLE transaction that commits behaves as if it ran alone, so an
  attempt is a function of the committed database it starts from.  Everything else is in its
  environment: what other sessions commit before it (\<open>ae_others\<close>), the error any statement meets, a
  COMMIT that fails or whose acknowledgement is lost, the identifiers and times drawn.  \<open>env_ok\<close> asks two
  things of it: other sessions are \<open>well_behaved\<close> (as every operation of this program is shown to be), and a
  lost acknowledgement does not carry one of the two retryable SQLSTATEs, which PostgreSQL sends only
  for transactions it has rolled back.  Redis is an arbitrary client (\<open>redis_client\<close>): the safety
  properties of \<open>PostIdempotent\<close> assume nothing of it, and \<open>redis_laws\<close> is used only where mutual exclusion
  of claims is the subject.  The retry loop terminates because the policy bounds it; no fuel is used
  anywhere.

  \<^bold>\<open>What is shown.\<close>  Posting refines its specification on every branch; retries are bounded, survive
  transient conflicts and leave no trace when they fail; locks never deadlock.  At most one transfer
  exists per key, and two successful calls with one key give one answer, also as seen by a gRPC
  client.  The service as a whole refines the abstract bank.  Over every history the ledger stays balanced, money is conserved per currency and
  reconciliation is exact: it raises no false alarm and names every violation once.  No handler runs without a
  verified principal that holds the required scope; internal errors stay opaque.  Readiness over HTTP
  and gRPC agree and depend on PostgreSQL alone; the gRPC status follows the last check while the server
  runs, and once the health service is closed it never reports SERVING again.  Validation accepts exactly
  the usable configurations.  Tokens minted by the development tool are accepted by a service configured
  with its public key, and the migration command changes the schema only as its command line says.
  Some properties show where the code falls short of its documentation: a repeated request is
  refused once its source account was spent (\<open>PostIdempotent_replay_refused\<close>), the request log never names
  the caller (\<open>logRequests_no_subject\<close>), and the load generator loses the problems it collects
  (\<open>stress_problems_lost\<close>), and keys with white space or control characters outside ASCII are accepted
  (\<open>ParseKey_spec\<close>).

  \<^bold>\<open>Parameters.\<close>  Code outside the repository is an argument: the text form and parser of the uuid package,
  the JWT and PEM functions, the Redis client, the pgx pool, the gRPC health service, golang-migrate,
  key generation and signing.
  So are two functions of the standard library, \<^verbatim>\<open>strings.ToLower\<close> (which needs the Unicode tables) and
  \<^verbatim>\<open>time.ParseDuration\<close> (which rounds fractions in floating point).

  \<^bold>\<open>Not modelled.\<close>  Generated protobuf code, log lines, context deadlines other than as errors of the calls
  they end, socket and process handling, and the reading of command-line flags.
\<close>

section \<open>Posting\<close>

text \<open>C1: A posting that reports success has moved the money exactly once: apart from what other
  sessions committed meanwhile, the database is the one the double-entry specification
  prescribes, and the transfer returned is the completed row.\<close>

theorem postWithRetry_success:
  assumes "db_ok d" and "env_ok env" and "c_AmountMinor cmd < 2 ^ 63"
    and "postWithRetry p env cmd stamp d = (Inr t, a, d')"
  shows "\<exists>d0 n. others_steps (others_of env) d d0 \<and> can_post (env n) cmd stamp d0
           \<and> d' = posted_db (env n) cmd stamp d0 \<and> t = Transfer.truncate (posted_row (env n) cmd stamp)"
  using postWithRetry_outcome [OF assms] by (auto simp: call_outcome_def)

theorem postWithRetry_success_witness:
  "\<exists>t a d'. postWithRetry DefaultRetryPolicy sample_envs sample_cmd None sample_db = (Inr t, a, d') \<and> at_Total a = 2
     \<and> (\<exists>d0 n. others_steps (others_of sample_envs) sample_db d0 \<and> can_post (sample_envs n) sample_cmd None d0
           \<and> d' = posted_db (sample_envs n) sample_cmd None d0
           \<and> t = Transfer.truncate (posted_row (sample_envs n) sample_cmd None))"
proof -
  have "case postWithRetry DefaultRetryPolicy sample_envs sample_cmd None sample_db of
     (r, a, d) \<Rightarrow> isl r = False \<and> at_Total a = 2" by code_simp
  then obtain t a d' where eq: "postWithRetry DefaultRetryPolicy sample_envs sample_cmd None sample_db = (Inr t, a, d')"
    and "at_Total a = 2" by (auto split: prod.splits simp: isl_def) (metis sum.exhaust)
  with postWithRetry_success [OF db_ok_sample env_ok_sample(1) amount_sample eq] show ?thesis by blast
qed

text \<open>C12: A posting that fails leaves no trace: unless the acknowledgement of a COMMIT was lost, the database
  is the one other sessions made of it.\<close>

theorem postWithRetry_failure:
  assumes "db_ok d" and "env_ok env" and "c_AmountMinor cmd < 2 ^ 63"
    and "postWithRetry p env cmd stamp d = (Inl err, a, d')"
    and "\<forall>n e. ae_commit (env n) \<noteq> LostAck e"
  shows "others_steps (others_of env) d d'"
  using postWithRetry_outcome [OF assms(1-4)] assms(5) by (auto simp: call_outcome_def)

theorem postWithRetry_failure_witness:
  "\<exists>err a. postWithRetry DefaultRetryPolicy sample_envs (sample_cmd\<lparr>c_AmountMinor := 101\<rparr>) None sample_db = (Inl err, a, sample_db)
     \<and> others_steps (others_of sample_envs) sample_db sample_db"
proof -
  let ?cmd = "sample_cmd\<lparr>c_AmountMinor := 101\<rparr>"
  have "case postWithRetry DefaultRetryPolicy sample_envs ?cmd None sample_db of (r, a, d) \<Rightarrow> isl r \<and> d = sample_db" by code_simp
  then obtain err a where call: "postWithRetry DefaultRetryPolicy sample_envs ?cmd None sample_db = (Inl err, a, sample_db)"
    by (auto split: prod.splits simp: isl_def)
  have "\<forall>n e. ae_commit (sample_envs n) \<noteq> LostAck e" by (simp add: sample_envs_def sample_env_def)
  moreover have "c_AmountMinor ?cmd < 2 ^ 63" by simp
  ultimately show ?thesis using postWithRetry_failure [OF db_ok_sample env_ok_sample(1) _ call] call by blast
qed

text \<open>C11: The decision of the transaction: a command the ledger must refuse (an account missing, a currency
  that differs, funds that do not suffice) is refused with exactly that error and changes nothing;
  any other command whose new rows are fresh and whose credit stays in range is posted.\<close>

theorem postOnce_decides:
  assumes "db_ok d" and "valid_cmd cmd" and "quiet_attempt env" and "fresh_rows env cmd stamp d" and "credit_fits cmd d"
  shows "case refusal cmd d of
      Some k \<Rightarrow> (\<exists>err. postOnce env cmd stamp d = (Inl err, d) \<and> errors_is err k)
    | None \<Rightarrow> postOnce env cmd stamp d = (Inr (Transfer.truncate (posted_row env cmd stamp)), posted_db env cmd stamp d)"
proof (cases "refusal cmd d")
  case None
  then have "can_post env cmd stamp d" using assms(4,5) by (simp add: can_post_iff)
  with None postOnce_accepted [OF assms(1,2)] assms(3) show ?thesis by (simp add: quiet_attempt_def)
next
  case (Some k)
  with postOnce_refused [OF assms(2) Some, of env stamp] assms(3) show ?thesis
    by (auto simp: quiet_attempt_def)
qed

theorem postOnce_decides_witness:
  "(\<exists>err. postOnce sample_env (sample_cmd\<lparr>c_Currency := ''EUR''\<rparr>) None sample_db = (Inl err, sample_db)
      \<and> errors_is err transfer_ErrCurrencyMismatch)
   \<and> postOnce sample_env sample_cmd None sample_db =
      (Inr (Transfer.truncate (posted_row sample_env sample_cmd None)), posted_db sample_env sample_cmd None sample_db)"
proof -
  let ?eur = "sample_cmd\<lparr>c_Currency := ''EUR''\<rparr>"
  have "valid_cmd ?eur" "fresh_rows sample_env ?eur None sample_db" "credit_fits ?eur sample_db"
    "refusal ?eur sample_db = Some transfer_ErrCurrencyMismatch" by code_simp+
  with postOnce_decides [OF db_ok_sample _ quiet_sample(3), of ?eur None]
  have "\<exists>err. postOnce sample_env ?eur None sample_db = (Inl err, sample_db) \<and> errors_is err transfer_ErrCurrencyMismatch" by simp
  moreover have "fresh_rows sample_env sample_cmd None sample_db" "credit_fits sample_cmd sample_db"
    "refusal sample_cmd sample_db = None" by code_simp+
  with postOnce_decides [OF db_ok_sample valid_cmd_sample quiet_sample(3), of None]
  have "postOnce sample_env sample_cmd None sample_db =
      (Inr (Transfer.truncate (posted_row sample_env sample_cmd None)), posted_db sample_env sample_cmd None sample_db)" by simp
  ultimately show ?thesis by blast
qed

text \<open>What a posted command does to the balances: the source is lower by the amount, the destination higher
  by it, every other account unchanged; one completed transfer and two entries are appended.\<close>

theorem postOnce_effect:
  assumes "db_ok d" and "valid_cmd cmd" and "postOnce env cmd stamp d = (Inr t, d')"
  shows "map_option a_BalanceMinor (sql_select_account i d') =
      map_option (\<lambda>a. a_BalanceMinor a + (if i = c_SourceAccountID cmd then - c_AmountMinor cmd
        else if i = c_DestinationAccountID cmd then c_AmountMinor cmd else 0)) (sql_select_account i d)
    \<and> (\<exists>row. transfers d' = transfers d @ [row] \<and> t = Transfer.truncate row \<and> t_Status row = StatusCompleted)
    \<and> (\<exists>e1 e2. ledger_entries d' = ledger_entries d @ [e1, e2] \<and> e_TransferID e1 = t_ID t \<and> e_TransferID e2 = t_ID t
         \<and> e_AmountMinor e1 = - c_AmountMinor cmd \<and> e_AmountMinor e2 = c_AmountMinor cmd)"
proof -
  have d': "d' = posted_db env cmd stamp d" and t: "t = Transfer.truncate (posted_row env cmd stamp)"
    using postOnce_cases [OF assms] by auto
  have "- c_AmountMinor cmd \<noteq> c_AmountMinor cmd \<and> wrap64 (- c_AmountMinor cmd) = - c_AmountMinor cmd"
    using valid_cmdD [OF assms(2)] by (simp add: in_int64_def)
  then show ?thesis
    using sql_select_account_ID [of i d]
    by (auto simp: d' t sql_select_account_posted new_entries_def moved_def Transfer.truncate_def update_balance_row_def
        map_option.compositionality intro!: map_option_cong)
qed

theorem postOnce_effect_witness:
  "\<exists>t d'. postOnce sample_env sample_cmd None sample_db = (Inr t, d')
     \<and> map_option a_BalanceMinor (sql_select_account acct_a d') = Some 70
     \<and> map_option a_BalanceMinor (sql_select_account acct_b d') = Some 30"
proof -
  have call: "postOnce sample_env sample_cmd None sample_db =
      (Inr (Transfer.truncate (posted_row sample_env sample_cmd None)), posted_db sample_env sample_cmd None sample_db)"
    using quiet_sample(3) by (intro postOnce_accepted) (simp_all add: quiet_attempt_def)
  have "sql_select_account acct_a sample_db = Some (accounts sample_db ! 0)" "sql_select_account acct_b sample_db = Some (accounts sample_db ! 1)"
    by code_simp+
  with postOnce_effect [OF db_ok_sample valid_cmd_sample call, of acct_a] postOnce_effect [OF db_ok_sample valid_cmd_sample call, of acct_b]
  show ?thesis by (simp add: call) (simp add: sample_cmd_def sample_db_def acct_a_def acct_b_def)
qed

text \<open>C17: Retries are bounded and counted: a call that passes validation makes at least one attempt and no
  more than the policy allows, and all attempts but possibly the last were lost to a
  serialization failure or a deadlock.\<close>

theorem postWithRetry_attempts:
  assumes "Command_Validate cmd = None" and "postWithRetry p env cmd stamp d = (r, a, d')"
  shows "1 \<le> at_Total a \<and> at_Total a \<le> max 1 (MaxAttempts p)
    \<and> (lost_attempts a = Attempts_Retries a \<or> lost_attempts a = at_Total a \<and> (\<exists>err. r = Inl err))"
proof -
  have zero: "lost_attempts no_attempts = 1 - 1" by (simp add: lost_attempts_def no_attempts_def)
  have "retry_loop p (attempt_once env cmd stamp) (\<lambda>n. wait p (ae_int64N (env n)) (ae_cancelled (env n)) n) 1 no_attempts d = (r, a, d')"
    using assms by (simp add: postWithRetry_def)
  from retry_loop_attempts [OF this zero] show ?thesis
    by (cases "at_Total a = 1") (auto simp: Attempts_Retries_def)
qed

theorem postWithRetry_attempts_witness:
  "case postWithRetry DefaultRetryPolicy sample_envs sample_cmd None sample_db of
     (r, a, d') \<Rightarrow> at_Total a \<le> 20 \<and> at_SerializationFailures a = 1"
proof -
  have "Command_Validate sample_cmd = None" using valid_cmd_sample by (simp add: valid_cmd_def)
  moreover have "case postWithRetry DefaultRetryPolicy sample_envs sample_cmd None sample_db of
     (r, a, d') \<Rightarrow> at_SerializationFailures a = 1" by code_simp
  ultimately show ?thesis
    using postWithRetry_attempts [of sample_cmd DefaultRetryPolicy sample_envs None sample_db]
    by (auto simp: DefaultRetryPolicy_def split: prod.splits)
qed

text \<open>C16: Transient conflicts do not surface: when the first attempts are lost to serialization failures or
  deadlocks, other sessions committing before every one of them, the caller is not cancelled while
  it backs off and a later attempt, within the policy, meets no fault and finds a database on
  which the command can be posted, the call posts it on that database, exactly once, and
  says how many attempts it took.\<close>

theorem postWithRetry_survives:
  assumes "db_ok d" and "env_ok env" and "valid_cmd cmd" and "1 \<le> k" and "k \<le> MaxAttempts p"
    and "\<And>n. 1 \<le> n \<Longrightarrow> n < k \<Longrightarrow>
        (\<exists>err. fst (attempt_once env cmd stamp n (others_upto env (nat (n - 1)) d)) = Inl err \<and> retryable err)
        \<and> (\<forall>delay. ae_cancelled (env n) delay = None)"
    and "\<And>s. ae_fault (env k) s = None" and "ae_commit (env k) = NoFault"
    and "can_post (env k) cmd stamp (others_upto env (nat k) d)"
  shows "\<exists>a. postWithRetry p env cmd stamp d =
      (Inr (Transfer.truncate (posted_row (env k) cmd stamp)), a, posted_db (env k) cmd stamp (others_upto env (nat k) d))
      \<and> at_Total a = k"
proof -
  let ?S = "\<lambda>n. others_upto env (nat (n - 1)) d"
  have ok: "db_ok (others_upto env (nat k) d)"
    using others_steps_keep [OF others_upto_steps] assms(1,2) by (simp add: env_ok_def)
  have last: "attempt_once env cmd stamp k (?S k) =
      (Inr (Transfer.truncate (posted_row (env k) cmd stamp)), posted_db (env k) cmd stamp (others_upto env (nat k) d))"
    using postOnce_accepted [OF ok assms(3,9,7,8)] others_upto_next [OF assms(4), of env d] by (simp add: attempt_once_def)
  have "(\<exists>err. attempt_once env cmd stamp n (?S n) = (Inl err, ?S (n + 1)) \<and> retryable err)
      \<and> wait p (ae_int64N (env n)) (ae_cancelled (env n)) n = None" if "1 \<le> n" "n < k" for n
    using assms(6) [OF that] attempt_lost [OF assms(2) that(1), of cmd stamp d] by (auto simp: wait_def Let_def)
  from retry_loop_eventually [of 1 k "attempt_once env cmd stamp" ?S
      "\<lambda>n. wait p (ae_int64N (env n)) (ae_cancelled (env n)) n" p, OF this assms(4,5) last] assms(3)
  show ?thesis by (simp add: postWithRetry_def valid_cmd_def)
qed

text \<open>Another session moves 50 of the 100 out of the source account first; its COMMIT costs this call its
  first attempt, and the second posts on the database the other session left.\<close>

definition rival :: "db \<Rightarrow> db" where
  "rival d = snd (post_op (DefaultRetryPolicy,
     \<lambda>_. sample_env\<lparr>ae_transferID := UUID 30, ae_debitID := UUID 31, ae_creditID := UUID 32\<rparr>,
     sample_cmd\<lparr>c_AmountMinor := 50\<rparr>) d)"

definition rival_envs :: "int \<Rightarrow> attempt_env" where
  "rival_envs n = (if n = 1 then sample_env\<lparr>ae_others := rival, ae_commit := Fault (PgError ''40001'' '''')\<rparr> else sample_env)"

lemma env_ok_rival: "env_ok rival_envs"
proof -
  let ?env = "\<lambda>_. sample_env\<lparr>ae_transferID := UUID 30, ae_debitID := UUID 31, ae_creditID := UUID 32\<rparr> :: attempt_env"
  have "env_ok ?env" by (auto simp: env_ok_def others_of_def sample_env_def)
  moreover have "int64_cmd (sample_cmd\<lparr>c_AmountMinor := 50\<rparr>)" by (simp add: int64_cmd_def sample_cmd_def in_int64_def)
  ultimately have "well_behaved rival"
    using posts.writes_well [of "(DefaultRetryPolicy, ?env, sample_cmd\<lparr>c_AmountMinor := 50\<rparr>)"]
    by (simp add: rival_def [abs_def])
  then show ?thesis by (auto simp: env_ok_def others_of_def rival_envs_def sample_env_def split: if_splits)
qed

theorem postWithRetry_survives_witness:
  "\<exists>a. postWithRetry DefaultRetryPolicy rival_envs sample_cmd None sample_db =
      (Inr (Transfer.truncate (posted_row sample_env sample_cmd None)), a, posted_db sample_env sample_cmd None (rival sample_db))
     \<and> at_Total a = 2 \<and> map a_BalanceMinor (accounts (rival sample_db)) = [50, 50]"
proof -
  have upto: "others_upto rival_envs (nat 2) sample_db = rival sample_db"
    by (simp add: numeral_2_eq_2 rival_envs_def sample_env_def)
  have "can_post sample_env sample_cmd None (rival sample_db)" by code_simp
  then have can: "can_post (rival_envs 2) sample_cmd None (others_upto rival_envs (nat 2) sample_db)"
    unfolding upto by (simp add: rival_envs_def)
  have "\<exists>a. postWithRetry DefaultRetryPolicy rival_envs sample_cmd None sample_db =
      (Inr (Transfer.truncate (posted_row (rival_envs 2) sample_cmd None)), a,
       posted_db (rival_envs 2) sample_cmd None (others_upto rival_envs (nat 2) sample_db)) \<and> at_Total a = 2"
  proof (rule postWithRetry_survives [OF db_ok_sample env_ok_rival valid_cmd_sample _ _ _ _ _ can])
    fix n :: int
    assume "1 \<le> n" "n < 2"
    then have n: "n = 1" by simp
    have "case fst (attempt_once rival_envs sample_cmd None 1 sample_db) of Inl err \<Rightarrow> retryable err | _ \<Rightarrow> False" by code_simp
    then show "(\<exists>err. fst (attempt_once rival_envs sample_cmd None n (others_upto rival_envs (nat (n - 1)) sample_db)) = Inl err
          \<and> retryable err) \<and> (\<forall>delay. ae_cancelled (rival_envs n) delay = None)"
      by (auto simp: n rival_envs_def sample_env_def split: sum.splits)
  qed (simp_all add: DefaultRetryPolicy_def rival_envs_def, simp_all add: sample_env_def)
  moreover have "map a_BalanceMinor (accounts (rival sample_db)) = [50, 50]" by code_simp
  ultimately show ?thesis unfolding upto by (simp add: rival_envs_def)
qed

text \<open>C18: The backoff is full jitter under a doubling, capped ceiling: with a sane policy the ceiling of
  attempt \<open>n\<close> is the base delay doubled \<open>n - 1\<close> times, at most the maximum; no intermediate
  value overflows, the random source is never called with a bound it panics on, and the delay
  lies between zero and the ceiling.\<close>

theorem delay_spec:
  assumes "sane_policy p" and "\<And>n. 0 < n \<Longrightarrow> 0 \<le> int64N n \<and> int64N n < n"
  shows "delay_ceiling p attempt = min (BaseDelay p * 2 ^ nat (attempt - 1)) (MaxDelay p)
    \<and> \<not> delay_panics p attempt \<and> 0 \<le> delay p int64N attempt \<and> delay p int64N attempt \<le> delay_ceiling p attempt"
  using delay_ceiling_eq [OF assms(1)] delay_bounds [OF assms] sane_policy_no_panic [OF assms(1)] by simp

theorem delay_spec_witness:
  "delay_ceiling DefaultRetryPolicy 3 = 4000000 \<and> delay_ceiling DefaultRetryPolicy 20 = 100000000
   \<and> delay DefaultRetryPolicy (\<lambda>n. n - 1) 3 \<le> 4000000"
proof -
  have p: "sane_policy DefaultRetryPolicy" by (simp add: sane_policy_def DefaultRetryPolicy_def)
  from delay_spec [OF p, of "\<lambda>n. n - 1" 3] delay_spec [OF p, of "\<lambda>n. n - 1" 20] show ?thesis
    by (simp add: DefaultRetryPolicy_def)
qed

section \<open>Idempotency\<close>

text \<open>C3: At most one transfer per key, and one answer: when two calls with the same idempotency key
  both succeed, whatever Redis holds or does, whatever other sessions commit in between and
  whichever process runs them, the second returns the transfer of the first, reports a replay
  and moves no money; and the two requests have the same fingerprint.\<close>

theorem PostIdempotent_one_answer:
  assumes "db_ok d" and "idem_env_ok env1" and "idem_env_ok env2" and "valid_cmd cmd1" and "valid_cmd cmd2"
    and "PostIdempotent s1 u env1 key cmd1 d r1 = ((res1, None), d1, r1')"
    and "well_behaved between"
    and "PostIdempotent s2 u env2 key cmd2 (between d1) r2 = ((res2, None), d2, r2')"
  shows "rs_Transfer res2 = rs_Transfer res1 \<and> rs_Replayed res2
    \<and> others_steps (idem_others env2) (between d1) d2
    \<and> command_fingerprint u cmd2 = command_fingerprint u cmd1"
proof -
  have amount: "c_AmountMinor cmd1 < 2 ^ 63" "c_AmountMinor cmd2 < 2 ^ 63"
    using assms(4,5) by (simp_all add: valid_cmd_def)
  note first = PostIdempotent_spec [OF assms(1,2) amount(1) assms(6)]
  have d1: "db_ok d1" using idem_spec_keeps [OF first assms(1,2,4)] by simp
  have "answers (between d1) key (command_fingerprint u cmd1) (rs_Transfer res1)"
    using first d1 assms(7) by (auto simp: idem_spec_def intro: answers_extends well_behavedD)
  moreover have ok: "db_ok (between d1)" using d1 assms(7) by (rule well_behavedD(1) [rotated])
  ultimately show ?thesis
    using idem_spec_known_key [OF ok assms(3) _ PostIdempotent_spec [OF ok assms(3) amount(2) assms(8)]] by auto
qed

theorem PostIdempotent_one_answer_witness:
  "\<exists>res1 res2. PostIdempotent plain_service plain_uuid_String sample_idem sample_key sample_cmd sample_db ()
       = ((res1, None), posted_sample, ())
     \<and> PostIdempotent plain_service plain_uuid_String sample_idem2 sample_key sample_cmd posted_sample ()
       = ((res2, None), posted_sample, ())
     \<and> rs_Transfer res2 = rs_Transfer res1 \<and> rs_Replayed res2"
proof -
  obtain res1 where first: "PostIdempotent plain_service plain_uuid_String sample_idem sample_key sample_cmd sample_db ()
       = ((res1, None), posted_sample, ())"
    using first_call by blast
  obtain res2 where second: "PostIdempotent plain_service plain_uuid_String sample_idem2 sample_key sample_cmd posted_sample ()
       = ((res2, None), posted_sample, ())"
    using second_call by blast
  from PostIdempotent_one_answer [OF db_ok_sample idem_env_ok_sample valid_cmd_sample valid_cmd_sample first
      well_behaved_id second]
  show ?thesis using first second by blast
qed

text \<open>C13: A key reused for a different payment is never executed: when the database holds a transfer for
  the key with another fingerprint, the call fails and moves no money, whatever Redis says.\<close>

theorem PostIdempotent_conflict:
  assumes "db_ok d" and "idem_env_ok env" and "c_AmountMinor cmd < 2 ^ 63"
    and "answers d key f t" and "f \<noteq> command_fingerprint u cmd"
    and "PostIdempotent s u env key cmd d r = ((res, e), d', r')"
  shows "e \<noteq> None \<and> others_steps (idem_others env) d d'"
  using idem_spec_known_key [OF assms(1,2,4) PostIdempotent_spec [OF assms(1-3,6)]] assms(5) by auto

theorem PostIdempotent_conflict_witness:
  "\<exists>res e d'. PostIdempotent plain_service plain_uuid_String sample_idem2 sample_key sample_cmd
      (posted_db sample_env sample_cmd (key_stamp sample_key (map (\<lambda>b. b + 1) sample_fp)) sample_db) () = ((res, e), d', ()) \<and> e \<noteq> None"
proof -
  let ?f = "map (\<lambda>b. b + 1) sample_fp"
  let ?d = "posted_db sample_env sample_cmd (key_stamp sample_key ?f) sample_db"
  have "refusal sample_cmd sample_db = None" "credit_fits sample_cmd sample_db" by code_simp+
  moreover have "fresh_rows sample_env sample_cmd (key_stamp sample_key ?f) sample_db"
    using check_new_row [OF valid_cmd_sample ParseKey_sample, of ?f sample_env]
    by (simp add: fresh_rows_def) (simp add: sample_db_def sample_env_def)
  ultimately have "can_post sample_env sample_cmd (key_stamp sample_key ?f) sample_db" by (simp add: can_post_iff)
  then have ok: "db_ok ?d" by (intro db_ok_posted) simp_all
  have "sample_fp \<noteq> []" using length_sample_fp by (metis list.size(3) zero_neq_numeral)
  then have ne: "?f \<noteq> command_fingerprint plain_uuid_String sample_cmd"
    unfolding sample_fp_def by (cases "command_fingerprint plain_uuid_String sample_cmd") auto
  have "\<exists>res e d'. x = ((res, e), d', ())" for x :: "unit idem_outcome" by (cases x) auto
  then obtain res e d' where call: "PostIdempotent plain_service plain_uuid_String sample_idem2 sample_key sample_cmd ?d () = ((res, e), d', ())"
    by blast
  from PostIdempotent_conflict [OF ok idem_env_ok_sample(2) amount_sample answers_posted ne call] call show ?thesis by blast
qed

text \<open>C14: Without Redis, a repeated request whose account still covers the amount returns the original
  transfer and repairs nothing in the database: the UNIQUE constraint fires and the row is read
  back.\<close>

theorem PostIdempotent_replay:
  assumes "\<not> Available (sv_idem s)" and "db_ok d" and "valid_cmd cmd" and "ParseKey key = Inr k"
    and "answers d key (command_fingerprint u cmd) t" and "refusal cmd d = None"
    and "quiet_attempt (ie_attempts env 1)" and "ie_recover_fault env = None" and "ie_recover_others env d = d"
    and "ae_transferID (ie_attempts env 1) \<notin> t_ID ` set (transfers d)"
  shows "\<exists>res r'. PostIdempotent s u env key cmd d r = ((res, None), d, r') \<and> rs_Transfer res = t \<and> rs_Replayed res"
proof -
  have "Command_Validate cmd = None" using assms(3) by (simp add: valid_cmd_def)
  from PostIdempotent_without_store [OF assms(1,4) this] show ?thesis
    using postClaimed_replays [OF assms(2-4) length_command_fingerprint assms(7-9,6,10,5)] by simp
qed

theorem PostIdempotent_replay_witness:
  "\<exists>res. PostIdempotent plain_service plain_uuid_String sample_idem2 sample_key sample_cmd posted_sample () = ((res, None), posted_sample, ())
     \<and> rs_Transfer res = Transfer.truncate (posted_row sample_env sample_cmd sample_stamp) \<and> rs_Replayed res"
proof -
  have "ae_transferID (ie_attempts sample_idem2 1) \<notin> t_ID ` set (transfers posted_sample)"
    "ie_recover_fault sample_idem2 = None" "ie_recover_others sample_idem2 posted_sample = posted_sample"
    by (simp_all add: posted_sample_def sample_idem2_def sample_idem_def sample_db_def sample_env_def)
  with PostIdempotent_replay [OF plain_unavailable db_ok_posted_sample valid_cmd_sample ParseKey_sample
      answers_sample [unfolded sample_fp_def] refusal_posted_sample quiet_sample(2), of "()"]
  show ?thesis by (auto simp: sample_fp_def)
qed

text \<open>C15: The recovery has a gap: the funds check comes before the INSERT, so a repeated request whose
  source account has since been spent (or whose transfer would be refused today for another
  reason) is answered with that refusal although its transfer exists.\<close>

theorem PostIdempotent_replay_refused:
  assumes "\<not> Available (sv_idem s)" and "valid_cmd cmd" and "ParseKey key = Inr k"
    and "answers d key (command_fingerprint u cmd) t" and "refusal cmd d = Some e"
    and "quiet_attempt (ie_attempts env 1)"
  shows "\<exists>res err r'. PostIdempotent s u env key cmd d r = ((res, Some err), d, r') \<and> errors_is err e
    \<and> answers d key (command_fingerprint u cmd) t"
proof -
  have "Command_Validate cmd = None" using assms(2) by (simp add: valid_cmd_def)
  from PostIdempotent_without_store [OF assms(1,3) this] show ?thesis
    using postClaimed_refused [OF assms(2,6,5)] assms(4) by simp
qed

text \<open>Moving 60 of 100 leaves 40: the repeated request is told the funds are missing.\<close>

theorem PostIdempotent_replay_refused_witness:
  "\<exists>res err. PostIdempotent plain_service plain_uuid_String sample_idem2 sample_key big_cmd
        (posted_db sample_env big_cmd (key_stamp sample_key (command_fingerprint plain_uuid_String big_cmd)) sample_db) ()
      = ((res, Some err), posted_db sample_env big_cmd (key_stamp sample_key (command_fingerprint plain_uuid_String big_cmd)) sample_db, ())
    \<and> errors_is err transfer_ErrInsufficientFunds"
proof -
  let ?d = "posted_db sample_env big_cmd (key_stamp sample_key (command_fingerprint plain_uuid_String big_cmd)) sample_db"
  have valid: "valid_cmd big_cmd" by code_simp
  have "refusal big_cmd ?d = Some transfer_ErrInsufficientFunds"
    by (simp add: refusal_def sql_select_account_def moved_def sample_db_def big_cmd_def sample_cmd_def acct_a_def acct_b_def)
  from PostIdempotent_replay_refused [OF plain_unavailable valid ParseKey_sample answers_posted this quiet_sample(2), of "()"]
  show ?thesis by auto
qed

section \<open>The service as a whole\<close>

text \<open>C4: The double-entry invariant holds after every history of requests, in any interleaving and with any
  behaviour of Redis: no balance is negative, every transfer is completed and has exactly its
  debit and its credit, every entry belongs to a transfer, the ledger sums to zero, and a key
  belongs to at most one transfer.\<close>

theorem history_ledger:
  assumes "history (d, r) (d', r')" and "db_ok d"
  shows "(\<forall>a \<in> set (accounts d'). 0 \<le> a_BalanceMinor a)
    \<and> (\<forall>t \<in> set (transfers d'). t_Status t = StatusCompleted \<and> posted_legs t (entries_of (t_ID t) d'))
    \<and> (\<forall>e \<in> set (ledger_entries d'). e_TransferID e \<in> t_ID ` set (transfers d'))
    \<and> sum_amounts (ledger_entries d') = 0
    \<and> (\<forall>t1 \<in> set (transfers d'). \<forall>t2 \<in> set (transfers d').
         t_idempotency_key t1 = t_idempotency_key t2 \<and> t_idempotency_key t1 \<noteq> None \<longrightarrow> t1 = t2)"
proof -
  have d': "db_ok d'" using history_keeps [OF assms(1)] assms(2) by simp
  then have "\<forall>t \<in> set (transfers d'). t_Status t = StatusCompleted \<and> posted_legs t (entries_of (t_ID t) d')"
      "\<forall>e \<in> set (ledger_entries d'). e_TransferID e \<in> t_ID ` set (transfers d')"
    by (simp_all add: db_ok_def schema_ok_def ledger_ok_def entries_ok_def)
  moreover have "t1 = t2" if "t1 \<in> set (transfers d')" "t2 \<in> set (transfers d')"
      "t_idempotency_key t1 = t_idempotency_key t2" "t_idempotency_key t1 \<noteq> None" for t1 t2
    using that db_ok_key_unique [OF d', of t1 t2] by force
  ultimately show ?thesis using db_ok_nonneg [OF d'] db_ok_ledger_zero [OF d'] by blast
qed

lemma sample_history: "history (sample_db, ()) (posted_sample, ())"
proof (rule history.continue [OF history.start])
  obtain res where "PostIdempotent plain_service plain_uuid_String sample_idem sample_key sample_cmd sample_db ()
       = ((res, None), posted_sample, ())" using first_call by blast
  then show "sys_step (sample_db, ()) (posted_sample, ())"
    by (rule sys_step.post_idempotent) (simp_all add: int64_cmd_def sample_cmd_def in_int64_def)
qed

theorem history_ledger_witness:
  "history (sample_db, ()) (posted_sample, ()) \<and> sum_amounts (ledger_entries posted_sample) = 0
   \<and> list_all (\<lambda>a. 0 \<le> a_BalanceMinor a) (accounts posted_sample)"
  using history_ledger [OF sample_history db_ok_sample] sample_history unfolding list_all_iff by blast

text \<open>C5: Money is conserved and history is append-only: over any history the total of every currency stays
  the same, every balance changes by exactly what its ledger entries say, and no transfer, entry
  or account disappears or is rewritten.\<close>

theorem history_conserves:
  assumes "history (d, r) (d', r')" and "db_ok d"
  shows "currency_total c d' = currency_total c d \<and> unexplained d' i = unexplained d i
    \<and> (\<exists>ts. transfers d' = transfers d @ ts) \<and> (\<exists>es. ledger_entries d' = ledger_entries d @ es)
    \<and> (\<exists>cs. map (\<lambda>a. (a_ID a, a_Currency a)) (accounts d') = map (\<lambda>a. (a_ID a, a_Currency a)) (accounts d) @ cs)"
  using history_keeps [OF assms(1)] assms(2) by (simp add: extends_def)

theorem history_conserves_witness:
  "currency_total ''USD'' posted_sample = 100 \<and> unexplained posted_sample acct_b = 0"
proof -
  have "currency_total ''USD'' sample_db = 100" "unexplained sample_db acct_b = 0" by code_simp+
  then show ?thesis using history_conserves [OF sample_history db_ok_sample, of "''USD''" acct_b] by simp
qed

text \<open>C10: Reconciliation never raises a false alarm: with a baseline taken from a well-formed database, a pass
  over whatever the service made of it reports no violation, even though its four queries see
  four different states.\<close>

theorem Check_no_false_alarm:
  assumes "db_ok d" and "SnapshotBaseline flt d = Inr baseline"
    and "\<And>q. history (d, r) (reads q, r' q)" and "\<And>q. sums_fit (reads q)"
  shows "\<exists>rep. Check (\<lambda>_. NoReadFault) reads baseline = Inr rep \<and> Report_OK rep \<and> Problems rep = []"
proof -
  have keeps: "db_ok (reads q) \<and> unexplained (reads q) = unexplained d" for q
    using history_keeps [OF assms(3) [of q]] assms(1) by simp
  then have "(case baseline (a_ID a) of None \<Rightarrow> 0 | Some b \<Rightarrow> b) = unexplained (reads QMismatches) (a_ID a)" for a :: Account
    using baseline_of_unexplained [OF assms(1), of "a_ID a"] SnapshotBaseline_Inr [OF assms(2)] by simp
  with Check_clean [of reads baseline] keeps assms(4) obtain rep
    where "Check (\<lambda>_. NoReadFault) reads baseline = Inr rep" "Report_OK rep" by blast
  moreover from this have "Problems rep = []" using length_Problems [of rep] by (simp add: OK_iff_Violations)
  ultimately show ?thesis by blast
qed

theorem Check_no_false_alarm_witness:
  "\<exists>baseline rep. SnapshotBaseline NoReadFault sample_db = Inr baseline
     \<and> Check (\<lambda>_. NoReadFault) (\<lambda>q. if q = QTotals then sample_db else posted_sample) baseline = Inr rep \<and> Report_OK rep"
proof -
  let ?reads = "\<lambda>q. if q = QTotals then sample_db else posted_sample"
  have "\<not> isl (SnapshotBaseline NoReadFault sample_db)" by code_simp
  then obtain baseline where base: "SnapshotBaseline NoReadFault sample_db = Inr baseline" by (auto simp: isl_def) (metis sum.exhaust)
  have hist: "history (sample_db, ()) (?reads q, ())" for q by (simp add: sample_history history.start)
  have "sums_fit sample_db" by code_simp
  moreover have "sums_fit posted_sample"
    by (simp add: sums_fit_def posted_sample_def total_balance_def account_ledger_def sum_amounts_def moved_def
        new_entries_def sample_db_def sample_cmd_def sample_env_def acct_a_def acct_b_def in_int64_def wrap64_def update_balance_row_def)
  ultimately have "sums_fit (?reads q)" for q by simp
  with Check_no_false_alarm [of sample_db NoReadFault baseline "()" ?reads "\<lambda>_. ()"] hist base show ?thesis by auto
qed

text \<open>C9: Reconciliation misses nothing: a pass that completes is clean exactly when, in the states its queries
  read, the ledger sums to zero, no balance is negative, every completed transfer has exactly its
  two legs with the right accounts, signs, amounts and currency, and every balance is its
  baseline plus its ledger (in 64-bit arithmetic, as the code adds them).  The problems it lists are
  exactly the lines of the violations, one for each: the total that is not zero, every overdrawn account
  with its balance, every account whose balance is unexplained with the five figures, every completed
  transfer without its legs with its counts.\<close>

theorem Check_exact:
  assumes "Check flt reads baseline = Inr rep" and "schema_ok (reads QUnbalanced)"
  shows "(Report_OK rep \<longleftrightarrow>
       sum_amounts (ledger_entries (reads QTotals)) = 0
       \<and> (\<forall>a \<in> set (accounts (reads QNegative)). 0 \<le> a_BalanceMinor a)
       \<and> (\<forall>t \<in> set (transfers (reads QUnbalanced)).
            t_Status t = StatusCompleted \<longrightarrow> has_legs t (entries_of (t_ID t) (reads QUnbalanced)))
       \<and> (\<forall>a \<in> set (accounts (reads QMismatches)).
            a_BalanceMinor a = expected_balance baseline (reads QMismatches) (a_ID a)))
    \<and> (Report_OK rep \<longleftrightarrow> Problems rep = []) \<and> length (Problems rep) = Violations rep
    \<and> mset (Problems rep) =
        mset ((if sum_amounts (ledger_entries (reads QTotals)) = 0 then []
               else [(''the whole ledger sums to %d, want 0'', [AInt (sum_amounts (ledger_entries (reads QTotals)))])])
          @ map overdrawn_line (overdrawn (reads QNegative))
          @ map (unexplained_line baseline (reads QMismatches)) (unexplained_accounts baseline (reads QMismatches))
          @ map (broken_line (reads QUnbalanced)) (broken (reads QUnbalanced)))"
proof -
  have "Report_OK rep \<longleftrightarrow> Problems rep = []"
    using length_Problems [of rep] by (metis OK_iff_Violations length_0_conv)
  moreover have "(\<forall>t \<in> set (transfers (reads QUnbalanced)).
        t_Status t = StatusCompleted \<longrightarrow> \<not> offending (per_transfer (reads QUnbalanced) t))
      \<longleftrightarrow> (\<forall>t \<in> set (transfers (reads QUnbalanced)).
        t_Status t = StatusCompleted \<longrightarrow> has_legs t (entries_of (t_ID t) (reads QUnbalanced)))"
    using schema_ok_offending [OF assms(2)] by blast
  ultimately show ?thesis
    using Check_Inr_OK [OF assms(1)] length_Problems [of rep] Check_Inr_Problems [OF assms] by simp
qed

text \<open>One unit disappears from a balance: the pass reports it.\<close>

theorem Check_exact_witness:
  "\<exists>rep. Check (\<lambda>_. NoReadFault) (\<lambda>_. small_ledger) (\<lambda>i. if i = UUID 1 then Some 10 else None) = Inr rep
     \<and> \<not> Report_OK rep \<and> Problems rep \<noteq> []"
proof -
  let ?base = "\<lambda>i. if i = UUID 1 then Some 10 else None :: int option"
  have "case Check (\<lambda>_. NoReadFault) (\<lambda>_. small_ledger) ?base of Inr rep \<Rightarrow> \<not> Report_OK rep | Inl _ \<Rightarrow> False"
    by code_simp
  then obtain rep where rep: "Check (\<lambda>_. NoReadFault) (\<lambda>_. small_ledger) ?base = Inr rep" "\<not> Report_OK rep"
    by (auto split: sum.splits)
  have "schema_ok small_ledger" using small_ledger_ok by (simp add: db_ok_def)
  from Check_exact [OF rep(1) this] rep show ?thesis by blast
qed

section \<open>End to end\<close>

text \<open>C8: The client's view: two successful CreateTransfer calls with the same idempotency key return the same
  transfer, and the second says it is a replay and moves no money.\<close>

theorem CreateTransfer_one_answer:
  assumes "db_ok d" and "idem_env_ok env1" and "idem_env_ok env2"
    and "in_int64 (ct_AmountMinor req1)" and "in_int64 (ct_AmountMinor req2)"
    and "ct_IdempotencyKey req2 = ct_IdempotencyKey req1"
    and "CreateTransfer lib s1 env1 req1 d r1 = (Inr resp1, d1, r1')"
    and "well_behaved between"
    and "CreateTransfer lib s2 env2 req2 (between d1) r2 = (Inr resp2, d2, r2')"
  shows "cr_Transfer resp2 = cr_Transfer resp1 \<and> cr_IdempotentReplay resp2
    \<and> others_steps (idem_others env2) (between d1) d2"
proof -
  obtain key1 cmd1 res1 where one: "request_ok lib req1 key1 cmd1"
      "PostIdempotent s1 (ul_String lib) env1 key1 cmd1 d r1 = ((res1, None), d1, r1')"
      "resp1 = \<lparr>cr_Transfer = transferToProto lib (rs_Transfer res1), cr_IdempotentReplay = rs_Replayed res1\<rparr>"
    using CreateTransfer_Inr [OF assms(7)] by blast
  obtain key2 cmd2 res2 where two: "request_ok lib req2 key2 cmd2"
      "PostIdempotent s2 (ul_String lib) env2 key2 cmd2 (between d1) r2 = ((res2, None), d2, r2')"
      "resp2 = \<lparr>cr_Transfer = transferToProto lib (rs_Transfer res2), cr_IdempotentReplay = rs_Replayed res2\<rparr>"
    using CreateTransfer_Inr [OF assms(9)] by blast
  have key: "key2 = key1" using one(1) two(1) assms(6) by (simp add: request_ok_def)
  have cmd: "int64_cmd cmd1" "c_AmountMinor cmd1 < 2 ^ 63" "c_AmountMinor cmd2 < 2 ^ 63"
    using one(1) two(1) assms(4,5) by (simp_all add: request_ok_def int64_cmd_def in_int64_def)
  note d1 = PostIdempotent_keeps [OF assms(1,2) cmd(1) one(2)]
  have "answers d1 key1 (command_fingerprint (ul_String lib) cmd1) (rs_Transfer res1)"
    using PostIdempotent_spec [OF assms(1,2) cmd(2) one(2)] by (simp add: idem_spec_def)
  then have ans: "answers (between d1) key2 (command_fingerprint (ul_String lib) cmd1) (rs_Transfer res1)"
    using d1 assms(8) by (auto simp: key intro: answers_extends well_behavedD)
  have ok: "db_ok (between d1)" using d1 assms(8) by (simp add: well_behavedD)
  from idem_spec_known_key [OF ok assms(3) ans PostIdempotent_spec [OF ok assms(3) cmd(3) two(2)]]
  show ?thesis by (simp add: one(3) two(3))
qed

definition sample_lib :: uuid_lib where
  "sample_lib = \<lparr>ul_String = plain_uuid_String, ul_Parse = (\<lambda>s. if s = ''a'' then Inr acct_a else Inr acct_b)\<rparr>"

definition sample_request :: pb_CreateTransferRequest where
  "sample_request = \<lparr>ct_IdempotencyKey = sample_key, ct_SourceAccountId = ''a'', ct_DestinationAccountId = ''b'',
     ct_AmountMinor = 30, ct_Currency = ''USD''\<rparr>"

theorem CreateTransfer_one_answer_witness:
  "\<exists>resp1 resp2. CreateTransfer sample_lib plain_service sample_idem sample_request sample_db () = (Inr resp1, posted_sample, ())
     \<and> CreateTransfer sample_lib plain_service sample_idem2 sample_request posted_sample () = (Inr resp2, posted_sample, ())
     \<and> cr_Transfer resp2 = cr_Transfer resp1 \<and> cr_IdempotentReplay resp2"
proof -
  have "ParseCurrency ''USD'' = Inr ''USD''" by code_simp
  then have ok: "request_ok sample_lib sample_request sample_key sample_cmd"
    by (simp add: request_ok_def sample_lib_def sample_request_def sample_cmd_def parseUUID_def acct_a_def acct_b_def uuid_Nil_def)
  have u: "ul_String sample_lib = plain_uuid_String" by (simp add: sample_lib_def)
  obtain resp1 where one: "CreateTransfer sample_lib plain_service sample_idem sample_request sample_db () = (Inr resp1, posted_sample, ())"
    using first_call by (auto simp: CreateTransfer_ok [OF ok] u)
  obtain resp2 where two: "CreateTransfer sample_lib plain_service sample_idem2 sample_request posted_sample () = (Inr resp2, posted_sample, ())"
    using second_call by (auto simp: CreateTransfer_ok [OF ok] u)
  have "in_int64 (ct_AmountMinor sample_request)" by (simp add: sample_request_def in_int64_def)
  from CreateTransfer_one_answer [OF db_ok_sample idem_env_ok_sample this this refl one well_behaved_id two] one two
  show ?thesis by blast
qed

end
